(* ===== verification/Prelude.thy ===== *)
theory Prelude
  imports Main "HOL-Library.Word" "HOL-Library.List_Lexorder" "HOL-Library.Char_ord" "HOL-Library.AList"
begin

text \<open>
  Shared vocabulary of the bank-core development: Go's \<open>int64\<close> as a 64-bit word with
  its signed reading, the \<open>if err != nil { return err }\<close> idiom as a bind on sums, and
  the list-backed relational tables on which every Postgres statement of the repository
  is modelled, with the interface of a table that has a primary key.
\<close>

named_theorems int64_simps \<open>signed comparison of words as comparison of their integer readings\<close>
named_theorems table_simps \<open>equations on relational tables\<close>

section \<open>Machine integers\<close>

type_synonym int64 = "64 word"
type_synonym int32 = "32 word"

text \<open>
  Go instants are nanoseconds since the Unix epoch (unbounded), a Go \<open>time.Duration\<close> is
  an \<open>int64\<close> number of nanoseconds. \<open>zeroTime\<close> is \<open>time.Time{}\<close>, the first instant of
  the year 1.
\<close>

type_synonym time = int
type_synonym duration = int64

definition zeroTime :: time where
  "zeroTime = - 62135596800 * 1000000000"

text \<open>Postgres \<open>timestamptz\<close> keeps microseconds; the driver drops what is finer.\<close>

definition pg_timestamptz :: "time \<Rightarrow> time" where
  "pg_timestamptz t = t - t mod 1000"

abbreviation int64_min :: int where "int64_min \<equiv> - 9223372036854775808"
abbreviation int64_max :: int where "int64_max \<equiv> 9223372036854775807"

text \<open>\<open>Time.Sub\<close> saturates.\<close>

definition time_Sub :: "time \<Rightarrow> time \<Rightarrow> int" where
  "time_Sub t u = max int64_min (min int64_max (t - u))"

text \<open>\<open>Time.Unix\<close>: whole seconds.\<close>

definition unix :: "time \<Rightarrow> int" where "unix t = t div 1000000000"

declare word_sless_alt [int64_simps] word_sle_eq [int64_simps]

lemma sint_int64_bounds:
  fixes a :: int64
  shows "int64_min \<le> sint a" and "sint a \<le> int64_max"
  using sint_range_size [of a] by (simp_all add: word_size)

text \<open>
  The two's complement reading of an integer that lies within one period of the
  representable range, on each side and inside.
\<close>

lemma signed_take_bit_63:
  "signed_take_bit 63 (x :: int)
     = (x + 9223372036854775808) mod 18446744073709551616 - 9223372036854775808"
  by (simp add: signed_take_bit_eq_take_bit_shift take_bit_eq_mod)

lemma signed_take_bit_63_id:
  fixes x :: int
  assumes "int64_min \<le> x" and "x \<le> int64_max"
  shows "signed_take_bit 63 x = x"
  using assms mod_pos_pos_trivial [of "x + 9223372036854775808" 18446744073709551616]
  by (simp add: signed_take_bit_63)

lemma signed_take_bit_63_high:
  fixes x :: int
  assumes "int64_max < x" and "x \<le> 18446744073709551616"
  shows "signed_take_bit 63 x = x - 18446744073709551616"
proof -
  have "(x + 9223372036854775808) mod 18446744073709551616
      = (x - 9223372036854775808 + 18446744073709551616) mod 18446744073709551616"
    by (simp add: algebra_simps)
  also have "\<dots> = (x - 9223372036854775808) mod 18446744073709551616"
    by (rule mod_add_self2)
  also have "\<dots> = x - 9223372036854775808"
    using assms by (intro mod_pos_pos_trivial) auto
  finally show ?thesis by (simp add: signed_take_bit_63)
qed

lemma signed_take_bit_63_low:
  fixes x :: int
  assumes "x < int64_min" and "- 18446744073709551616 \<le> x"
  shows "signed_take_bit 63 x = x + 18446744073709551616"
proof -
  have "(x + 9223372036854775808) mod 18446744073709551616
      = (x + 9223372036854775808 + 18446744073709551616) mod 18446744073709551616"
    by (rule mod_add_self2 [symmetric])
  also have "\<dots> = x + 9223372036854775808 + 18446744073709551616"
    using assms by (intro mod_pos_pos_trivial) auto
  finally show ?thesis by (simp add: signed_take_bit_63)
qed

lemmas signed_take_bit_63_cases =
  signed_take_bit_63_id signed_take_bit_63_high signed_take_bit_63_low

lemma sint_add_int64:
  fixes a b :: int64
  shows "sint (a + b) = (if int64_max < sint a + sint b then sint a + sint b - 18446744073709551616
      else if sint a + sint b < int64_min then sint a + sint b + 18446744073709551616
      else sint a + sint b)"
  using signed_take_bit_63_cases [of "sint a + sint b"]
    sint_int64_bounds [of a] sint_int64_bounds [of b]
  by (simp add: sint_word_add split: if_splits)

lemma sint_diff_int64:
  fixes a b :: int64
  shows "sint (a - b) = (if int64_max < sint a - sint b then sint a - sint b - 18446744073709551616
      else if sint a - sint b < int64_min then sint a - sint b + 18446744073709551616
      else sint a - sint b)"
  using signed_take_bit_63_cases [of "sint a - sint b"]
    sint_int64_bounds [of a] sint_int64_bounds [of b]
  by (simp add: sint_word_diff split: if_splits)

lemma sint_neg_int64:
  fixes a :: int64
  shows "sint (- a) = (if sint a = int64_min then int64_min else - sint a)"
proof (cases "sint a = int64_min")
  case True
  then show ?thesis
    using signed_take_bit_63_high [of "- sint a"] by (simp add: sint_word_minus)
next
  case False
  then have "- sint a \<le> int64_max"
    using sint_int64_bounds [of a] by linarith
  then show ?thesis
    using signed_take_bit_63_id [of "- sint a"] sint_int64_bounds [of a] False
    by (simp add: sint_word_minus)
qed

lemma sint_of_int_int64:
  "int64_min \<le> x \<Longrightarrow> x \<le> int64_max \<Longrightarrow> sint (word_of_int x :: int64) = x"
  using signed_take_bit_63_id [of x] by (simp add: sint_sbintrunc')

lemma int64_eq_iff: "(a :: int64) = b \<longleftrightarrow> sint a = sint b"
  by (auto intro: signed_word_eqI)

text \<open>
  The overflow test the repository writes in three packages,
  \<open>(b > 0 && sum < a) || (b < 0 && sum > a)\<close>, is exact.
\<close>

lemma add_overflow_test:
  fixes a b :: int64
  shows "((0 <s b \<and> a + b <s a) \<or> (b <s 0 \<and> a <s a + b)) \<longleftrightarrow>
     \<not> (int64_min \<le> sint a + sint b \<and> sint a + sint b \<le> int64_max)"
  using sint_int64_bounds [of a] sint_int64_bounds [of b]
  by (auto simp: int64_simps sint_add_int64)

lemma sint_add_exact:
  fixes a b c :: int64
  shows "int64_min \<le> sint a + sint b \<and> sint a + sint b \<le> int64_max \<and> c = a + b
     \<longleftrightarrow> sint c = sint a + sint b"
  using sint_int64_bounds [of c] by (auto simp: int64_eq_iff sint_add_int64)

lemma checked_add_test:
  fixes a b c :: int64
  shows "(if (0 <s b \<and> a + b <s a) \<or> (b <s 0 \<and> a <s a + b) then Inl e else Inr (a + b)) = Inr c
     \<longleftrightarrow> sint c = sint a + sint b"
  unfolding add_overflow_test sint_add_exact [symmetric] by auto

section \<open>Error returns\<close>

text \<open>
  A Go function that returns \<open>(T, error)\<close> is a sum: \<open>Inl\<close> the error, \<open>Inr\<close> the value.
  \<open>sum_bind\<close> is the idiom \<open>x, err := f(); if err != nil { return err }\<close>.
\<close>

definition sum_bind :: "'e + 'a \<Rightarrow> ('a \<Rightarrow> 'e + 'b) \<Rightarrow> 'e + 'b" where
  "sum_bind m f = (case m of Inl e \<Rightarrow> Inl e | Inr x \<Rightarrow> f x)"

lemma sum_bind_simps [simp]:
  "sum_bind (Inl e) f = Inl e" "sum_bind (Inr x) f = f x"
  by (simp_all add: sum_bind_def)

lemma sum_bind_Inr_iff: "sum_bind m f = Inr y \<longleftrightarrow> (\<exists>x. m = Inr x \<and> f x = Inr y)"
  by (cases m) auto

lemma sum_bind_Inl_iff: "sum_bind m f = Inl e \<longleftrightarrow> m = Inl e \<or> (\<exists>x. m = Inr x \<and> f x = Inl e)"
  by (cases m) auto

lemma sum_bind_InrE [elim!]:
  assumes "sum_bind m f = Inr y"
  obtains x where "m = Inr x" and "f x = Inr y"
  using assms by (auto simp: sum_bind_Inr_iff)

lemma sum_bind_assoc: "sum_bind (sum_bind m f) g = sum_bind m (\<lambda>x. sum_bind (f x) g)"
  by (cases m) auto

text \<open>A guard \<open>if cond { return err }\<close>.\<close>

definition guard_err :: "bool \<Rightarrow> 'e \<Rightarrow> 'e + unit" where
  "guard_err c e = (if c then Inl e else Inr ())"

lemma guard_err_simps [simp]:
  "guard_err c e = Inr u \<longleftrightarrow> \<not> c" "guard_err c e = Inl e' \<longleftrightarrow> c \<and> e' = e"
  by (auto simp: guard_err_def)

text \<open>A loop over a slice that stops at the first error and threads an accumulator.\<close>

fun fold_err :: "('a \<Rightarrow> 's \<Rightarrow> 'e + 's) \<Rightarrow> 'a list \<Rightarrow> 's \<Rightarrow> 'e + 's" where
  "fold_err f [] s = Inr s"
| "fold_err f (x # xs) s = sum_bind (f x s) (fold_err f xs)"

lemma fold_err_append:
  "fold_err f (xs @ ys) s = sum_bind (fold_err f xs s) (fold_err f ys)"
proof (induction xs arbitrary: s)
  case (Cons x xs)
  then show ?case by (cases "f x s") auto
qed simp

lemma fold_err_invariant:
  assumes "fold_err f xs s = Inr s'" and "P s"
    and "\<And>x s s'. x \<in> set xs \<Longrightarrow> P s \<Longrightarrow> f x s = Inr s' \<Longrightarrow> P s'"
  shows "P s'"
  using assms by (induction xs arbitrary: s) auto

text \<open>A loop over a slice that appends one result per element.\<close>

fun map_err :: "('a \<Rightarrow> 'e + 'b) \<Rightarrow> 'a list \<Rightarrow> 'e + 'b list" where
  "map_err f [] = Inr []"
| "map_err f (x # xs) = sum_bind (f x) (\<lambda>y. sum_bind (map_err f xs) (\<lambda>ys. Inr (y # ys)))"

lemma map_err_Inr_iff: "map_err f xs = Inr ys \<longleftrightarrow> list_all2 (\<lambda>x y. f x = Inr y) xs ys"
  by (induction xs arbitrary: ys) (auto simp: sum_bind_Inr_iff list_all2_Cons1)

section \<open>Relational tables\<close>

text \<open>
  A table is the list of its rows in insertion order. A statement is a definition over
  that list: \<open>SELECT ... WHERE\<close> a \<open>filter\<close>, a \<open>:one\<close> query the first matching row, and
  \<open>UPDATE ... WHERE\<close> a map over the rows.
\<close>

definition select_one :: "('r \<Rightarrow> bool) \<Rightarrow> 'r list \<Rightarrow> 'r option" where
  "select_one P t = List.find P t"

definition update_where :: "('r \<Rightarrow> bool) \<Rightarrow> ('r \<Rightarrow> 'r) \<Rightarrow> 'r list \<Rightarrow> 'r list" where
  "update_where P f t = map (\<lambda>r. if P r then f r else r) t"

text \<open>\<open>LIMIT n\<close> of a 32-bit parameter; the repository only passes positive limits.\<close>

definition limit_rows :: "int32 \<Rightarrow> 'r list \<Rightarrow> 'r list" where
  "limit_rows n t = take (nat (sint n)) t"

lemma select_one_Some: "select_one P t = Some r \<Longrightarrow> r \<in> set t \<and> P r"
  by (auto simp: select_one_def find_Some_iff)

lemma select_one_None: "select_one P t = None \<longleftrightarrow> (\<forall>r \<in> set t. \<not> P r)"
  by (auto simp: select_one_def find_None_iff)

lemma select_one_append:
  "select_one P (t @ u) = (case select_one P t of None \<Rightarrow> select_one P u | Some r \<Rightarrow> Some r)"
  by (induction t) (auto simp: select_one_def)

lemma select_one_single: "select_one P [r] = (if P r then Some r else None)"
  by (simp add: select_one_def)

lemma update_where_append [simp]:
  "update_where P f (t @ u) = update_where P f t @ update_where P f u"
  by (simp add: update_where_def)

lemma update_where_Cons [simp]:
  "update_where P f (r # t) = (if P r then f r else r) # update_where P f t"
  by (simp add: update_where_def)

lemma update_where_Nil [simp]: "update_where P f [] = []"
  by (simp add: update_where_def)

lemma set_update_where: "set (update_where P f t) = (\<lambda>r. if P r then f r else r) ` set t"
  by (simp add: update_where_def)

lemma update_where_none: "\<forall>r \<in> set t. \<not> P r \<Longrightarrow> update_where P f t = t"
  by (induction t) auto

lemma map_update_where: "(\<And>r. g (f r) = g r) \<Longrightarrow> map g (update_where P f t) = map g t"
  by (simp add: update_where_def)

lemma filter_key_single: "distinct (map f xs) \<Longrightarrow> x \<in> set xs \<Longrightarrow> filter (\<lambda>y. f y = f x) xs = [x]"
proof (induction xs)
  case (Cons y ys)
  show ?case
  proof (cases "x = y")
    case True
    then have "\<And>z. z \<in> set ys \<Longrightarrow> f z \<noteq> f x" using Cons.prems(1) by (metis distinct.simps(2) image_eqI list.set_map list.simps(9))
    then show ?thesis using True by (simp add: filter_empty_conv)
  next
    case False
    then have "x \<in> set ys" "f y \<noteq> f x" using Cons.prems by auto
    then show ?thesis using Cons by simp
  qed
qed simp

text \<open>
  The interface of a table with a primary key, over the operations its clients call: the
  lookup by key, the keyed update and the insertion. The laws are those a relational
  engine gives; the lemmas are what every component proof uses.
\<close>

locale keyed_table =
  fixes key :: "'r \<Rightarrow> 'k"
    and lookup :: "'k \<Rightarrow> 'r list \<Rightarrow> 'r option"
    and update :: "'k \<Rightarrow> ('r \<Rightarrow> 'r) \<Rightarrow> 'r list \<Rightarrow> 'r list"
  assumes lookup_eq: "lookup k t = select_one (\<lambda>r. key r = k) t"
    and update_eq: "update k f t = update_where (\<lambda>r. key r = k) f t"
begin

lemma lookup_Some: "lookup k t = Some r \<Longrightarrow> r \<in> set t \<and> key r = k"
  by (auto simp: lookup_eq dest: select_one_Some)

lemma lookup_None: "lookup k t = None \<longleftrightarrow> k \<notin> key ` set t"
  by (auto simp: lookup_eq select_one_None)

lemma lookup_unique:
  assumes "distinct (map key t)" and "r \<in> set t"
  shows "lookup (key r) t = Some r"
  using assms by (induction t) (auto simp: lookup_eq select_one_def rev_image_eqI)

lemma keys_update: "(\<And>r. key (f r) = key r) \<Longrightarrow> map key (update k f t) = map key t"
  by (simp add: update_eq update_where_def)

lemma lookup_update:
  assumes "\<And>r. key (f r) = key r"
  shows "lookup k' (update k f t) = (if k' = k then map_option f (lookup k t) else lookup k' t)"
  using assms by (induction t) (auto simp: lookup_eq update_eq select_one_def)

lemma lookup_append:
  "lookup k (t @ [r]) = (case lookup k t of None \<Rightarrow> if key r = k then Some r else None | Some x \<Rightarrow> Some x)"
  unfolding lookup_eq select_one_append by (simp add: select_one_def split: option.splits)

lemma sum_update:
  fixes g :: "'r \<Rightarrow> int"
  assumes "distinct (map key t)" and "lookup k t = Some r"
  shows "sum_list (map g (update k f t)) = sum_list (map g t) - g r + g (f r)"
proof -
  have "update k f u = u" if "k \<notin> key ` set u" for u
    using that by (auto simp: update_eq intro: update_where_none)
  then show ?thesis
    using assms by (induction t) (auto simp: lookup_eq update_eq select_one_def split: if_splits)
qed

lemma update_absent: "lookup k t = None \<Longrightarrow> update k f t = t"
  by (auto simp: lookup_None update_eq intro: update_where_none)

end

text \<open>A sum over a table, grouped by a key whose values are all listed.\<close>

lemma sum_list_indicator:
  fixes v :: int
  shows "distinct ks \<Longrightarrow> a \<in> set ks \<Longrightarrow> (\<Sum>k\<leftarrow>ks. if a = k then v else 0) = v"
proof (induction ks)
  case (Cons k ks)
  have "(\<Sum>k\<leftarrow>ks. if a = k then v else 0) = 0" if "a \<notin> set ks" using that by (induction ks) auto
  then show ?case using Cons by auto
qed simp

lemma sum_list_group:
  fixes f :: "'r \<Rightarrow> int"
  assumes "distinct ks" and "\<forall>x \<in> set xs. key x \<in> set ks"
  shows "(\<Sum>x\<leftarrow>xs. f x) = (\<Sum>k\<leftarrow>ks. \<Sum>x\<leftarrow>filter (\<lambda>x. key x = k) xs. f x)"
  using assms(2)
proof (induction xs)
  case (Cons x xs)
  have "(\<Sum>k\<leftarrow>ks. \<Sum>y\<leftarrow>filter (\<lambda>y. key y = k) (x # xs). f y)
      = (\<Sum>k\<leftarrow>ks. (if key x = k then f x else 0) + (\<Sum>y\<leftarrow>filter (\<lambda>y. key y = k) xs. f y))"
    by (rule arg_cong [where f = sum_list], rule map_cong) auto
  also have "\<dots> = f x + (\<Sum>k\<leftarrow>ks. \<Sum>y\<leftarrow>filter (\<lambda>y. key y = k) xs. f y)"
    using Cons.prems sum_list_indicator [OF assms(1)] by (simp add: sum_list_addf)
  finally show ?case using Cons by simp
qed simp

section \<open>Go maps and accumulation\<close>

text \<open>
  A Go map built up in a function body is an association list without duplicate keys;
  reading a missing key gives the zero value.
\<close>

definition go_get :: "('k \<times> int64) list \<Rightarrow> 'k \<Rightarrow> int64" where
  "go_get m k = (case map_of m k of None \<Rightarrow> 0 | Some v \<Rightarrow> v)"

lemma go_get_Nil [simp]: "go_get [] k = 0"
  by (simp add: go_get_def)

lemma go_get_update [simp]: "go_get (AList.update k v m) k' = (if k' = k then v else go_get m k')"
  by (simp add: go_get_def update_conv)

lemma keys_AList_update [simp]: "fst ` set (AList.update k v m) = insert k (fst ` set m)"
  using dom_update [of k v m] by (simp add: dom_map_of_conv_image_fst)

text \<open>
  The interface of an overflow-checked addition: it succeeds exactly when the integer sum
  is representable, and then returns it. What a client relies on is that summing into a
  map, key by key, is exact whenever no addition fails.
\<close>

locale checked_add =
  fixes add :: "int64 \<Rightarrow> int64 \<Rightarrow> 'e + int64"
  assumes add_Inr: "add a b = Inr c \<longleftrightarrow> sint c = sint a + sint b"
begin

lemma accumulate_exact:
  assumes "fold_err (\<lambda>x m. sum_bind (add (go_get m (k x)) (v x)) (\<lambda>s. Inr (AList.update (k x) s m))) xs m = Inr m'"
  shows "sint (go_get m' c) = sint (go_get m c) + (\<Sum>x\<leftarrow>xs. if k x = c then sint (v x) else 0)"
  using assms by (induction xs arbitrary: m) (auto simp: add_Inr)

lemma add_defined: "(\<exists>c. add a b = Inr c) \<longleftrightarrow> int64_min \<le> sint a + sint b \<and> sint a + sint b \<le> int64_max"
  using sint_of_int_int64 [of "sint a + sint b"] sint_int64_bounds by (auto simp: add_Inr) metis+

lemma accumulate_defined:
  "(\<exists>m'. fold_err (\<lambda>x m. sum_bind (add (go_get m (k x)) (v x)) (\<lambda>s. Inr (AList.update (k x) s m))) xs m = Inr m') \<longleftrightarrow>
    (\<forall>n c. int64_min \<le> sint (go_get m c) + (\<Sum>x\<leftarrow>take n xs. if k x = c then sint (v x) else 0)
       \<and> sint (go_get m c) + (\<Sum>x\<leftarrow>take n xs. if k x = c then sint (v x) else 0) \<le> int64_max)"
  (is "?L xs m \<longleftrightarrow> (\<forall>n c. ?R xs m n c)")
proof (induction xs arbitrary: m)
  case Nil
  show ?case using sint_int64_bounds by simp
next
  case (Cons x xs)
  have one: "?R (x # xs) m 1 (k x) \<longleftrightarrow> (\<exists>s. add (go_get m (k x)) (v x) = Inr s)"
    by (simp add: add_defined)
  have step: "?R (x # xs) m (Suc n) c \<longleftrightarrow> ?R xs (AList.update (k x) s m) n c"
    if "add (go_get m (k x)) (v x) = Inr s" for s n c
    using that by (auto simp: add_Inr algebra_simps)
  have zero: "?R (x # xs) m 0 c" for c using sint_int64_bounds by simp
  have "?L (x # xs) m \<longleftrightarrow> (\<exists>s. add (go_get m (k x)) (v x) = Inr s \<and> ?L xs (AList.update (k x) s m))"
    by (auto simp: sum_bind_Inr_iff)
  also have "\<dots> \<longleftrightarrow> (\<forall>n c. ?R (x # xs) m n c)"
  proof
    assume "\<exists>s. add (go_get m (k x)) (v x) = Inr s \<and> ?L xs (AList.update (k x) s m)"
    then obtain s where s: "add (go_get m (k x)) (v x) = Inr s" and "\<forall>n c. ?R xs (AList.update (k x) s m) n c"
      using Cons.IH by blast
    then have suc: "?R (x # xs) m (Suc n) c" for n c using step [OF s] by blast
    show "\<forall>n c. ?R (x # xs) m n c"
    proof (intro allI)
      fix n c
      show "?R (x # xs) m n c" by (rule nat.exhaust [of n]) (use zero suc in \<open>blast+\<close>)
    qed
  next
    assume all: "\<forall>n c. ?R (x # xs) m n c"
    then obtain s where s: "add (go_get m (k x)) (v x) = Inr s" using one by blast
    then show "\<exists>s. add (go_get m (k x)) (v x) = Inr s \<and> ?L xs (AList.update (k x) s m)"
      using all step [OF s] Cons.IH by blast
  qed
  finally show ?case .
qed

lemma accumulate_keys:
  assumes "fold_err (\<lambda>x m. sum_bind (add (go_get m (k x)) (v x)) (\<lambda>s. Inr (AList.update (k x) s m))) xs m = Inr m'"
  shows "fst ` set m' = fst ` set m \<union> k ` set xs"
  using assms
proof (induction xs arbitrary: m)
  case (Cons x xs)
  then obtain s where "fst ` set m' = fst ` set (AList.update (k x) s m) \<union> k ` set xs"
    by auto
  then show ?case by (simp only: keys_AList_update) simp
qed simp

lemma accumulate_distinct:
  assumes "fold_err (\<lambda>x m. sum_bind (add (go_get m (k x)) (v x)) (\<lambda>s. Inr (AList.update (k x) s m))) xs m = Inr m'"
    and "distinct (map fst m)"
  shows "distinct (map fst m')"
  using assms by (induction xs arbitrary: m) (auto simp: distinct_update)

end

end
