(* ===== verification/Go_Errors.thy ===== *)
theory Go_Errors
  imports Prelude
begin

text \<open>
  Go error values and gRPC statuses, as far as the repository inspects them:
  \<open>errors.Is\<close>, \<open>errors.As\<close> on \<open>*apperr.Error\<close>, \<open>status.FromError\<close> and \<open>status.Code\<close>.
  The type parameter is the set of sentinel values (\<open>errors.New\<close> variables) of the
  package in question.
\<close>

datatype grpc_code =
    OK | Canceled | Unknown | InvalidArgument | DeadlineExceeded | NotFound | AlreadyExists
  | PermissionDenied | ResourceExhausted | FailedPrecondition | Aborted | OutOfRange
  | Unimplemented | Internal | Unavailable | DataLoss | Unauthenticated

text \<open>A status detail: an \<open>errdetails.ErrorInfo\<close>, or a detail of another type.\<close>

datatype status_detail = ErrorInfo (info_Reason: string) (info_Domain: string) | OtherDetail

record grpc_status =
  st_Code :: grpc_code
  st_Message :: string
  st_Details :: "status_detail list"

datatype 'e goerr =
    Sentinel 'e                                   \<comment> \<open>a package-level \<open>errors.New\<close> variable\<close>
  | Opaque string                                 \<comment> \<open>an error nothing in the code tests for\<close>
  | Wrapped string "'e goerr"                     \<comment> \<open>\<open>fmt.Errorf\<close> with \<open>%w\<close>: its text and cause\<close>
  | AppErr string string "'e goerr option"        \<comment> \<open>\<open>*apperr.Error\<close>: code, message, cause\<close>
  | StatusErr grpc_status                         \<comment> \<open>a gRPC status error\<close>
  | CtxDeadlineExceeded                           \<comment> \<open>\<open>context.DeadlineExceeded\<close>\<close>

text \<open>\<open>errors.Is\<close>: the target occurs in the chain of causes.\<close>

fun errors_Is :: "'e goerr \<Rightarrow> 'e \<Rightarrow> bool" where
  "errors_Is (Sentinel s) x = (s = x)"
| "errors_Is (Wrapped _ c) x = errors_Is c x"
| "errors_Is (AppErr _ _ (Some c)) x = errors_Is c x"
| "errors_Is _ x = False"

fun errors_Is_deadline :: "'e goerr \<Rightarrow> bool" where
  "errors_Is_deadline CtxDeadlineExceeded = True"
| "errors_Is_deadline (Wrapped _ c) = errors_Is_deadline c"
| "errors_Is_deadline (AppErr _ _ (Some c)) = errors_Is_deadline c"
| "errors_Is_deadline _ = False"

text \<open>\<open>errors.As(err, &ae)\<close> with \<open>ae *apperr.Error\<close>: the first application error of the chain.\<close>

fun errors_As_app :: "'e goerr \<Rightarrow> (string \<times> string) option" where
  "errors_As_app (AppErr c m _) = Some (c, m)"
| "errors_As_app (Wrapped _ c) = errors_As_app c"
| "errors_As_app _ = None"

text \<open>
  \<open>status.FromError\<close> on a non-nil error: a status error (also under \<open>%w\<close>) gives its
  status. An \<open>*apperr.Error\<close> is searched through \<open>Unwrap\<close> as well.
\<close>

fun status_FromError :: "'e goerr \<Rightarrow> grpc_status option" where
  "status_FromError (StatusErr st) = Some st"
| "status_FromError (Wrapped _ c) = status_FromError c"
| "status_FromError (AppErr _ _ (Some c)) = status_FromError c"
| "status_FromError _ = None"

text \<open>\<open>status.Code(err)\<close>: \<open>Unknown\<close> for an error that carries no status.\<close>

definition status_Code :: "'e goerr \<Rightarrow> grpc_code" where
  "status_Code e = (case status_FromError e of Some st \<Rightarrow> st_Code st | None \<Rightarrow> Unknown)"

end
