(* ===== verification/Go_Text.thy ===== *)
theory Go_Text
  imports Prelude
begin

text \<open>
  The text functions of Go's standard library that the repository relies on: decimal
  formatting (\<open>fmt\<close> verbs \<open>%d\<close> and \<open>%0wd\<close>, \<open>strconv.FormatInt\<close>), \<open>strconv.ParseInt\<close>,
  \<open>strings.SplitN\<close> at one separator byte, and unpadded URL-safe base64. The lemmas are the
  round trips on which the page cursors and the rendered rates rest.
\<close>

section \<open>Decimal text\<close>

definition digit_char :: "nat \<Rightarrow> char" where
  "digit_char d = char_of (48 + d)"

definition digit_val :: "char \<Rightarrow> nat" where
  "digit_val c = of_char c - 48"

definition is_digit :: "char \<Rightarrow> bool" where
  "is_digit c \<longleftrightarrow> 48 \<le> (of_char c :: nat) \<and> (of_char c :: nat) \<le> 57"

fun dec_digits :: "nat \<Rightarrow> string" where
  "dec_digits n = (if n < 10 then [digit_char n] else dec_digits (n div 10) @ [digit_char (n mod 10)])"

declare dec_digits.simps [simp del]

definition dec_val :: "string \<Rightarrow> nat" where
  "dec_val s = foldl (\<lambda>a c. 10 * a + digit_val c) 0 s"

text \<open>\<open>%d\<close> and \<open>%0wd\<close>: the sign counts towards the width and precedes the padding.\<close>

definition fmt_d :: "int \<Rightarrow> string" where
  "fmt_d x = (if x < 0 then ''-'' @ dec_digits (nat (- x)) else dec_digits (nat x))"

definition fmt_0d :: "nat \<Rightarrow> int \<Rightarrow> string" where
  "fmt_0d w x = (let sgn = (if x < 0 then ''-'' else ''''); ds = dec_digits (nat \<bar>x\<bar>)
     in sgn @ replicate (w - length sgn - length ds) CHR ''0'' @ ds)"

lemma of_char_digit_char [simp]: "d < 10 \<Longrightarrow> of_char (digit_char d) = 48 + d"
  by (simp add: digit_char_def)

lemma digit_char_simps [simp]:
  "d < 10 \<Longrightarrow> digit_val (digit_char d) = d" "d < 10 \<Longrightarrow> is_digit (digit_char d)"
  by (simp_all add: digit_val_def is_digit_def)

lemma digit_val_less: "is_digit c \<Longrightarrow> digit_val c < 10"
  by (auto simp: is_digit_def digit_val_def)

lemma digit_val_inj: "is_digit c \<Longrightarrow> is_digit d \<Longrightarrow> digit_val c = digit_val d \<Longrightarrow> c = d"
  by (auto simp: is_digit_def digit_val_def) (metis Nat.eq_diff_iff of_char_eq_iff)

lemma dec_val_Nil [simp]: "dec_val [] = 0"
  by (simp add: dec_val_def)

lemma dec_val_snoc [simp]: "dec_val (s @ [c]) = 10 * dec_val s + digit_val c"
  by (simp add: dec_val_def)

lemma dec_val_append: "dec_val (s @ t) = dec_val s * 10 ^ length t + dec_val t"
proof (induction t rule: rev_induct)
  case (snoc c t)
  have "dec_val (s @ t @ [c]) = 10 * dec_val (s @ t) + digit_val c"
    by (metis append_assoc dec_val_snoc)
  with snoc show ?case by simp
qed simp

lemma dec_digits_props:
  "dec_val (dec_digits n) = n \<and> dec_digits n \<noteq> [] \<and> list_all is_digit (dec_digits n)"
proof (induction n rule: dec_digits.induct)
  case (1 n)
  show ?case
  proof (cases "n < 10")
    case True
    then show ?thesis
      using dec_val_snoc [of "[]" "digit_char n"] by (simp add: dec_digits.simps [of n])
  next
    case False
    then show ?thesis using 1 by (simp add: dec_digits.simps [of n])
  qed
qed

lemma dec_val_replicate_0: "dec_val (replicate k CHR ''0'' @ s) = dec_val s"
proof -
  have "dec_val (replicate k CHR ''0'') = 0"
  proof (induction k)
    case (Suc k)
    then show ?case
      using dec_val_snoc [of "replicate k CHR ''0''" "CHR ''0''"]
      by (simp add: replicate_append_same digit_val_def)
  qed simp
  then show ?thesis by (simp add: dec_val_append)
qed

lemma length_dec_digits: "n < 10 ^ w \<Longrightarrow> 0 < w \<Longrightarrow> length (dec_digits n) \<le> w"
proof (induction w arbitrary: n)
  case (Suc w)
  show ?case
  proof (cases "n < 10 \<or> w = 0")
    case True
    with Suc.prems show ?thesis by (auto simp: dec_digits.simps [of n])
  next
    case False
    with Suc.prems have "n div 10 < 10 ^ w" by (simp add: div_less_iff_less_mult mult.commute)
    with Suc.IH [of "n div 10"] False show ?thesis by (simp add: dec_digits.simps [of n])
  qed
qed simp

lemma fmt_0d_props:
  assumes "0 \<le> x" and "x < 10 ^ w" and "0 < w"
  shows "length (fmt_0d w x) = w" and "dec_val (fmt_0d w x) = nat x" and "list_all is_digit (fmt_0d w x)"
proof -
  have "nat x < 10 ^ w"
    using assms by (metis nat_less_iff of_nat_numeral of_nat_power)
  then have "length (dec_digits (nat x)) \<le> w"
    using assms(3) by (rule length_dec_digits)
  then show "length (fmt_0d w x) = w" "dec_val (fmt_0d w x) = nat x" "list_all is_digit (fmt_0d w x)"
    using assms(1) dec_digits_props [of "nat x"]
    by (auto simp: fmt_0d_def Let_def dec_val_replicate_0 list_all_iff is_digit_def)
qed

section \<open>strconv\<close>

datatype parse_error = ErrSyntax | ErrRange

definition FormatInt :: "int \<Rightarrow> string" where
  "FormatInt x = fmt_d x"

text \<open>\<open>ParseInt(s, 10, 64)\<close>: an optional sign, then at least one digit, then the range check.\<close>

definition ParseInt :: "string \<Rightarrow> parse_error + int" where
  "ParseInt s =
    (let (neg, ds) = (case s of [] \<Rightarrow> (False, [])
        | c # cs \<Rightarrow> if c = CHR ''-'' then (True, cs) else if c = CHR ''+'' then (False, cs) else (False, s))
     in if ds = [] \<or> \<not> list_all is_digit ds then Inl ErrSyntax
        else let x = (if neg then - int (dec_val ds) else int (dec_val ds))
             in if int64_min \<le> x \<and> x \<le> int64_max then Inr x else Inl ErrRange)"

lemma is_digit_not_sign: "is_digit c \<Longrightarrow> c \<noteq> CHR ''-'' \<and> c \<noteq> CHR ''+'' \<and> c \<noteq> CHR ''|''"
  by (auto simp: is_digit_def)

lemma ParseInt_FormatInt:
  assumes "int64_min \<le> x" and "x \<le> int64_max"
  shows "ParseInt (FormatInt x) = Inr x"
proof (cases "x < 0")
  case True
  then show ?thesis
    using assms dec_digits_props [of "nat (- x)"] by (simp add: FormatInt_def fmt_d_def ParseInt_def)
next
  case False
  obtain c cs where eq: "dec_digits (nat x) = c # cs"
    using dec_digits_props [of "nat x"] by (cases "dec_digits (nat x)") auto
  then have "is_digit c"
    using dec_digits_props [of "nat x"] by simp
  then show ?thesis
    using assms False eq dec_digits_props [of "nat x"] is_digit_not_sign [of c]
    by (simp add: FormatInt_def fmt_d_def ParseInt_def)
qed

text \<open>\<open>strings.SplitN(s, "|", 2)\<close>: the text before and after the first separator, if there is one.\<close>

fun SplitN2 :: "char \<Rightarrow> string \<Rightarrow> string list" where
  "SplitN2 sep [] = [[]]"
| "SplitN2 sep (c # cs) = (if c = sep then [[], cs] else
     (case SplitN2 sep cs of [] \<Rightarrow> [] | p # ps \<Rightarrow> (c # p) # ps))"

lemma SplitN2_append: "sep \<notin> set p \<Longrightarrow> SplitN2 sep (p @ sep # q) = [p, q]"
  by (induction p) auto

lemma FormatInt_no_bar: "CHR ''|'' \<notin> set (FormatInt x)"
  using dec_digits_props [of "nat x"] dec_digits_props [of "nat (- x)"] is_digit_not_sign
  by (auto simp: FormatInt_def fmt_d_def list_all_iff)

section \<open>base64.RawURLEncoding\<close>

definition b64_alphabet :: string where
  "b64_alphabet = ''ABCDEFGHIJKLMNOPQRSTUVWXYZabcdefghijklmnopqrstuvwxyz0123456789-_''"

definition b64_char :: "nat \<Rightarrow> char" where
  "b64_char n = b64_alphabet ! n"

definition b64_val :: "char \<Rightarrow> nat option" where
  "b64_val c = List.find (\<lambda>n. b64_alphabet ! n = c) [0..<64]"

abbreviation byte :: "char \<Rightarrow> nat" where "byte c \<equiv> of_char c"

text \<open>An ASCII capital letter as a small one.\<close>

definition lower_byte :: "char \<Rightarrow> char" where
  "lower_byte c = (if 65 \<le> byte c \<and> byte c \<le> 90 then char_of (byte c + 32) else c)"

fun EncodeToString :: "string \<Rightarrow> string" where
  "EncodeToString [] = []"
| "EncodeToString [a] =
    (let v = byte a * 65536 in [b64_char (v div 262144), b64_char (v div 4096 mod 64)])"
| "EncodeToString [a, b] =
    (let v = byte a * 65536 + byte b * 256
     in [b64_char (v div 262144), b64_char (v div 4096 mod 64), b64_char (v div 64 mod 64)])"
| "EncodeToString (a # b # c # s) =
    (let v = byte a * 65536 + byte b * 256 + byte c
     in b64_char (v div 262144) # b64_char (v div 4096 mod 64) # b64_char (v div 64 mod 64)
        # b64_char (v mod 64) # EncodeToString s)"

text \<open>
  Decoding drops line breaks, reads groups of four letters, and allows a last group of
  two or three; surplus bits of the last group are ignored (the encoding is not strict).
\<close>

fun b64_decode :: "nat list \<Rightarrow> string option" where
  "b64_decode [] = Some []"
| "b64_decode [x] = None"
| "b64_decode [x, y] = Some [char_of ((x * 64 + y) div 16)]"
| "b64_decode [x, y, z] =
    (let v = x * 4096 + y * 64 + z in Some [char_of (v div 1024), char_of (v div 4 mod 256)])"
| "b64_decode (x # y # z # w # s) =
    (let v = x * 262144 + y * 4096 + z * 64 + w
     in case b64_decode s of None \<Rightarrow> None
        | Some bs \<Rightarrow> Some (char_of (v div 65536) # char_of (v div 256 mod 256) # char_of (v mod 256) # bs))"

definition DecodeString :: "string \<Rightarrow> string option" where
  "DecodeString s = (let vs = map b64_val (filter (\<lambda>c. byte c \<noteq> 10 \<and> byte c \<noteq> 13) s)
     in if None \<in> set vs then None else b64_decode (map the vs))"

lemma b64_char_props:
  assumes "n < 64"
  shows "b64_val (b64_char n) = Some n" and "byte (b64_char n) \<noteq> 10" and "byte (b64_char n) \<noteq> 13"
proof -
  have "list_all (\<lambda>n. b64_val (b64_char n) = Some n \<and> byte (b64_char n) \<noteq> 10 \<and> byte (b64_char n) \<noteq> 13) [0..<64]"
    by code_simp
  then show "b64_val (b64_char n) = Some n" "byte (b64_char n) \<noteq> 10" "byte (b64_char n) \<noteq> 13"
    using assms by (auto simp: list_all_iff)
qed

fun b64_sextets :: "string \<Rightarrow> nat list" where
  "b64_sextets [] = []"
| "b64_sextets [a] = (let v = byte a * 65536 in [v div 262144, v div 4096 mod 64])"
| "b64_sextets [a, b] =
    (let v = byte a * 65536 + byte b * 256 in [v div 262144, v div 4096 mod 64, v div 64 mod 64])"
| "b64_sextets (a # b # c # s) =
    (let v = byte a * 65536 + byte b * 256 + byte c
     in v div 262144 # v div 4096 mod 64 # v div 64 mod 64 # v mod 64 # b64_sextets s)"

lemma EncodeToString_sextets: "EncodeToString s = map b64_char (b64_sextets s)"
  by (induction s rule: b64_sextets.induct) (simp_all add: Let_def)

lemma sextet_bound: "a < 256 \<Longrightarrow> b < 256 \<Longrightarrow> c < 256 \<Longrightarrow> (a * 65536 + b * 256 + c) div 262144 < (64 :: nat)"
  by (simp add: div_less_iff_less_mult)

lemma b64_sextets_less: "x \<in> set (b64_sextets s) \<Longrightarrow> x < 64"
proof (induction s rule: b64_sextets.induct)
  case (2 a) then show ?case using sextet_bound [of "byte a" 0 0] by (auto simp: Let_def)
next
  case (3 a b) then show ?case using sextet_bound [of "byte a" "byte b" 0] by (auto simp: Let_def)
next
  case (4 a b c s)
  then show ?case using sextet_bound [of "byte a" "byte b" "byte c"] by (auto simp: Let_def)
qed simp

lemma sextets_recombine:
  fixes v :: nat
  shows "v div 262144 * 4096 + v div 4096 mod 64 * 64 + v div 64 mod 64 = v div 64"
    and "v div 262144 * 262144 + v div 4096 mod 64 * 4096 + v div 64 mod 64 * 64 + v mod 64 = v"
proof -
  have eqs: "v div 4096 = v div 64 div 64" "v div 262144 = v div 64 div 64 div 64"
    by (simp_all flip: div_mult2_eq)
  show "v div 262144 * 4096 + v div 4096 mod 64 * 64 + v div 64 mod 64 = v div 64"
    unfolding eqs
    using div_mult_mod_eq [of "v div 64 div 64" 64] div_mult_mod_eq [of "v div 64" 64] by linarith
  show "v div 262144 * 262144 + v div 4096 mod 64 * 4096 + v div 64 mod 64 * 64 + v mod 64 = v"
    unfolding eqs
    using div_mult_mod_eq [of "v div 64 div 64" 64] div_mult_mod_eq [of "v div 64" 64]
      div_mult_mod_eq [of v 64] by linarith
qed

lemma bytes_of_triple:
  fixes a b c :: nat
  assumes "a < 256" and "b < 256" and "c < 256"
  shows "(a * 65536 + b * 256 + c) div 65536 = a"
    and "(a * 65536 + b * 256 + c) div 256 mod 256 = b"
    and "(a * 65536 + b * 256 + c) mod 256 = c"
proof -
  have "(b * 256 + c) div 65536 = 0" using assms by simp
  moreover have "(a * 65536 + (b * 256 + c)) div 65536 = a + (b * 256 + c) div 65536"
    by (rule div_mult_self3) simp
  ultimately show "(a * 65536 + b * 256 + c) div 65536 = a" by (simp add: add.assoc)
  have eq: "a * 65536 + b * 256 + c = (a * 256 + b) * 256 + c" by simp
  have "((a * 256 + b) * 256 + c) div 256 = a * 256 + b + c div 256"
    by (rule div_mult_self3) simp
  then have "(a * 65536 + b * 256 + c) div 256 = a * 256 + b"
    using assms(3) by (simp add: eq)
  then show "(a * 65536 + b * 256 + c) div 256 mod 256 = b" using assms(2) by simp
  show "(a * 65536 + b * 256 + c) mod 256 = c"
    using assms(3) mod_mult_self3 [of "a * 256 + b" 256 c] unfolding eq by simp
qed

lemma b64_decode_sextets: "b64_decode (b64_sextets s) = Some s"
proof (induction s rule: b64_sextets.induct)
  case (2 a)
  let ?v = "byte a * 65536"
  have "?v div 262144 * 64 + ?v div 4096 mod 64 = ?v div 4096"
    using div_mult_mod_eq [of "?v div 4096" 64] by (simp flip: div_mult2_eq)
  then show ?case by (simp add: Let_def)
next
  case (3 a b)
  let ?v = "byte a * 65536 + byte b * 256"
  have "?v div 64 div 1024 = ?v div 65536" "?v div 64 div 4 = ?v div 256"
    by (simp_all only: div_mult2_eq [symmetric]) simp_all
  then have "b64_decode (b64_sextets [a, b]) = Some [char_of (?v div 65536), char_of (?v div 256 mod 256)]"
    unfolding b64_sextets.simps b64_decode.simps Let_def sextets_recombine(1) by simp
  then show ?case using bytes_of_triple [of "byte a" "byte b" 0] by simp
next
  case (4 a b c s)
  let ?v = "byte a * 65536 + byte b * 256 + byte c"
  have "b64_decode (b64_sextets (a # b # c # s))
      = Some (char_of (?v div 65536) # char_of (?v div 256 mod 256) # char_of (?v mod 256) # s)"
    unfolding b64_sextets.simps b64_decode.simps Let_def sextets_recombine(2) using 4 by simp
  moreover have "?v div 65536 = byte a" "?v div 256 mod 256 = byte b" "?v mod 256 = byte c"
    using bytes_of_triple [of "byte a" "byte b" "byte c"] by simp_all
  ultimately show ?case by (simp only:) simp
qed simp

lemma DecodeString_EncodeToString: "DecodeString (EncodeToString s) = Some s"
proof -
  have small: "\<forall>x \<in> set (b64_sextets s). x < 64"
    using b64_sextets_less by blast
  then have keep: "filter (\<lambda>c. byte c \<noteq> 10 \<and> byte c \<noteq> 13) (EncodeToString s) = EncodeToString s"
    by (auto simp: EncodeToString_sextets b64_char_props filter_id_conv)
  have "map b64_val (EncodeToString s) = map Some (b64_sextets s)"
    using small by (simp add: EncodeToString_sextets b64_char_props)
  then show ?thesis
    using keep by (simp add: DecodeString_def Let_def b64_decode_sextets)
qed

section \<open>JSON text\<close>

text \<open>\<open>json.Marshal\<close> of a string: quotes, backslashes, control characters and \<open><\<close>, \<open>>\<close>, \<open>&\<close> are escaped.\<close>

definition hex_char :: "nat \<Rightarrow> char" where
  "hex_char n = (if n < 10 then char_of (48 + n) else char_of (87 + n))"

definition json_escape :: "char \<Rightarrow> string" where
  "json_escape c =
    (if c = CHR 0x22 \<or> c = CHR 0x5C then [CHR 0x5C, c]
     else if byte c = 8 then [CHR 0x5C, CHR ''b''] else if byte c = 9 then [CHR 0x5C, CHR ''t'']
     else if byte c = 10 then [CHR 0x5C, CHR ''n''] else if byte c = 12 then [CHR 0x5C, CHR ''f'']
     else if byte c = 13 then [CHR 0x5C, CHR ''r'']
     else if byte c < 32 \<or> c = CHR ''<'' \<or> c = CHR ''>'' \<or> c = CHR ''&''
       then [CHR 0x5C, CHR ''u'', CHR ''0'', CHR ''0'', hex_char (byte c div 16), hex_char (byte c mod 16)]
     else [c])"

definition json_string :: "string \<Rightarrow> string" where
  "json_string t = CHR 0x22 # concat (map json_escape t) @ [CHR 0x22]"

end
