(* ===== verification/Money.thy ===== *)
theory Money
  imports Go_Errors Go_Text "HOL-Library.Signed_Division"
begin

text \<open>
  \<open>src/pkg/money\<close>: integer minor-unit amounts with overflow-checked \<open>int64\<close> arithmetic
  (\<open>money.go\<close>) and exchange by a fixed-point rate with banker's rounding (\<open>fx.go\<close>).
  The lemmas show that the checked addition is exact or refuses, and that the rounding is
  the unique nearest integer with ties to even.
\<close>

section \<open>money.go\<close>

definition KZT :: string where "KZT = ''KZT''"
definition USD :: string where "USD = ''USD''"

datatype money_sentinel = ErrCurrencyMismatch | ErrUnknownCurrency | ErrOverflow | ErrInvalidAmount

type_synonym money_err = "money_sentinel goerr"

record Amount =
  Value :: int64
  Currency :: string

definition minInt64 :: int64 where "minInt64 = - 9223372036854775808"

definition ValidCurrency :: "string \<Rightarrow> bool" where
  "ValidCurrency c \<longleftrightarrow> c = KZT \<or> c = USD"

definition New :: "int64 \<Rightarrow> string \<Rightarrow> money_err + Amount" where
  "New v c = (if \<not> ValidCurrency c then Inl (Wrapped (''unknown currency: '' @ c) (Sentinel ErrUnknownCurrency))
     else Inr \<lparr>Value = v, Currency = c\<rparr>)"

definition AddInt64 :: "int64 \<Rightarrow> int64 \<Rightarrow> money_err + int64" where
  "AddInt64 a b = (let sum = a + b in
     if (0 <s b \<and> sum <s a) \<or> (b <s 0 \<and> a <s sum) then Inl (Sentinel ErrOverflow) else Inr sum)"

definition Add :: "Amount \<Rightarrow> Amount \<Rightarrow> money_err + Amount" where
  "Add a b = (if Currency a \<noteq> Currency b then Inl (Sentinel ErrCurrencyMismatch)
     else sum_bind (AddInt64 (Value a) (Value b)) (\<lambda>v. Inr \<lparr>Value = v, Currency = Currency a\<rparr>))"

definition Sub :: "Amount \<Rightarrow> Amount \<Rightarrow> money_err + Amount" where
  "Sub a b = (if Value b = minInt64 then Inl (Sentinel ErrOverflow)
     else Add a \<lparr>Value = - Value b, Currency = Currency b\<rparr>)"

definition Neg :: "Amount \<Rightarrow> money_err + Amount" where
  "Neg a = (if Value a = minInt64 then Inl (Sentinel ErrOverflow)
     else Inr \<lparr>Value = - Value a, Currency = Currency a\<rparr>)"

definition IsPositive :: "Amount \<Rightarrow> bool" where
  "IsPositive a \<longleftrightarrow> 0 <s Value a"

section \<open>fx.go\<close>

definition RateScale :: int64 where "RateScale = 1000000"

text \<open>
  \<open>big.Int\<close> is the unbounded integer; \<open>QuoRem\<close> truncates towards zero, which is
  \<open>sdiv\<close>/\<open>smod\<close>; \<open>q.Bit(0)\<close> of a two's complement reading is parity.
\<close>

definition halfEvenQuo :: "int \<Rightarrow> int \<Rightarrow> int" where
  "halfEvenQuo n d =
    (let q = n sdiv d; r = n smod d
     in if r \<noteq> 0 then
          let r2 = 2 * \<bar>r\<bar>;
              roundAway = (r2 > \<bar>d\<bar> \<or> (r2 = \<bar>d\<bar> \<and> odd q))
          in if roundAway then (if (n < 0) \<noteq> (d < 0) then q - 1 else q + 1) else q
        else q)"

definition mulDivHalfEven :: "int64 \<Rightarrow> int64 \<Rightarrow> int64 \<Rightarrow> money_err + int64" where
  "mulDivHalfEven v num den =
    (if den = 0 then Inl (Wrapped ''invalid amount: zero denominator'' (Sentinel ErrInvalidAmount))
     else
       let q = halfEvenQuo (sint v * sint num) (sint den)
       in if \<not> (int64_min \<le> q \<and> q \<le> int64_max) then Inl (Sentinel ErrOverflow)
          else Inr (word_of_int q))"

definition Convert :: "int64 \<Rightarrow> int64 \<Rightarrow> money_err + int64" where
  "Convert v rateMicros = mulDivHalfEven v rateMicros RateScale"

definition ConvertInverse :: "int64 \<Rightarrow> int64 \<Rightarrow> money_err + int64" where
  "ConvertInverse v rateMicros =
    (if rateMicros = 0 then Inl (Wrapped ''invalid amount: zero rate'' (Sentinel ErrInvalidAmount))
     else mulDivHalfEven v RateScale rateMicros)"

text \<open>
  \<open>FormatRate\<close>. Negating the least \<open>int64\<close> leaves it negative, and \<open>/\<close> and \<open>%\<close> on
  \<open>int64\<close> truncate towards zero.
\<close>

definition FormatRate :: "int64 \<Rightarrow> string" where
  "FormatRate rateMicros =
    (let neg = (if rateMicros <s 0 then ''-'' else '''');
         r = sint (if rateMicros <s 0 then - rateMicros else rateMicros)
     in neg @ fmt_d (r sdiv 1000000) @ ''.'' @ fmt_0d 6 (r smod 1000000))"

definition Amount_String :: "Amount \<Rightarrow> string" where
  "Amount_String a = fmt_d (sint (Value a)) @ '' '' @ Currency a"

section \<open>Checked addition\<close>

lemma AddInt64_spec:
  "AddInt64 a b = (if int64_min \<le> sint a + sint b \<and> sint a + sint b \<le> int64_max
      then Inr (a + b) else Inl (Sentinel ErrOverflow))"
  using add_overflow_test [of b a] by (auto simp: AddInt64_def Let_def)

interpretation money_add: checked_add AddInt64
  by unfold_locales (auto simp: AddInt64_spec sint_add_exact [symmetric])

lemma sint_minInt64 [simp]: "sint minInt64 = int64_min"
  by (simp add: minInt64_def)

lemma minInt64_iff: "a = minInt64 \<longleftrightarrow> sint a = int64_min"
  by (simp add: int64_eq_iff)

text \<open>
  Addition, subtraction and negation of amounts either return the exact integer
  result or report an error: \<open>Sub\<close> succeeds exactly when the currencies agree, the
  subtrahend is not the least \<open>int64\<close> and the difference is representable, and then its value is
  the difference of the values.
\<close>

lemma Sub_exact:
  "Sub a b = (if sint (Value b) = int64_min then Inl (Sentinel ErrOverflow)
    else if Currency a \<noteq> Currency b then Inl (Sentinel ErrCurrencyMismatch)
    else if int64_min \<le> sint (Value a) - sint (Value b) \<and> sint (Value a) - sint (Value b) \<le> int64_max
    then Inr \<lparr>Value = word_of_int (sint (Value a) - sint (Value b)), Currency = Currency a\<rparr>
    else Inl (Sentinel ErrOverflow))"
  by (simp add: Sub_def Add_def minInt64_iff AddInt64_spec sint_neg_int64)

section \<open>Banker's rounding\<close>

text \<open>The abstract specification: \<open>q\<close> is a nearest integer to \<open>n / d\<close>, even on a tie.\<close>

definition nearest_even :: "int \<Rightarrow> int \<Rightarrow> int \<Rightarrow> bool" where
  "nearest_even n d q \<longleftrightarrow> 2 * \<bar>n - q * d\<bar> \<le> \<bar>d\<bar> \<and> (2 * \<bar>n - q * d\<bar> = \<bar>d\<bar> \<longrightarrow> even q)"

lemma nearest_even_unique:
  assumes "d \<noteq> 0" and "nearest_even n d p" and "nearest_even n d q"
  shows "p = q"
proof (rule ccontr)
  assume "p \<noteq> q"
  have "(p - q) * d = (n - q * d) - (n - p * d)"
    by (simp add: algebra_simps)
  then have split: "\<bar>(p - q) * d\<bar> \<le> \<bar>n - p * d\<bar> + \<bar>n - q * d\<bar>"
    by linarith
  have mult: "\<bar>(p - q) * d\<bar> = \<bar>p - q\<bar> * \<bar>d\<bar>"
    by (rule abs_mult)
  have "\<bar>p - q\<bar> * \<bar>d\<bar> \<le> 1 * \<bar>d\<bar>"
    using split mult assms(2,3) by (simp add: nearest_even_def)
  then have one: "\<bar>p - q\<bar> = 1"
    using \<open>p \<noteq> q\<close> assms(1) by (simp add: mult_le_cancel_right)
  then have "2 * \<bar>n - p * d\<bar> = \<bar>d\<bar>" and "2 * \<bar>n - q * d\<bar> = \<bar>d\<bar>"
    using split mult assms(2,3) by (simp_all add: nearest_even_def)
  then have "even p" and "even q"
    using assms(2,3) by (auto simp: nearest_even_def)
  with one show False by presburger
qed

lemma smod_sign:
  fixes n d :: int
  assumes "d \<noteq> 0"
  shows "\<bar>n smod d\<bar> < \<bar>d\<bar>" and "0 \<le> n \<Longrightarrow> 0 \<le> n smod d" and "n \<le> 0 \<Longrightarrow> n smod d \<le> 0"
  using assms by (auto simp: smod_int_alt_def abs_mult sgn_if mult_le_0_iff)

lemma sdiv_nonneg: "0 \<le> a \<Longrightarrow> 0 < b \<Longrightarrow> (a :: int) sdiv b = a div b"
  by (cases "a = 0") (simp_all add: signed_divide_int_def)

lemma halfEvenQuo_nearest:
  assumes "d \<noteq> 0"
  shows "nearest_even n d (halfEvenQuo n d)"
proof -
  define q r where "q = n sdiv d" and "r = n smod d"
  have n: "n = q * d + r"
    using sdiv_mult_smod_eq [of n d] by (simp add: q_def r_def)
  have r: "\<bar>r\<bar> < \<bar>d\<bar>" "0 \<le> n \<Longrightarrow> 0 \<le> r" "n \<le> 0 \<Longrightarrow> r \<le> 0"
    using smod_sign [OF assms, of n] by (simp_all add: r_def)
  have up: "n - (q + 1) * d = r - d" and down: "n - (q - 1) * d = r + d" and stay: "n - q * d = r"
    using n by (simp_all add: algebra_simps)
  have "halfEvenQuo n d = (if r \<noteq> 0 \<and> (2 * \<bar>r\<bar> > \<bar>d\<bar> \<or> (2 * \<bar>r\<bar> = \<bar>d\<bar> \<and> odd q))
      then (if (n < 0) \<noteq> (d < 0) then q - 1 else q + 1) else q)"
    by (simp add: halfEvenQuo_def Let_def q_def r_def)
  moreover have "nearest_even n d (q - 1)" if "\<bar>d\<bar> \<le> 2 * \<bar>r\<bar>" "2 * \<bar>r\<bar> = \<bar>d\<bar> \<longrightarrow> odd q" "(n < 0) \<noteq> (d < 0)"
  proof -
    have "\<bar>r + d\<bar> = \<bar>d\<bar> - \<bar>r\<bar>" using that r assms by (cases "n < 0") linarith+
    then show ?thesis using that unfolding nearest_even_def down by auto
  qed
  moreover have "nearest_even n d (q + 1)" if "\<bar>d\<bar> \<le> 2 * \<bar>r\<bar>" "2 * \<bar>r\<bar> = \<bar>d\<bar> \<longrightarrow> odd q" "(n < 0) = (d < 0)"
  proof -
    have "\<bar>r - d\<bar> = \<bar>d\<bar> - \<bar>r\<bar>" using that r assms by (cases "n < 0") linarith+
    then show ?thesis using that unfolding nearest_even_def up by auto
  qed
  moreover have "nearest_even n d q" if "2 * \<bar>r\<bar> \<le> \<bar>d\<bar>" "2 * \<bar>r\<bar> = \<bar>d\<bar> \<longrightarrow> even q"
    using that unfolding nearest_even_def stay by auto
  ultimately show ?thesis using assms by (auto split: if_splits)
qed

lemma halfEvenQuo_eqI: "d \<noteq> 0 \<Longrightarrow> nearest_even n d q \<Longrightarrow> halfEvenQuo n d = q"
  using halfEvenQuo_nearest nearest_even_unique by blast

text \<open>
  C35. The exchange routine implements banker's rounding exactly: with a non-zero
  denominator it returns \<open>r\<close> if and only if \<open>r\<close> is the nearest integer to
  \<open>v * num / den\<close> with ties to even; in every other case (zero denominator, or a rounded
  quotient outside \<open>int64\<close>) it returns an error, never a wrapped amount.
\<close>

theorem mulDivHalfEven_correct:
  "mulDivHalfEven v num den = Inr r \<longleftrightarrow>
     den \<noteq> 0 \<and> nearest_even (sint v * sint num) (sint den) (sint r)"
proof (cases "den = 0")
  case False
  then have d: "sint den \<noteq> 0" by (simp add: int64_eq_iff)
  let ?q = "halfEvenQuo (sint v * sint num) (sint den)"
  have iff: "nearest_even (sint v * sint num) (sint den) (sint r) \<longleftrightarrow> sint r = ?q"
    using halfEvenQuo_eqI [OF d] halfEvenQuo_nearest [OF d] by auto
  show ?thesis
    unfolding iff using d sint_int64_bounds [of r] sint_of_int_int64 [of ?q]
    by (auto simp: mulDivHalfEven_def Let_def int64_eq_iff)
qed (simp add: mulDivHalfEven_def)

lemma nearest_even_nonneg: "0 \<le> n \<Longrightarrow> 0 < d \<Longrightarrow> nearest_even n d q \<Longrightarrow> 0 \<le> q"
proof (rule ccontr)
  assume "0 \<le> n" "0 < d" "nearest_even n d q" "\<not> 0 \<le> q"
  then have "q * d \<le> - 1 * d" by (intro mult_right_mono) auto
  with \<open>0 \<le> n\<close> \<open>0 < d\<close> \<open>nearest_even n d q\<close> show False
    by (simp add: nearest_even_def)
qed

section \<open>Rendered rates\<close>

text \<open>A reader of the rendered rate: the digits before and after the point.\<close>

definition parse_rate :: "string \<Rightarrow> nat" where
  "parse_rate s = dec_val (takeWhile (\<lambda>c. c \<noteq> CHR ''.'') s) * 1000000
     + dec_val (tl (dropWhile (\<lambda>c. c \<noteq> CHR ''.'') s))"

lemma is_digit_not_point: "is_digit c \<Longrightarrow> c \<noteq> CHR ''.''"
  by (auto simp: is_digit_def)

text \<open>
  A rendered non-negative rate loses nothing: it has exactly six digits after the
  point and reading it back gives the stored micro-rate.
\<close>

theorem FormatRate_roundtrip:
  assumes "0 \<le>s rate"
  shows "parse_rate (FormatRate rate) = nat (sint rate)
    \<and> length (tl (dropWhile (\<lambda>c. c \<noteq> CHR ''.'') (FormatRate rate))) = 6"
proof -
  let ?r = "sint rate"
  have r: "0 \<le> ?r" using assms by (simp add: word_sle_eq)
  have "list_all is_digit (dec_digits (nat (?r div 1000000)))"
    using dec_digits_props by blast
  then have whole: "\<forall>c \<in> set (dec_digits (nat (?r div 1000000))). c \<noteq> CHR ''.''"
    using is_digit_not_point by (auto simp: list_all_iff)
  have fmt: "FormatRate rate = dec_digits (nat (?r div 1000000)) @ CHR ''.'' # fmt_0d 6 (?r mod 1000000)"
    using r by (simp add: FormatRate_def Let_def word_sless_alt fmt_d_def smod_mod_positive
        sdiv_nonneg pos_imp_zdiv_neg_iff)
  have frac: "length (fmt_0d 6 (?r mod 1000000)) = 6" "dec_val (fmt_0d 6 (?r mod 1000000)) = nat (?r mod 1000000)"
    using fmt_0d_props [of "?r mod 1000000" 6] by simp_all
  have "nat (?r div 1000000) * 1000000 + nat (?r mod 1000000) = nat ?r"
    using r by (simp add: nat_div_distrib nat_mod_distrib)
  then show ?thesis
    using fmt whole frac dec_digits_props [of "nat (?r div 1000000)"]
    by (simp add: parse_rate_def takeWhile_append2 dropWhile_append2)
qed

theorem FormatRate_roundtrip_witness:
  "(0 :: int64) \<le>s 478250000 \<and> parse_rate (FormatRate 478250000) = 478250000
    \<and> length (tl (dropWhile (\<lambda>c. c \<noteq> CHR ''.'') (FormatRate 478250000))) = 6"
proof -
  have h: "(0 :: int64) \<le>s 478250000" by (simp add: word_sle_eq)
  show ?thesis using h FormatRate_roundtrip [OF h] by simp
qed

end
