(* ===== verification/Apperr.thy ===== *)
theory Apperr
  imports Go_Errors
begin

text \<open>
  \<open>src/pkg/apperr\<close>: the error registry. Application errors carry a stable code; one table
  maps it to a gRPC status at the service edge, one to an HTTP status at the gateway, and
  the client side reconstructs it. The lemmas show that the code survives the wire and
  that a business refusal is never mistaken for an unknown outcome.
\<close>

type_synonym Code = string

abbreviation CodeInvalidArgument :: Code where "CodeInvalidArgument \<equiv> ''INVALID_ARGUMENT''"
abbreviation CodeNotFound :: Code where "CodeNotFound \<equiv> ''NOT_FOUND''"
abbreviation CodeAlreadyExists :: Code where "CodeAlreadyExists \<equiv> ''ALREADY_EXISTS''"
abbreviation CodeUnauthenticated :: Code where "CodeUnauthenticated \<equiv> ''UNAUTHENTICATED''"
abbreviation CodeForbidden :: Code where "CodeForbidden \<equiv> ''FORBIDDEN''"
abbreviation CodeInsufficientFunds :: Code where "CodeInsufficientFunds \<equiv> ''INSUFFICIENT_FUNDS''"
abbreviation CodeAccountFrozen :: Code where "CodeAccountFrozen \<equiv> ''ACCOUNT_FROZEN''"
abbreviation CodeCurrencyMismatch :: Code where "CodeCurrencyMismatch \<equiv> ''CURRENCY_MISMATCH''"
abbreviation CodeUnbalancedEntry :: Code where "CodeUnbalancedEntry \<equiv> ''UNBALANCED_ENTRY''"
abbreviation CodeLimitExceeded :: Code where "CodeLimitExceeded \<equiv> ''LIMIT_EXCEEDED''"
abbreviation CodeIdempotencyConflict :: Code where "CodeIdempotencyConflict \<equiv> ''IDEMPOTENCY_CONFLICT''"
abbreviation CodeIdempotencyKeyRequired :: Code where "CodeIdempotencyKeyRequired \<equiv> ''IDEMPOTENCY_KEY_REQUIRED''"
abbreviation CodeRateLimited :: Code where "CodeRateLimited \<equiv> ''RATE_LIMITED''"
abbreviation CodeUpstreamUnavailable :: Code where "CodeUpstreamUnavailable \<equiv> ''UPSTREAM_UNAVAILABLE''"
abbreviation CodeInternal :: Code where "CodeInternal \<equiv> ''INTERNAL''"

definition Codes :: "Code list" where
  "Codes = [CodeInvalidArgument, CodeNotFound, CodeAlreadyExists, CodeUnauthenticated, CodeForbidden,
     CodeInsufficientFunds, CodeAccountFrozen, CodeCurrencyMismatch, CodeUnbalancedEntry, CodeLimitExceeded,
     CodeIdempotencyConflict, CodeIdempotencyKeyRequired, CodeRateLimited, CodeUpstreamUnavailable, CodeInternal]"

definition app_New :: "Code \<Rightarrow> string \<Rightarrow> 'e goerr" where
  "app_New code message = AppErr code message None"

definition app_Wrap :: "Code \<Rightarrow> string \<Rightarrow> 'e goerr \<Rightarrow> 'e goerr" where
  "app_Wrap code message cause = AppErr code message (Some cause)"

text \<open>\<open>Error()\<close>, with the text of the sentinels of the package at hand.\<close>

fun err_Error :: "('e \<Rightarrow> string) \<Rightarrow> 'e goerr \<Rightarrow> string" where
  "err_Error txt (Sentinel s) = txt s"
| "err_Error txt (Opaque s) = s"
| "err_Error txt (Wrapped s _) = s"
| "err_Error txt (AppErr _ m None) = m"
| "err_Error txt (AppErr _ m (Some c)) = m @ '': '' @ err_Error txt c"
| "err_Error txt (StatusErr st) = st_Message st"
| "err_Error txt CtxDeadlineExceeded = ''context deadline exceeded''"

definition CodeOf :: "'e goerr \<Rightarrow> Code" where
  "CodeOf err = (case errors_As_app err of Some (c, _) \<Rightarrow> c | None \<Rightarrow> CodeInternal)"

definition Retryable :: "Code \<Rightarrow> bool" where
  "Retryable code \<longleftrightarrow> code = CodeUpstreamUnavailable"

section \<open>grpc.go\<close>

abbreviation errorDomain :: string where "errorDomain \<equiv> ''bank-core''"

definition grpcCode :: "Code \<Rightarrow> grpc_code option" where
  "grpcCode = map_of
    [(CodeInvalidArgument, InvalidArgument), (CodeNotFound, NotFound), (CodeAlreadyExists, AlreadyExists),
     (CodeUnauthenticated, Unauthenticated), (CodeForbidden, PermissionDenied),
     (CodeInsufficientFunds, FailedPrecondition), (CodeAccountFrozen, FailedPrecondition),
     (CodeCurrencyMismatch, FailedPrecondition), (CodeUnbalancedEntry, FailedPrecondition),
     (CodeLimitExceeded, FailedPrecondition), (CodeIdempotencyConflict, FailedPrecondition),
     (CodeIdempotencyKeyRequired, InvalidArgument), (CodeRateLimited, ResourceExhausted),
     (CodeUpstreamUnavailable, Unavailable), (CodeInternal, Internal)]"

text \<open>
  \<open>ToGRPC\<close> on a non-nil error. \<open>WithDetails\<close> of a well-formed message on a status that is
  not OK does not fail, so the branch without details is not taken.
\<close>

definition ToGRPC :: "'e goerr \<Rightarrow> 'f goerr" where
  "ToGRPC err = (case errors_As_app err of
      None \<Rightarrow> if errors_Is_deadline err
        then StatusErr \<lparr>st_Code = DeadlineExceeded, st_Message = ''deadline exceeded'', st_Details = []\<rparr>
        else StatusErr \<lparr>st_Code = Internal, st_Message = ''internal error'', st_Details = []\<rparr>
    | Some (code, message) \<Rightarrow>
        let c = (case grpcCode code of Some c \<Rightarrow> c | None \<Rightarrow> Internal)
        in StatusErr \<lparr>st_Code = c, st_Message = message, st_Details = [ErrorInfo code errorDomain]\<rparr>)"

fun find_info :: "status_detail list \<Rightarrow> string option" where
  "find_info [] = None"
| "find_info (ErrorInfo reason d # ds) = (if d = errorDomain then Some reason else find_info ds)"
| "find_info (OtherDetail # ds) = find_info ds"

definition FromGRPC :: "'e goerr \<Rightarrow> 'e goerr" where
  "FromGRPC err = (case status_FromError err of
      None \<Rightarrow> app_Wrap CodeInternal ''non-grpc error'' err
    | Some st \<Rightarrow> (case find_info (st_Details st) of
        Some reason \<Rightarrow> app_New reason (st_Message st)
      | None \<Rightarrow> (case st_Code st of
          Unavailable \<Rightarrow> app_New CodeUpstreamUnavailable (st_Message st)
        | DeadlineExceeded \<Rightarrow> app_New CodeUpstreamUnavailable (st_Message st)
        | NotFound \<Rightarrow> app_New CodeNotFound (st_Message st)
        | AlreadyExists \<Rightarrow> app_New CodeAlreadyExists (st_Message st)
        | InvalidArgument \<Rightarrow> app_New CodeInvalidArgument (st_Message st)
        | Unauthenticated \<Rightarrow> app_New CodeUnauthenticated (st_Message st)
        | PermissionDenied \<Rightarrow> app_New CodeForbidden (st_Message st)
        | ResourceExhausted \<Rightarrow> app_New CodeRateLimited (st_Message st)
        | _ \<Rightarrow> app_New CodeInternal (st_Message st))))"

definition Ambiguous :: "'e goerr \<Rightarrow> bool" where
  "Ambiguous err \<longleftrightarrow> errors_Is_deadline err \<or>
     (case status_FromError err of None \<Rightarrow> False
      | Some st \<Rightarrow> st_Code st = Unavailable \<or> st_Code st = DeadlineExceeded)"

section \<open>http.go\<close>

definition httpStatus :: "Code \<Rightarrow> nat option" where
  "httpStatus = map_of
    [(CodeInvalidArgument, 400), (CodeNotFound, 404), (CodeAlreadyExists, 409), (CodeUnauthenticated, 401),
     (CodeForbidden, 403), (CodeInsufficientFunds, 422), (CodeAccountFrozen, 422), (CodeCurrencyMismatch, 422),
     (CodeUnbalancedEntry, 422), (CodeLimitExceeded, 422), (CodeIdempotencyConflict, 422),
     (CodeIdempotencyKeyRequired, 400), (CodeRateLimited, 429), (CodeUpstreamUnavailable, 503),
     (CodeInternal, 500)]"

definition httpTitle :: "Code \<Rightarrow> string option" where
  "httpTitle = map_of
    [(CodeInvalidArgument, ''Invalid request''), (CodeNotFound, ''Not found''),
     (CodeAlreadyExists, ''Already exists''), (CodeUnauthenticated, ''Authentication required''),
     (CodeForbidden, ''Forbidden''), (CodeInsufficientFunds, ''Insufficient funds''),
     (CodeAccountFrozen, ''Account frozen''), (CodeCurrencyMismatch, ''Currency mismatch''),
     (CodeUnbalancedEntry, ''Unbalanced journal entry''), (CodeLimitExceeded, ''Limit exceeded''),
     (CodeIdempotencyConflict, ''Idempotency key conflict''),
     (CodeIdempotencyKeyRequired, ''Idempotency-Key header required''),
     (CodeRateLimited, ''Too many requests''), (CodeUpstreamUnavailable, ''Service temporarily unavailable''),
     (CodeInternal, ''Internal error'')]"

definition HTTPStatus :: "Code \<Rightarrow> nat" where
  "HTTPStatus c = (case httpStatus c of Some s \<Rightarrow> s | None \<Rightarrow> 500)"

definition HTTPTitle :: "Code \<Rightarrow> string" where
  "HTTPTitle c = (case httpTitle c of Some t \<Rightarrow> t | None \<Rightarrow> ''Internal error'')"

section \<open>The code survives the wire\<close>

lemma app_simps [simp]:
  "errors_As_app (app_New c m) = Some (c, m)" "errors_As_app (app_Wrap c m e) = Some (c, m)"
  "errors_Is (app_New c m) x = False" "errors_Is (app_Wrap c m e) x = errors_Is e x"
  "CodeOf (app_New c m) = c" "CodeOf (app_Wrap c m e) = c" "CodeOf (AppErr c m cause) = c"
  by (simp_all add: app_New_def app_Wrap_def CodeOf_def)

lemma status_FromError_ToGRPC: "\<exists>st. ToGRPC err = StatusErr st"
  by (simp add: ToGRPC_def Let_def split: option.splits prod.splits)

lemma grpcCode_values: "grpcCode c = Some g \<Longrightarrow> (g = Unavailable \<longleftrightarrow> c = CodeUpstreamUnavailable) \<and> g \<noteq> DeadlineExceeded"
  by (simp add: grpcCode_def split: if_splits)

text \<open>
  The application code survives the wire unchanged, whatever the code and however
  deeply the application error is wrapped: the client side recovers exactly the code and
  the message that the server side gave, and an error with no application code arrives as
  \<open>INTERNAL\<close> with an opaque text, or as \<open>UPSTREAM_UNAVAILABLE\<close> for a deadline.
\<close>

theorem FromGRPC_ToGRPC:
  "FromGRPC (ToGRPC err) = (case errors_As_app err of
      Some (code, message) \<Rightarrow> app_New code message
    | None \<Rightarrow> if errors_Is_deadline err then app_New CodeUpstreamUnavailable ''deadline exceeded''
        else app_New CodeInternal ''internal error'')"
  by (auto simp: ToGRPC_def FromGRPC_def Let_def split: option.splits prod.splits)

text \<open>
  What a server answers is ambiguous for the client exactly when it stands for
  unavailability or a deadline: the only application code that is ambiguous is
  \<open>UPSTREAM_UNAVAILABLE\<close>, so a business refusal is always definitive for the saga.
\<close>

lemma Ambiguous_ToGRPC:
  "Ambiguous (ToGRPC err) \<longleftrightarrow> (case errors_As_app err of
      Some (code, _) \<Rightarrow> code = CodeUpstreamUnavailable
    | None \<Rightarrow> errors_Is_deadline err)"
  by (auto simp: Ambiguous_def ToGRPC_def Let_def split: option.splits prod.splits if_splits dest: grpcCode_values)
     (simp add: grpcCode_def)

end
