(* ===== verification/Ledger_Domain.thy ===== *)
theory Ledger_Domain
  imports Apperr Money
begin

text \<open>
  \<open>src/services/ledger/internal/domain/domain.go\<close>: the pure double-entry rules. An entry
  has at least two non-zero legs, each in the currency of its account, and sums to zero
  per currency; a balance change keeps a customer account covered and bumps the version;
  a hold goes from active to captured or released once.
\<close>

datatype ledger_sentinel =
    ErrInsufficientFunds | ErrAccountFrozen | ErrAccountNotFound | ErrCurrencyMismatch
  | ErrUnknownCurrency | ErrUnbalancedEntry | ErrTooFewPostings | ErrZeroPosting | ErrOverflow
  | ErrDuplicateReference | ErrHoldNotActive | ErrHoldExceeded | ErrHoldAccountMismatch | ErrInvalidHoldAmount
  | ErrNotFound | ErrRefConflict  \<comment> \<open>the store sentinels of \<open>app/ports.go\<close>\<close>

type_synonym ledger_err = "ledger_sentinel goerr"

fun sentinel_text :: "ledger_sentinel \<Rightarrow> string" where
  "sentinel_text ErrInsufficientFunds = ''insufficient available funds''"
| "sentinel_text ErrAccountFrozen = ''account is not active''"
| "sentinel_text ErrAccountNotFound = ''ledger account not found''"
| "sentinel_text ErrCurrencyMismatch = ''posting currency does not match account currency''"
| "sentinel_text ErrUnknownCurrency = ''unknown currency''"
| "sentinel_text ErrUnbalancedEntry = ''entry does not sum to zero per currency''"
| "sentinel_text ErrTooFewPostings = ''journal entry requires at least 2 postings''"
| "sentinel_text ErrZeroPosting = ''posting amount must be non-zero''"
| "sentinel_text ErrOverflow = ''amount overflow''"
| "sentinel_text ErrDuplicateReference = ''reference already used with a different payload''"
| "sentinel_text ErrHoldNotActive = ''hold is not active''"
| "sentinel_text ErrHoldExceeded = ''capture exceeds held amount''"
| "sentinel_text ErrHoldAccountMismatch = ''hold belongs to a different account''"
| "sentinel_text ErrInvalidHoldAmount = ''hold amount must be positive''"
| "sentinel_text ErrNotFound = ''not found''"
| "sentinel_text ErrRefConflict = ''reference conflict''"

abbreviation TypeCustomer :: string where "TypeCustomer \<equiv> ''customer''"
abbreviation TypeInternal :: string where "TypeInternal \<equiv> ''internal''"
abbreviation StatusActive :: string where "StatusActive \<equiv> ''ACTIVE''"
abbreviation HoldActive :: string where "HoldActive \<equiv> ''active''"
abbreviation HoldCaptured :: string where "HoldCaptured \<equiv> ''captured''"
abbreviation HoldReleased :: string where "HoldReleased \<equiv> ''released''"

record Account =
  acct_ID :: string
  acct_ExternalID :: string
  acct_InternalCode :: string
  acct_Type :: string
  acct_Currency :: string
  acct_Status :: string

record Posting =
  post_AccountID :: string
  post_Amount :: int64
  post_Currency :: string

record Balance =
  bal_AccountID :: string
  bal_Currency :: string
  bal_Balance :: int64
  bal_Held :: int64
  bal_Version :: int64

definition Available :: "Balance \<Rightarrow> int64" where
  "Available b = bal_Balance b - bal_Held b"

record Hold =
  hold_ID :: string
  hold_AccountID :: string
  hold_Amount :: int64
  hold_Currency :: string
  hold_ReferenceType :: string
  hold_ReferenceID :: string
  hold_Status :: string
  hold_ExpiresAt :: time

definition validCurrency :: "string \<Rightarrow> bool" where
  "validCurrency c \<longleftrightarrow> c = ''KZT'' \<or> c = ''USD''"

definition addChecked :: "int64 \<Rightarrow> int64 \<Rightarrow> ledger_err + int64" where
  "addChecked a b = (let sum = a + b in
     if (0 <s b \<and> sum <s a) \<or> (b <s 0 \<and> a <s sum) then Inl (Sentinel ErrOverflow) else Inr sum)"

text \<open>One turn of the loop of \<open>ValidateEntry\<close>: the checks on one leg, then its currency's sum.\<close>

definition validatePosting ::
  "(string \<times> Account) list \<Rightarrow> Posting \<Rightarrow> (string \<times> int64) list \<Rightarrow> ledger_err + (string \<times> int64) list" where
  "validatePosting accounts p sums = (case map_of accounts (post_AccountID p) of
      None \<Rightarrow> Inl (Sentinel ErrAccountNotFound)
    | Some acct \<Rightarrow>
        if post_Amount p = 0 then Inl (Sentinel ErrZeroPosting)
        else if \<not> validCurrency (post_Currency p) then Inl (Sentinel ErrUnknownCurrency)
        else if post_Currency p \<noteq> acct_Currency acct then Inl (Sentinel ErrCurrencyMismatch)
        else if acct_Type acct = TypeCustomer \<and> acct_Status acct \<noteq> StatusActive
        then Inl (Sentinel ErrAccountFrozen)
        else sum_bind (addChecked (go_get sums (post_Currency p)) (post_Amount p))
               (\<lambda>s. Inr (AList.update (post_Currency p) s sums)))"

definition ValidateEntry :: "Posting list \<Rightarrow> (string \<times> Account) list \<Rightarrow> ledger_err + unit" where
  "ValidateEntry postings accounts =
    (if length postings < 2 then Inl (Sentinel ErrTooFewPostings)
     else sum_bind (fold_err (validatePosting accounts) postings [])
       (\<lambda>sums. if \<exists>(_, s) \<in> set sums. s \<noteq> 0 then Inl (Sentinel ErrUnbalancedEntry) else Inr ()))"

definition ApplyPosting :: "Balance \<Rightarrow> string \<Rightarrow> int64 \<Rightarrow> ledger_err + Balance" where
  "ApplyPosting b accountType delta =
    sum_bind (addChecked (bal_Balance b) delta) (\<lambda>nb.
      let b' = b\<lparr>bal_Balance := nb, bal_Version := bal_Version b + 1\<rparr>
      in if accountType = TypeCustomer \<and> Available b' <s 0 then Inl (Sentinel ErrInsufficientFunds)
         else Inr b')"

definition CanPlaceHold :: "Balance \<Rightarrow> string \<Rightarrow> int64 \<Rightarrow> ledger_err + unit" where
  "CanPlaceHold b accountType amount =
    (if amount \<le>s 0 then Inl (Sentinel ErrInvalidHoldAmount)
     else if accountType \<noteq> TypeCustomer then Inr ()
     else if Available b <s amount then Inl (Sentinel ErrInsufficientFunds)
     else Inr ())"

definition CaptureHold :: "Hold \<Rightarrow> int64 \<Rightarrow> ledger_err + Hold" where
  "CaptureHold h debit =
    (if hold_Status h \<noteq> HoldActive then Inl (Sentinel ErrHoldNotActive)
     else let debit' = (if debit <s 0 then - debit else debit)
       in if hold_Amount h <s debit' then Inl (Sentinel ErrHoldExceeded)
          else Inr (h\<lparr>hold_Status := HoldCaptured\<rparr>))"

text \<open>The second component tells whether the hold changed.\<close>

definition domain_ReleaseHold :: "Hold \<Rightarrow> ledger_err + Hold \<times> bool" where
  "domain_ReleaseHold h =
    (if hold_Status h = HoldReleased then Inr (h, False)
     else if hold_Status h = HoldCaptured then Inl (Sentinel ErrHoldNotActive)
     else Inr (h\<lparr>hold_Status := HoldReleased\<rparr>, True))"

section \<open>Entries\<close>

interpretation ledger_add: checked_add addChecked
  by unfold_locales (simp only: addChecked_def Let_def checked_add_test)

text \<open>The sum of an entry's legs in one currency, over the integers.\<close>

definition currency_total :: "string \<Rightarrow> Posting list \<Rightarrow> int" where
  "currency_total c ps = (\<Sum>p\<leftarrow>ps. if post_Currency p = c then sint (post_Amount p) else 0)"

definition well_formed_leg :: "(string \<times> Account) list \<Rightarrow> Posting \<Rightarrow> bool" where
  "well_formed_leg accounts p \<longleftrightarrow> (\<exists>a. map_of accounts (post_AccountID p) = Some a
     \<and> post_Amount p \<noteq> 0 \<and> validCurrency (post_Currency p) \<and> post_Currency p = acct_Currency a
     \<and> (acct_Type a = TypeCustomer \<longrightarrow> acct_Status a = StatusActive))"

abbreviation sum_leg :: "Posting \<Rightarrow> (string \<times> int64) list \<Rightarrow> ledger_err + (string \<times> int64) list" where
  "sum_leg p m \<equiv> sum_bind (addChecked (go_get m (post_Currency p)) (post_Amount p))
     (\<lambda>s. Inr (AList.update (post_Currency p) s m))"

lemma validatePosting_Inr:
  "validatePosting accounts p sums = Inr sums' \<longleftrightarrow> well_formed_leg accounts p \<and> sum_leg p sums = Inr sums'"
  by (auto simp: validatePosting_def well_formed_leg_def split: option.splits)

lemma fold_validatePosting:
  "fold_err (validatePosting accounts) ps m = Inr m' \<longleftrightarrow>
     list_all (well_formed_leg accounts) ps \<and> fold_err sum_leg ps m = Inr m'"
  by (induction ps arbitrary: m) (auto simp: sum_bind_Inr_iff validatePosting_Inr)

lemma ValidateEntry_sound:
  assumes "ValidateEntry ps accounts = Inr ()"
  shows "2 \<le> length ps" and "list_all (well_formed_leg accounts) ps" and "currency_total c ps = 0"
proof -
  obtain sums where len: "2 \<le> length ps" and legs: "list_all (well_formed_leg accounts) ps"
    and sums: "fold_err sum_leg ps [] = Inr sums" and zero: "\<forall>x \<in> set sums. snd x = 0"
    using assms by (auto simp: ValidateEntry_def fold_validatePosting split_beta split: if_splits)
  have "go_get sums c = 0"
    using zero by (force simp: go_get_def split: option.splits dest: map_of_SomeD)
  moreover have "sint (go_get sums c) = currency_total c ps"
    using ledger_add.accumulate_exact [OF sums, of c] by (simp add: currency_total_def eq_commute)
  ultimately show "2 \<le> length ps" and "list_all (well_formed_leg accounts) ps" and "currency_total c ps = 0"
    using len legs by simp_all
qed

text \<open>
  \<open>ValidateEntry\<close> accepts exactly the double-entry transactions: at least two legs, every
  leg non-zero, in a known currency, in the currency of its account and on an account
  that may be posted to, and every currency summing to zero over the integers, where no
  running sum of the legs leaves the range of \<open>int64\<close>.
\<close>

theorem ValidateEntry_exact:
  "ValidateEntry ps accounts = Inr () \<longleftrightarrow>
     2 \<le> length ps \<and> list_all (well_formed_leg accounts) ps \<and> (\<forall>c. currency_total c ps = 0)
     \<and> (\<forall>n c. int64_min \<le> currency_total c (take n ps) \<and> currency_total c (take n ps) \<le> int64_max)"
proof -
  have range: "(\<exists>m. fold_err sum_leg ps [] = Inr m) \<longleftrightarrow>
      (\<forall>n c. int64_min \<le> currency_total c (take n ps) \<and> currency_total c (take n ps) \<le> int64_max)"
    unfolding ledger_add.accumulate_defined currency_total_def by simp
  have zero: "(\<forall>(_, s) \<in> set m. s = 0) \<longleftrightarrow> (\<forall>c. currency_total c ps = 0)" if "fold_err sum_leg ps [] = Inr m" for m
  proof -
    have exact: "sint (go_get m c) = currency_total c ps" for c
      using ledger_add.accumulate_exact [OF that, of c] by (simp add: currency_total_def eq_commute)
    have "distinct (map fst m)" by (rule ledger_add.accumulate_distinct [OF that]) simp
    then have "(\<forall>(_, s) \<in> set m. s = 0) \<longleftrightarrow> (\<forall>c. go_get m c = 0)"
      by (fastforce simp: go_get_def split: option.splits dest: map_of_SomeD)
    then show ?thesis using exact by (simp add: int64_eq_iff)
  qed
  show ?thesis
    unfolding range [symmetric] using zero
    by (auto simp: ValidateEntry_def fold_validatePosting sum_bind_Inr_iff split_beta)
qed

section \<open>Balances and holds\<close>

text \<open>
  A balance is sound when nothing negative is held and, for a customer account, the held
  part is covered. It is what makes the 64-bit subtraction of \<open>Available\<close> exact.
\<close>

definition balance_sound :: "string \<Rightarrow> Balance \<Rightarrow> bool" where
  "balance_sound accountType b \<longleftrightarrow> 0 \<le> sint (bal_Held b) \<and>
     (accountType = TypeCustomer \<longrightarrow> sint (bal_Held b) \<le> sint (bal_Balance b))"

lemma sint_Available:
  assumes "0 \<le> sint (bal_Held b)" and "int64_min + sint (bal_Held b) \<le> sint (bal_Balance b)"
  shows "sint (Available b) = sint (bal_Balance b) - sint (bal_Held b)"
  using assms sint_int64_bounds [of "bal_Balance b"]
  by (simp add: Available_def sint_diff_int64)

lemma ApplyPosting_Inr:
  "ApplyPosting b typ d = Inr b' \<longleftrightarrow> (\<exists>nb. sint nb = sint (bal_Balance b) + sint d
     \<and> b' = b\<lparr>bal_Balance := nb, bal_Version := bal_Version b + 1\<rparr>
     \<and> (typ = TypeCustomer \<longrightarrow> \<not> Available b' <s 0))"
  by (auto simp: ApplyPosting_def sum_bind_Inr_iff ledger_add.add_Inr Let_def)

lemma ApplyPosting_eq:
  assumes "balance_sound typ b"
  shows "ApplyPosting b typ d =
    (let nb = sint (bal_Balance b) + sint d in
     if \<not> (int64_min \<le> nb \<and> nb \<le> int64_max) then Inl (Sentinel ErrOverflow)
     else if typ = TypeCustomer \<and> nb < sint (bal_Held b) then Inl (Sentinel ErrInsufficientFunds)
     else Inr (b\<lparr>bal_Balance := word_of_int nb, bal_Version := bal_Version b + 1\<rparr>))"

proof (cases "int64_min \<le> sint (bal_Balance b) + sint d \<and> sint (bal_Balance b) + sint d \<le> int64_max")
  case True
  define b' where "b' = b\<lparr>bal_Balance := bal_Balance b + d, bal_Version := bal_Version b + 1\<rparr>"
  have add: "addChecked (bal_Balance b) d = Inr (bal_Balance b + d)"
    using True by (simp add: ledger_add.add_Inr sint_add_exact [symmetric])
  have nb: "sint (bal_Balance b') = sint (bal_Balance b) + sint d"
    using add by (simp add: b'_def ledger_add.add_Inr)
  have avail: "sint (Available b') = sint (bal_Balance b) + sint d - sint (bal_Held b)" if "typ = TypeCustomer"
    using assms that nb sint_Available [of b'] sint_int64_bounds [of d]
    by (simp add: balance_sound_def b'_def)
  show ?thesis
    using True avail by (auto simp: ApplyPosting_def add Let_def b'_def [symmetric] int64_simps)

next
  case False
  then have "addChecked (bal_Balance b) d = Inl (Sentinel ErrOverflow)"
    by (auto simp: addChecked_def Let_def add_overflow_test)
  then show ?thesis using False by (auto simp: ApplyPosting_def Let_def)
qed

lemma ApplyPosting_sound:
  assumes "balance_sound typ b" and "ApplyPosting b typ d = Inr b'"
  shows "balance_sound typ b'" and "sint (bal_Balance b') = sint (bal_Balance b) + sint d"
    and "bal_Held b' = bal_Held b" and "bal_Version b' = bal_Version b + 1"
    and "bal_AccountID b' = bal_AccountID b" and "bal_Currency b' = bal_Currency b"
  using assms by (auto simp: ApplyPosting_eq balance_sound_def Let_def sint_add_int64 split: if_splits)

text \<open>
  Applying a net delta to a sound balance never wraps around: it returns the exact new
  balance with the version one higher whenever the sum is representable and, for a
  customer account, covers what is held; it reports insufficient funds when only the
  cover is missing, and overflow when the sum is not representable. A balance it returns
  is sound again.
\<close>

theorem ApplyPosting_exact:
  assumes "balance_sound typ b"
  shows "ApplyPosting b typ d =
    (let nb = sint (bal_Balance b) + sint d in
     if \<not> (int64_min \<le> nb \<and> nb \<le> int64_max) then Inl (Sentinel ErrOverflow)
     else if typ = TypeCustomer \<and> nb < sint (bal_Held b) then Inl (Sentinel ErrInsufficientFunds)
     else Inr (b\<lparr>bal_Balance := word_of_int nb, bal_Version := bal_Version b + 1\<rparr>))
   \<and> (\<forall>b'. ApplyPosting b typ d = Inr b' \<longrightarrow> balance_sound typ b')"
  using ApplyPosting_eq [OF assms] ApplyPosting_sound(1) [OF assms] by blast

theorem ApplyPosting_exact_witness:
  "let b = \<lparr>bal_AccountID = ''a'', bal_Currency = ''KZT'', bal_Balance = 100, bal_Held = 30, bal_Version = 7\<rparr>
   in balance_sound TypeCustomer b
      \<and> ApplyPosting b TypeCustomer (- 70) = Inr (b\<lparr>bal_Balance := 30, bal_Version := 8\<rparr>)
      \<and> ApplyPosting b TypeCustomer (- 71) = Inl (Sentinel ErrInsufficientFunds)"
proof -
  define b where "b = \<lparr>bal_AccountID = ''a'', bal_Currency = ''KZT'', bal_Balance = 100, bal_Held = 30, bal_Version = 7\<rparr>"
  have sound: "balance_sound TypeCustomer b" by (simp add: b_def balance_sound_def)
  show ?thesis
    using sound ApplyPosting_exact [OF sound, of "- 70"] ApplyPosting_exact [OF sound, of "- 71"]
    by (simp add: b_def Let_def)
qed

lemma CanPlaceHold_eq:
  assumes "balance_sound typ b"
  shows "CanPlaceHold b typ a = Inr () \<longleftrightarrow> 0 < sint a \<and>
      (typ = TypeCustomer \<longrightarrow> sint (bal_Held b) + sint a \<le> sint (bal_Balance b))"
proof -
  have "sint (Available b) = sint (bal_Balance b) - sint (bal_Held b)" if "typ = TypeCustomer"
    using assms that sint_Available [of b] sint_int64_bounds [of "bal_Held b"] by (simp add: balance_sound_def)
  then show ?thesis by (auto simp: CanPlaceHold_def int64_simps)
qed

text \<open>
  Reserving funds is exact on a sound balance: a positive hold is allowed on a customer
  account exactly when the balance covers it on top of what is already held, always on an
  internal account, and after the reservation the customer balance is still sound.
\<close>


lemma CanPlaceHold_exact:
  assumes "balance_sound typ b"
  shows "(CanPlaceHold b typ a = Inr () \<longleftrightarrow> 0 < sint a \<and>
      (typ = TypeCustomer \<longrightarrow> sint (bal_Held b) + sint a \<le> sint (bal_Balance b)))
    \<and> (CanPlaceHold b typ a = Inr () \<and> typ = TypeCustomer \<longrightarrow>
        balance_sound typ (b\<lparr>bal_Held := bal_Held b + a\<rparr>))"
  unfolding CanPlaceHold_eq [OF assms]
  using assms sint_int64_bounds [of "bal_Balance b"] by (auto simp: balance_sound_def sint_add_int64)

lemma CanPlaceHold_exact_witness:
  "let b = \<lparr>bal_AccountID = ''a'', bal_Currency = ''KZT'', bal_Balance = 100, bal_Held = 30, bal_Version = 7\<rparr>
   in balance_sound TypeCustomer b \<and> CanPlaceHold b TypeCustomer 70 = Inr ()
      \<and> balance_sound TypeCustomer (b\<lparr>bal_Held := 100\<rparr>) \<and> CanPlaceHold b TypeCustomer 71 \<noteq> Inr ()"
proof -
  define b where "b = \<lparr>bal_AccountID = ''a'', bal_Currency = ''KZT'', bal_Balance = 100, bal_Held = 30, bal_Version = 7\<rparr>"
  have sound: "balance_sound TypeCustomer b" by (simp add: b_def balance_sound_def)
  show ?thesis
    using sound CanPlaceHold_exact [OF sound, of 70] CanPlaceHold_exact [OF sound, of 71]
    by (simp add: b_def Let_def)
qed

text \<open>
  A hold leaves the active state once: neither capture nor release succeeds on a captured
  hold, a released hold is only re-released without effect.
\<close>

lemma CaptureHold_Inr:
  "CaptureHold h d = Inr h' \<longleftrightarrow> hold_Status h = HoldActive \<and> h' = h\<lparr>hold_Status := HoldCaptured\<rparr>
     \<and> sint (if d <s 0 then - d else d) \<le> sint (hold_Amount h)"
  by (auto simp: CaptureHold_def Let_def int64_simps)

lemma domain_ReleaseHold_Inr:
  "domain_ReleaseHold h = Inr (h', ch) \<longleftrightarrow>
     (if hold_Status h = HoldReleased then h' = h \<and> \<not> ch
      else hold_Status h \<noteq> HoldCaptured \<and> h' = h\<lparr>hold_Status := HoldReleased\<rparr> \<and> ch)"
  by (auto simp: domain_ReleaseHold_def)

text \<open>
  Capturing a hold succeeds exactly for an active hold whose amount covers the debit,
  and then only the status changes; the one exception is a debit of the least \<open>int64\<close>,
  whose negation wraps around to itself, so that the guard lets it pass whatever the
  amount held.
\<close>

theorem CaptureHold_exact:
  assumes "0 < sint (hold_Amount h)" and "sint d \<le> 0"
  shows "CaptureHold h d = Inr h' \<longleftrightarrow> hold_Status h = HoldActive \<and> h' = h\<lparr>hold_Status := HoldCaptured\<rparr>
     \<and> (- sint d \<le> sint (hold_Amount h) \<or> sint d = int64_min)"
  using assms by (auto simp: CaptureHold_Inr int64_simps sint_neg_int64)

theorem CaptureHold_exact_witness:
  "let h = \<lparr>hold_ID = ''h'', hold_AccountID = ''a'', hold_Amount = 5, hold_Currency = ''KZT'', hold_ReferenceType = ''t'',
       hold_ReferenceID = ''1'', hold_Status = HoldActive, hold_ExpiresAt = 0\<rparr>
   in CaptureHold h (- 5) = Inr (h\<lparr>hold_Status := HoldCaptured\<rparr>)
      \<and> CaptureHold h minInt64 = Inr (h\<lparr>hold_Status := HoldCaptured\<rparr>)"
proof -
  define h where "h = \<lparr>hold_ID = ''h'', hold_AccountID = ''a'', hold_Amount = 5, hold_Currency = ''KZT'',
    hold_ReferenceType = ''t'', hold_ReferenceID = ''1'', hold_Status = HoldActive, hold_ExpiresAt = 0\<rparr>"
  have pos: "0 < sint (hold_Amount h)" by (simp add: h_def)
  show ?thesis
    using CaptureHold_exact [OF pos, of "- 5"] CaptureHold_exact [OF pos, of minInt64]
    by (simp add: h_def Let_def)
qed


end
