(* ===== verification/Outbox.thy ===== *)
theory Outbox
  imports Apperr "HOL-Library.Product_Lexorder"
begin

text \<open>
  The infrastructure below the services: the protobuf messages that travel between them
  (as records; the wire format is protobuf's own), the transaction manager
  (\<open>src/pkg/pgtx/pgtx.go\<close>), and the transactional outbox with its relay
  (\<open>src/pkg/outbox\<close>).
\<close>

section \<open>Messages\<close>

record Money =
  MinorUnits :: int64
  MoneyCurrency :: string

record PostingMsg =
  pm_Id :: string
  pm_EntryId :: string
  pm_AccountId :: string
  pm_ExternalAccountId :: string
  pm_Amount :: Money
  pm_OccurredAt :: time

record JournalEntryMsg =
  jm_Id :: string
  jm_ReferenceType :: string
  jm_ReferenceId :: string
  jm_OccurredAt :: time
  jm_Postings :: "PostingMsg list"

datatype TransferType = TRANSFER_TYPE_UNSPECIFIED | TRANSFER_TYPE_TOPUP | TRANSFER_TYPE_INTERNAL | TRANSFER_TYPE_P2P

datatype TransferState =
    TRANSFER_STATE_UNSPECIFIED | TRANSFER_STATE_CREATED | TRANSFER_STATE_VALIDATING | TRANSFER_STATE_HELD
  | TRANSFER_STATE_POSTING | TRANSFER_STATE_COMPLETED | TRANSFER_STATE_RELEASING | TRANSFER_STATE_FAILED

record TransferView =
  tv_Id :: string
  tv_Type :: TransferType
  tv_State :: TransferState
  tv_CustomerId :: string
  tv_FromAccountId :: string
  tv_ToAccountId :: string
  tv_Amount :: Money
  tv_CounterAmount :: "Money option"
  tv_AppliedRate :: string
  tv_Reason :: string
  tv_CreatedAt :: time
  tv_UpdatedAt :: time

record AccountMsg =
  am_Id :: string
  am_CustomerId :: string
  am_UserId :: string
  am_Number :: string
  am_Currency :: string
  am_Status :: string
  am_OpenedAt :: time

record TransactionPostedMsg =
  tp_Entry :: JournalEntryMsg
  tp_AccountId :: string
  tp_ExternalAccountId :: string
  tp_Currency :: string
  tp_BalanceAfter :: int64
  tp_Version :: int64

record FraudAlertMsg =
  fa_CustomerId :: string
  fa_TransferId :: string
  fa_Rule :: string
  fa_Severity :: string
  fa_Details :: string
  fa_AccountId :: string

datatype Event =
    TransactionPosted TransactionPostedMsg
  | TransferCompleted TransferView string
  | TransferFailed TransferView string
  | AccountOpened AccountMsg
  | AccountFrozen string string
  | CustomerRegistered string string string
  | FraudAlertRaised FraudAlertMsg
  | OtherEvent string

record EventEnvelope =
  ev_EventId :: string
  ev_OccurredAt :: time
  ev_RequestId :: string
  ev_Payload :: Event

section \<open>pgtx: transactions\<close>

text \<open>
  What the database does to one transaction besides executing its statements. The
  connection may fail before it starts; the commit may fail with nothing written, or be
  carried out although the client sees a failure.
\<close>

datatype infra_err = ConnErr string | DeadlineErr

fun infra_goerr :: "infra_err \<Rightarrow> 'e goerr" where
  "infra_goerr (ConnErr m) = Opaque m"
| "infra_goerr DeadlineErr = CtxDeadlineExceeded"

datatype commit_outcome = Committed | NotCommitted infra_err | CommittedUnseen infra_err

text \<open>
  The inputs of one call that come from outside the program: the clock, the identifiers
  \<open>uuid.NewV7\<close> returns in order (\<open>None\<close> when the entropy source fails), the identifier
  the database draws for a row default, the request id of the context, and the fate of
  the transaction.
\<close>

record tx_env =
  env_now :: time
  env_uuid :: "nat \<Rightarrow> string option"
  env_gen_uuid :: string
  env_request_id :: string
  env_begin :: "infra_err option"
  env_commit :: commit_outcome

definition uuid_NewV7 :: "tx_env \<Rightarrow> nat \<Rightarrow> 'e goerr + string" where
  "uuid_NewV7 env i = (case env_uuid env i of None \<Rightarrow> Inl (Opaque ''uuid: entropy'') | Some u \<Rightarrow> Inr u)"

text \<open>
  \<open>WithTx\<close>: the body runs on the current state; an error rolls back. \<open>deferred\<close> holds the
  constraints the schema checks at commit.
\<close>

definition WithTx ::
  "('s \<Rightarrow> bool) \<Rightarrow> tx_env \<Rightarrow> ('s \<Rightarrow> 'e goerr + 'a \<times> 's) \<Rightarrow> 's \<Rightarrow> ('e goerr + 'a) \<times> 's" where
  "WithTx deferred env fn s = (case env_begin env of
      Some err \<Rightarrow> (Inl (Wrapped ''begin'' (infra_goerr err)), s)
    | None \<Rightarrow> (case fn s of
        Inl err \<Rightarrow> (Inl err, s)
      | Inr (x, s') \<Rightarrow>
          if \<not> deferred s' then (Inl (Wrapped ''commit'' (Opaque ''deferred constraint'')), s)
          else (case env_commit env of
              Committed \<Rightarrow> (Inr x, s')
            | NotCommitted err \<Rightarrow> (Inl (Wrapped ''commit'' (infra_goerr err)), s)
            | CommittedUnseen err \<Rightarrow> (Inl (Wrapped ''commit'' (infra_goerr err)), s'))))"

lemma WithTx_state:
  "WithTx deferred env fn s = (r, s') \<Longrightarrow> s' = s \<or> (\<exists>x. fn s = Inr (x, s') \<and> deferred s')"
  by (auto simp: WithTx_def split: option.splits sum.splits commit_outcome.splits if_splits)

lemma WithTx_Inr:
  "WithTx deferred env fn s = (Inr x, s') \<Longrightarrow> fn s = Inr (x, s') \<and> deferred s'"
  by (auto simp: WithTx_def split: option.splits sum.splits commit_outcome.splits if_splits)

lemma infra_goerr_simps [simp]:
  "errors_Is (infra_goerr e) x = False" "errors_As_app (infra_goerr e) = None"
  by (cases e; simp)+

lemma WithTx_Inl_sentinel:
  assumes "WithTx deferred env fn s = (Inl err, s')" and "errors_Is err x"
  shows "s' = s \<and> fn s = Inl err"
  using assms
  by (auto simp: WithTx_def split: option.splits sum.splits commit_outcome.splits if_splits)

section \<open>Statements\<close>

text \<open>
  How a statement fails: no row for a \<open>:one\<close> query, a violated constraint, or a number out of
  its column's range. \<open>rawErr\<close> is such an error as Go sees it when nothing recognises it.
\<close>

datatype pg_error = ErrNoRows | UniqueViolation | CheckViolation | ForeignKeyViolation | NumericOutOfRange

definition one_row :: "'r option \<Rightarrow> pg_error + 'r" where
  "one_row r = (case r of None \<Rightarrow> Inl ErrNoRows | Some x \<Rightarrow> Inr x)"

definition rawErr :: "pg_error \<Rightarrow> 'e goerr" where
  "rawErr e = (case e of ErrNoRows \<Rightarrow> Opaque ''no rows'' | UniqueViolation \<Rightarrow> Opaque ''unique violation''
     | CheckViolation \<Rightarrow> Opaque ''check violation'' | ForeignKeyViolation \<Rightarrow> Opaque ''foreign key violation''
     | NumericOutOfRange \<Rightarrow> Opaque ''numeric value out of range'')"

definition map_left :: "('e \<Rightarrow> 'f) \<Rightarrow> 'e + 'a \<Rightarrow> 'f + 'a" where
  "map_left f m = (case m of Inl e \<Rightarrow> Inl (f e) | Inr x \<Rightarrow> Inr x)"

definition text_or_empty :: "string option \<Rightarrow> string" where
  "text_or_empty x = (case x of None \<Rightarrow> '''' | Some v \<Rightarrow> v)"

lemma map_left_Inr [simp]: "map_left f m = Inr x \<longleftrightarrow> m = Inr x"
  by (cases m) (auto simp: map_left_def)

lemma map_left_Inl: "map_left f m = Inl e \<longleftrightarrow> (\<exists>e'. m = Inl e' \<and> e = f e')"
  by (cases m) (auto simp: map_left_def)

lemma one_row_Inr [simp]: "one_row r = Inr x \<longleftrightarrow> r = Some x"
  by (cases r) (auto simp: one_row_def)

lemma one_row_Inl: "one_row r = Inl e \<longleftrightarrow> r = None \<and> e = ErrNoRows"
  by (cases r) (auto simp: one_row_def)

lemma rawErr_simps [simp]:
  "errors_Is (rawErr e) x = False" "errors_As_app (rawErr e) = None" "status_FromError (rawErr e) = None"
  "errors_Is_deadline (rawErr e) = False"
  by (cases e; simp add: rawErr_def)+

text \<open>A statement outside a transaction: it commits by itself, or its outcome is lost.\<close>

definition statement :: "tx_env \<Rightarrow> ('s \<Rightarrow> pg_error + 'a \<times> 's) \<Rightarrow> 's \<Rightarrow> ('e goerr + 'a) \<times> 's" where
  "statement env q s = (case env_begin env of
      Some err \<Rightarrow> (Inl (infra_goerr err), s)
    | None \<Rightarrow> (case q s of
        Inl err \<Rightarrow> (Inl (rawErr err), s)
      | Inr (x, s') \<Rightarrow> (case env_commit env of
          Committed \<Rightarrow> (Inr x, s')
        | NotCommitted err \<Rightarrow> (Inl (infra_goerr err), s)
        | CommittedUnseen err \<Rightarrow> (Inl (infra_goerr err), s'))))"

lemma statement_state: "statement env q s = (r, s') \<Longrightarrow> s' = s \<or> (\<exists>x. q s = Inr (x, s'))"
  by (auto simp: statement_def split: option.splits sum.splits commit_outcome.splits)

lemma statement_Inr: "statement env q s = (Inr x, s') \<Longrightarrow> q s = Inr (x, s')"
  by (auto simp: statement_def split: option.splits sum.splits commit_outcome.splits)

section \<open>outbox: messages and rows\<close>

record Message =
  msg_ID :: string
  msg_Topic :: string
  msg_Key :: string
  msg_Payload :: EventEnvelope

record OutboxRow =
  ob_Message :: Message
  ob_CreatedAt :: time
  ob_SentAt :: "time option"

text \<open>\<open>i\<close> is the position of this \<open>uuid.NewV7\<close> call within the request.\<close>

definition NewProtoMessage :: "tx_env \<Rightarrow> nat \<Rightarrow> string \<Rightarrow> string \<Rightarrow> string \<Rightarrow> Event \<Rightarrow> 'e goerr + Message" where
  "NewProtoMessage env i topic key requestID payload =
    sum_bind (case uuid_NewV7 env i of Inl err \<Rightarrow> Inl (Wrapped ''uuidv7'' err) | Inr u \<Rightarrow> Inr u) (\<lambda>id.
      Inr \<lparr>msg_ID = id, msg_Topic = topic, msg_Key = key,
        msg_Payload = \<lparr>ev_EventId = id, ev_OccurredAt = env_now env, ev_RequestId = requestID,
          ev_Payload = payload\<rparr>\<rparr>)"

definition outbox_Insert :: "tx_env \<Rightarrow> Message \<Rightarrow> OutboxRow list \<Rightarrow> 'e goerr + OutboxRow list" where
  "outbox_Insert env m t =
    (if msg_ID m \<in> (msg_ID \<circ> ob_Message) ` set t then Inl (Wrapped ''outbox insert'' (Opaque ''unique violation''))
     else Inr (t @ [\<lparr>ob_Message = m, ob_CreatedAt = env_now env, ob_SentAt = None\<rparr>]))"

lemma NewProtoMessage_Inr:
  "NewProtoMessage env i topic key rid ev = Inr m \<Longrightarrow>
     msg_Topic m = topic \<and> msg_Key m = key \<and> ev_Payload (msg_Payload m) = ev \<and> ev_EventId (msg_Payload m) = msg_ID m"
  by (auto simp: NewProtoMessage_def)

lemma outbox_Insert_Inr:
  "outbox_Insert env m t = Inr t' \<longleftrightarrow> msg_ID m \<notin> (msg_ID \<circ> ob_Message) ` set t
     \<and> t' = t @ [\<lparr>ob_Message = m, ob_CreatedAt = env_now env, ob_SentAt = None\<rparr>]"
  by (auto simp: outbox_Insert_def)

section \<open>relay.go\<close>

text \<open>
  A record on the broker. \<open>ProduceSync\<close> either acknowledges the whole batch or fails, and a
  failed call may still have delivered some of its records (\<open>delivered\<close>). \<open>locked\<close> are the rows
  another replica has locked, which \<open>SKIP LOCKED\<close> passes over.
\<close>

record Record =
  rec_Topic :: string
  rec_Key :: string
  rec_Value :: EventEnvelope

datatype produce_outcome = Acked | NotAcked infra_err "bool list"

definition record_of :: "OutboxRow \<Rightarrow> Record" where
  "record_of r = \<lparr>rec_Topic = msg_Topic (ob_Message r), rec_Key = msg_Key (ob_Message r), rec_Value = msg_Payload (ob_Message r)\<rparr>"

abbreviation ob_ID :: "OutboxRow \<Rightarrow> string" where "ob_ID r \<equiv> msg_ID (ob_Message r)"

definition relayBatch :: nat where "relayBatch = 100"

definition pending :: "string list \<Rightarrow> OutboxRow list \<Rightarrow> OutboxRow list" where
  "pending locked t = take relayBatch (sort_key (\<lambda>r. (ob_CreatedAt r, ob_ID r))
     (filter (\<lambda>r. ob_SentAt r = None \<and> ob_ID r \<notin> set locked) t))"

definition mark_sent :: "time \<Rightarrow> string list \<Rightarrow> OutboxRow list \<Rightarrow> OutboxRow list" where
  "mark_sent now ids t = update_where (\<lambda>r. ob_ID r \<in> set ids) (\<lambda>r. r\<lparr>ob_SentAt := Some now\<rparr>) t"

definition relayOnce :: "tx_env \<Rightarrow> string list \<Rightarrow> produce_outcome \<Rightarrow> OutboxRow list \<times> Record list
     \<Rightarrow> ('e goerr + nat) \<times> OutboxRow list \<times> Record list" where
  "relayOnce env locked produce st = (case st of (t, log) \<Rightarrow>
     (case env_begin env of
        Some err \<Rightarrow> (Inl (infra_goerr err), t, log)
      | None \<Rightarrow>
          let rows = pending locked t; ids = map ob_ID rows; records = map record_of rows
          in if records = [] then
               (case env_commit env of Committed \<Rightarrow> (Inr 0, t, log)
                | NotCommitted err \<Rightarrow> (Inl (infra_goerr err), t, log)
                | CommittedUnseen err \<Rightarrow> (Inl (infra_goerr err), t, log))
             else (case produce of
               NotAcked err delivered \<Rightarrow>
                 (Inl (Wrapped ''produce'' (infra_goerr err)), t, log @ map fst (filter snd (zip records delivered)))
             | Acked \<Rightarrow> (case env_commit env of
                 Committed \<Rightarrow> (Inr (length ids), mark_sent (env_now env) ids t, log @ records)
               | NotCommitted err \<Rightarrow> (Inl (infra_goerr err), t, log @ records)
               | CommittedUnseen err \<Rightarrow> (Inl (infra_goerr err), mark_sent (env_now env) ids t, log @ records)))))"

text \<open>
  One tick of \<open>Run\<close>: batches are relayed until one fails or is not full. The list gives
  what happens to each batch; a tick never needs more batches than there are rows.
\<close>

fun relayTick :: "(tx_env \<times> string list \<times> produce_outcome) list \<Rightarrow> OutboxRow list \<times> Record list \<Rightarrow> OutboxRow list \<times> Record list" where
  "relayTick [] st = st"
| "relayTick ((env, locked, produce) # rest) st = (case relayOnce env locked produce st of
      (Inl (err :: unit goerr), st') \<Rightarrow> st'
    | (Inr n, st') \<Rightarrow> if n < relayBatch then st' else relayTick rest st')"

text \<open>At least once: a row marked as sent is on the broker, and the broker holds nothing else.\<close>

definition relay_sound :: "OutboxRow list \<times> Record list \<Rightarrow> bool" where
  "relay_sound st \<longleftrightarrow> (\<forall>r \<in> set (fst st). ob_SentAt r \<noteq> None \<longrightarrow> record_of r \<in> set (snd st))
     \<and> set (snd st) \<subseteq> record_of ` set (fst st)"

lemma set_pending: "set (pending locked t) \<subseteq> set t"
  unfolding pending_def by (auto dest: in_set_takeD)

lemma record_of_sent [simp]: "record_of (r\<lparr>ob_SentAt := x\<rparr>) = record_of r"
  by (simp add: record_of_def)

lemma mark_sent_simps:
  "map ob_Message (mark_sent now ids t) = map ob_Message t" "record_of ` set (mark_sent now ids t) = record_of ` set t"
proof -
  have "map ob_Message (mark_sent now ids t) = map ob_Message t \<and> map record_of (mark_sent now ids t) = map record_of t"
    unfolding mark_sent_def update_where_def by simp
  then show "map ob_Message (mark_sent now ids t) = map ob_Message t" "record_of ` set (mark_sent now ids t) = record_of ` set t"
    by (simp_all flip: set_map)
qed

lemma set_delivered: "set (map fst (filter snd (zip xs bs))) \<subseteq> set xs"
  by (auto dest: set_zip_leftD)

lemma relayOnce_cases:
  assumes "relayOnce env locked produce (t, log) = (r, t', log')"
  shows "map ob_Message t' = map ob_Message t" and "\<exists>new. log' = log @ new \<and> set new \<subseteq> record_of ` set (pending locked t)"
    and "t' = t \<or> (t' = mark_sent (env_now env) (map ob_ID (pending locked t)) t \<and> log' = log @ map record_of (pending locked t))"
    and "r = Inr n \<Longrightarrow> n = length (pending locked t) \<and> (n = 0 \<or> t' = mark_sent (env_now env) (map ob_ID (pending locked t)) t)"
  using assms
  by (auto simp: relayOnce_def Let_def mark_sent_simps simp flip: set_map dest!: set_delivered [THEN subsetD]
      split: option.splits if_splits commit_outcome.splits produce_outcome.splits)

lemma relayOnce_sound:
  assumes sound: "relay_sound (t, log)" and uniq: "distinct (map ob_ID t)"
    and step: "relayOnce env locked produce (t, log) = (r, t', log')"
  shows "relay_sound (t', log')"
proof -
  let ?batch = "pending locked t"
  obtain new where new: "log' = log @ new" "set new \<subseteq> record_of ` set ?batch"
    using relayOnce_cases(2) [OF step] by blast
  have incl: "set log' \<subseteq> record_of ` set t"
    using sound new set_pending [of locked t] by (auto simp: relay_sound_def)
  from relayOnce_cases(3) [OF step] show ?thesis
  proof (elim disjE conjE)
    assume "t' = t"
    then show ?thesis using sound incl new(1) by (auto simp: relay_sound_def)
  next
    assume t': "t' = mark_sent (env_now env) (map ob_ID ?batch) t" and log': "log' = log @ map record_of ?batch"
    have "record_of x \<in> set log'" if x: "x \<in> set t" "ob_ID x \<in> set (map ob_ID ?batch)" for x
    proof -
      obtain y where "y \<in> set ?batch" "ob_ID y = ob_ID x" using x(2) by auto
      then have "y = x" using x(1) uniq set_pending [of locked t]
        by (metis distinct_map inj_onD subsetD comp_apply)
      then show ?thesis using \<open>y \<in> set ?batch\<close> log' by simp
    qed
    note on_broker = this
    have "record_of y \<in> set log'" if "y \<in> set t'" "ob_SentAt y \<noteq> None" for y
    proof -
      from that(1) obtain x where x: "x \<in> set t"
        and y: "y = (if ob_ID x \<in> set (map ob_ID ?batch) then x\<lparr>ob_SentAt := Some (env_now env)\<rparr> else x)"
        unfolding t' mark_sent_def set_update_where by blast
      show ?thesis
        using on_broker [OF x] x y that(2) sound by (auto simp: relay_sound_def new(1) split: if_splits)
    qed
    moreover have "set log' \<subseteq> record_of ` set t'" using incl unfolding t' mark_sent_simps(2) .
    ultimately show ?thesis by (simp add: relay_sound_def)
  qed
qed

lemma pending_complete:
  assumes "length (pending [] t) < relayBatch"
  shows "set (pending [] t) = {r \<in> set t. ob_SentAt r = None}"
proof -
  have "pending [] t = sort_key (\<lambda>r. (ob_CreatedAt r, ob_ID r)) (filter (\<lambda>r. ob_SentAt r = None) t)"
    using assms unfolding pending_def by simp
  then show ?thesis by simp
qed

text \<open>
  C34. The relay delivers at least once and invents nothing, whatever fails: from a state in
  which every row marked as sent is on the broker and the broker holds only records of
  outbox rows, a relay pass, with any produce and commit outcome, leads to such a state
  with the same messages in the table; and a pass that succeeds without filling its
  batch leaves no unsent row behind.
\<close>

theorem relayOnce_at_least_once:
  assumes "relay_sound (t, log)" and "distinct (map ob_ID t)"
    and "relayOnce env locked produce (t, log) = (r, t', log')"
  shows "relay_sound (t', log') \<and> map ob_Message t' = map ob_Message t \<and> (\<exists>new. log' = log @ new)
     \<and> (\<forall>n. r = Inr n \<and> locked = [] \<and> n < relayBatch \<longrightarrow> (\<forall>x \<in> set t'. ob_SentAt x \<noteq> None))"
proof -
  have "ob_SentAt x \<noteq> None" if r: "r = Inr n" "locked = []" "n < relayBatch" and x: "x \<in> set t'" for n x
  proof -
    have n: "n = length (pending [] t)"
      and t': "n = 0 \<or> t' = mark_sent (env_now env) (map ob_ID (pending [] t)) t"
      using relayOnce_cases(4) [OF assms(3) r(1)] r(2) by blast+
    note all = pending_complete [OF r(3) [unfolded n]]
    show ?thesis
    proof (cases "n = 0")
      case True
      then have "t' = t" using relayOnce_cases(3) [OF assms(3)] n r(2) by (auto simp: mark_sent_def update_where_none)
      then show ?thesis using True n all x by auto
    next
      case False
      then show ?thesis using t' x all by (auto simp: mark_sent_def set_update_where split: if_splits)
    qed
  qed
  then show ?thesis
    using relayOnce_sound [OF assms] relayOnce_cases(1,2) [OF assms(3)] by blast
qed

theorem relayOnce_at_least_once_witness:
  "let m = \<lparr>msg_ID = ''m1'', msg_Topic = ''t'', msg_Key = ''k'',
         msg_Payload = \<lparr>ev_EventId = ''m1'', ev_OccurredAt = 0, ev_RequestId = '''', ev_Payload = OtherEvent ''x''\<rparr>\<rparr>;
       t = [\<lparr>ob_Message = m, ob_CreatedAt = 0, ob_SentAt = None\<rparr>];
       env = \<lparr>env_now = 5, env_uuid = (\<lambda>_. None), env_gen_uuid = '''', env_request_id = '''', env_begin = None,
         env_commit = Committed\<rparr>;
       res = relayOnce env [] Acked (t, []) :: (unit goerr + nat) \<times> OutboxRow list \<times> Record list
   in fst res = Inr 1 \<and> relay_sound (snd res) \<and> (\<forall>x \<in> set (fst (snd res)). ob_SentAt x \<noteq> None)"
proof -
  define m where "m = \<lparr>msg_ID = ''m1'', msg_Topic = ''t'', msg_Key = ''k'',
    msg_Payload = \<lparr>ev_EventId = ''m1'', ev_OccurredAt = 0, ev_RequestId = '''', ev_Payload = OtherEvent ''x''\<rparr>\<rparr>"
  define t where "t = [\<lparr>ob_Message = m, ob_CreatedAt = 0, ob_SentAt = None\<rparr>]"
  define env where "env = \<lparr>env_now = 5, env_uuid = (\<lambda>_. None), env_gen_uuid = '''', env_request_id = '''',
    env_begin = None, env_commit = Committed\<rparr>"
  obtain t' log' where res: "relayOnce env [] Acked (t, []) = (Inr 1 :: unit goerr + nat, t', log')"
    by (simp add: relayOnce_def pending_def t_def env_def relayBatch_def Let_def)
  have "relay_sound (t, [])" "distinct (map ob_ID t)" by (simp_all add: relay_sound_def t_def)
  from relayOnce_at_least_once [OF this res] res show ?thesis
    by (simp add: m_def [symmetric] t_def [symmetric] env_def [symmetric] relayBatch_def Let_def)
qed

end
