(* ===== verification/Ledger_Store.thy ===== *)
theory Ledger_Store
  imports Ledger_Domain Outbox
begin

text \<open>
  The ledger database: its tables (\<open>src/services/ledger/migrations\<close>,
  \<open>adapters/postgres/db/models.go\<close>), the SQL statements of
  \<open>adapters/postgres/db/queries.sql.go\<close> with the schema's constraints, and the store
  adapter \<open>adapters/postgres/store.go\<close> that the service calls. Bookkeeping columns no
  statement reads back (\<open>created_at\<close>) are left out. Identifiers are canonical uuid texts,
  whose order is the order of the \<open>uuid\<close> type.
\<close>

section \<open>Rows\<close>

record LedgerAccount =
  la_ID :: string
  la_ExternalAccountID :: "string option"
  la_InternalCode :: "string option"
  la_Type :: string
  la_Currency :: string
  la_Status :: string

record AccountBalance =
  ab_AccountID :: string
  ab_Currency :: string
  ab_Balance :: int64
  ab_Held :: int64
  ab_Version :: int64
  ab_UpdatedAt :: time

record JournalEntry =
  je_ID :: string
  je_ReferenceType :: string
  je_ReferenceID :: string
  je_OccurredAt :: time

record JournalEntryRef =
  jr_ReferenceType :: string
  jr_ReferenceID :: string
  jr_EntryID :: string
  jr_OccurredAt :: time

record PostingRow =
  pr_ID :: string
  pr_EntryID :: string
  pr_AccountID :: string
  pr_Amount :: int64
  pr_Currency :: string
  pr_OccurredAt :: time

record ledger_db =
  ledger_accounts :: "LedgerAccount list"
  account_balances :: "AccountBalance list"
  journal_entries :: "JournalEntry list"
  journal_entry_refs :: "JournalEntryRef list"
  postings :: "PostingRow list"
  holds :: "Hold list"
  outbox :: "OutboxRow list"

section \<open>queries.sql.go\<close>

definition q_GetAccountByExternalID :: "ledger_db \<Rightarrow> string \<Rightarrow> pg_error + LedgerAccount" where
  "q_GetAccountByExternalID s ext = one_row (select_one (\<lambda>a. la_ExternalAccountID a = Some ext) (ledger_accounts s))"

definition q_GetAccountByID :: "ledger_db \<Rightarrow> string \<Rightarrow> pg_error + LedgerAccount" where
  "q_GetAccountByID s ident = one_row (select_one (\<lambda>a. la_ID a = ident) (ledger_accounts s))"

definition q_GetAccountByInternalCode :: "ledger_db \<Rightarrow> string \<Rightarrow> pg_error + LedgerAccount" where
  "q_GetAccountByInternalCode s code = one_row (select_one (\<lambda>a. la_InternalCode a = Some code) (ledger_accounts s))"

record GetBalancesByIDsRow =
  gb_Balance :: AccountBalance
  gb_ExternalAccountID :: "string option"
  gb_InternalCode :: "string option"

definition q_GetBalancesByIDs :: "ledger_db \<Rightarrow> string list \<Rightarrow> GetBalancesByIDsRow list" where
  "q_GetBalancesByIDs s ids =
    [\<lparr>gb_Balance = b, gb_ExternalAccountID = la_ExternalAccountID a, gb_InternalCode = la_InternalCode a\<rparr>.
       b \<leftarrow> account_balances s, a \<leftarrow> ledger_accounts s, la_ID a = ab_AccountID b, ab_AccountID b \<in> set ids]"

definition q_GetEntry :: "ledger_db \<Rightarrow> string \<Rightarrow> time \<Rightarrow> pg_error + JournalEntry" where
  "q_GetEntry s ident occ = one_row (select_one (\<lambda>e. je_ID e = ident \<and> je_OccurredAt e = occ) (journal_entries s))"

text \<open>Both posting queries join the account for its external id.\<close>

definition join_external :: "ledger_db \<Rightarrow> PostingRow list \<Rightarrow> (PostingRow \<times> string option) list" where
  "join_external s ps = [(p, la_ExternalAccountID a). p \<leftarrow> ps, a \<leftarrow> ledger_accounts s, la_ID a = pr_AccountID p]"

definition q_GetEntryPostings :: "ledger_db \<Rightarrow> string \<Rightarrow> time \<Rightarrow> (PostingRow \<times> string option) list" where
  "q_GetEntryPostings s eid occ = sort_key (\<lambda>(p, _). pr_ID p)
     (join_external s (filter (\<lambda>p. pr_EntryID p = eid \<and> pr_OccurredAt p = occ) (postings s)))"

definition q_GetEntryRef :: "ledger_db \<Rightarrow> string \<Rightarrow> string \<Rightarrow> pg_error + JournalEntryRef" where
  "q_GetEntryRef s refType refID =
    one_row (select_one (\<lambda>r. jr_ReferenceType r = refType \<and> jr_ReferenceID r = refID) (journal_entry_refs s))"

definition q_GetHoldByReference :: "ledger_db \<Rightarrow> string \<Rightarrow> string \<Rightarrow> pg_error + Hold" where
  "q_GetHoldByReference s refType refID =
    one_row (select_one (\<lambda>h. hold_ReferenceType h = refType \<and> hold_ReferenceID h = refID) (holds s))"

definition q_InsertBalanceRow :: "tx_env \<Rightarrow> string \<Rightarrow> string \<Rightarrow> ledger_db \<Rightarrow> pg_error + ledger_db" where
  "q_InsertBalanceRow env acct cur s =
    (if acct \<in> ab_AccountID ` set (account_balances s) then Inr s
     else if acct \<notin> la_ID ` set (ledger_accounts s) then Inl ForeignKeyViolation
     else Inr (s\<lparr>account_balances := account_balances s @
       [\<lparr>ab_AccountID = acct, ab_Currency = cur, ab_Balance = 0, ab_Held = 0, ab_Version = 0,
         ab_UpdatedAt = env_now env\<rparr>]\<rparr>))"

definition q_InsertCustomerAccount :: "tx_env \<Rightarrow> string \<Rightarrow> string \<Rightarrow> ledger_db \<Rightarrow> pg_error + LedgerAccount \<times> ledger_db" where
  "q_InsertCustomerAccount env ext cur s =
    (if cur \<notin> {''KZT'', ''USD''} then Inl CheckViolation
     else if Some ext \<in> la_ExternalAccountID ` set (ledger_accounts s) then Inl ErrNoRows
     else if env_gen_uuid env \<in> la_ID ` set (ledger_accounts s) then Inl UniqueViolation
     else let row = \<lparr>la_ID = env_gen_uuid env, la_ExternalAccountID = Some ext, la_InternalCode = None,
                la_Type = ''customer'', la_Currency = cur, la_Status = ''ACTIVE''\<rparr>
          in Inr (row, s\<lparr>ledger_accounts := ledger_accounts s @ [row]\<rparr>))"

definition q_InsertEntry :: "JournalEntry \<Rightarrow> ledger_db \<Rightarrow> pg_error + ledger_db" where
  "q_InsertEntry e s =
    (if (je_ID e, je_OccurredAt e) \<in> (\<lambda>x. (je_ID x, je_OccurredAt x)) ` set (journal_entries s)
     then Inl UniqueViolation else Inr (s\<lparr>journal_entries := journal_entries s @ [e]\<rparr>))"

definition q_InsertEntryRef :: "JournalEntryRef \<Rightarrow> ledger_db \<Rightarrow> pg_error + ledger_db" where
  "q_InsertEntryRef r s =
    (if (jr_ReferenceType r, jr_ReferenceID r) \<in> (\<lambda>x. (jr_ReferenceType x, jr_ReferenceID x)) ` set (journal_entry_refs s)
     then Inl UniqueViolation else Inr (s\<lparr>journal_entry_refs := journal_entry_refs s @ [r]\<rparr>))"

definition q_InsertHold :: "Hold \<Rightarrow> ledger_db \<Rightarrow> pg_error + ledger_db" where
  "q_InsertHold h s =
    (if hold_Amount h \<le>s 0 \<or> hold_Status h \<notin> {HoldActive, HoldCaptured, HoldReleased} then Inl CheckViolation
     else if hold_ID h \<in> hold_ID ` set (holds s)
       \<or> (hold_ReferenceType h, hold_ReferenceID h) \<in> (\<lambda>x. (hold_ReferenceType x, hold_ReferenceID x)) ` set (holds s)
     then Inl UniqueViolation
     else if hold_AccountID h \<notin> la_ID ` set (ledger_accounts s) then Inl ForeignKeyViolation
     else Inr (s\<lparr>holds := holds s @ [h\<lparr>hold_ExpiresAt := pg_timestamptz (hold_ExpiresAt h)\<rparr>]\<rparr>))"

definition q_InsertPosting :: "PostingRow \<Rightarrow> ledger_db \<Rightarrow> pg_error + ledger_db" where
  "q_InsertPosting p s =
    (if pr_Amount p = 0 then Inl CheckViolation
     else if (pr_ID p, pr_OccurredAt p) \<in> (\<lambda>x. (pr_ID x, pr_OccurredAt x)) ` set (postings s) then Inl UniqueViolation
     else if pr_AccountID p \<notin> la_ID ` set (ledger_accounts s)
       \<or> (pr_EntryID p, pr_OccurredAt p) \<notin> (\<lambda>e. (je_ID e, je_OccurredAt e)) ` set (journal_entries s)
     then Inl ForeignKeyViolation
     else Inr (s\<lparr>postings := postings s @ [p]\<rparr>))"

definition q_ListExpiredHolds :: "tx_env \<Rightarrow> ledger_db \<Rightarrow> int32 \<Rightarrow> Hold list" where
  "q_ListExpiredHolds env s n = limit_rows n (sort_key hold_ExpiresAt
     (filter (\<lambda>h. hold_Status h = ''active'' \<and> hold_ExpiresAt h < env_now env) (holds s)))"

definition q_ListPostingsPage ::
  "ledger_db \<Rightarrow> string \<Rightarrow> time \<Rightarrow> time \<Rightarrow> time \<Rightarrow> string \<Rightarrow> int32 \<Rightarrow> (PostingRow \<times> string option) list" where
  "q_ListPostingsPage s acct from to curTime curID n = limit_rows n
     (rev (sort_key (\<lambda>(p, _). (pr_OccurredAt p, pr_ID p)) (join_external s
        (filter (\<lambda>p. pr_AccountID p = acct \<and> from \<le> pr_OccurredAt p \<and> pr_OccurredAt p < to
           \<and> (pr_OccurredAt p, pr_ID p) < (curTime, curID)) (postings s)))))"

definition q_LockBalance :: "ledger_db \<Rightarrow> string \<Rightarrow> pg_error + AccountBalance" where
  "q_LockBalance s acct = one_row (select_one (\<lambda>b. ab_AccountID b = acct) (account_balances s))"

definition q_LockHoldByID :: "ledger_db \<Rightarrow> string \<Rightarrow> pg_error + Hold" where
  "q_LockHoldByID s ident = one_row (select_one (\<lambda>h. hold_ID h = ident) (holds s))"

definition q_SetHoldStatus :: "string \<Rightarrow> string \<Rightarrow> ledger_db \<Rightarrow> pg_error + ledger_db" where
  "q_SetHoldStatus ident st s =
    (if st \<notin> {HoldActive, HoldCaptured, HoldReleased} \<and> ident \<in> hold_ID ` set (holds s) then Inl CheckViolation
     else Inr (s\<lparr>holds := update_where (\<lambda>h. hold_ID h = ident) (\<lambda>h. h\<lparr>hold_Status := st\<rparr>) (holds s)\<rparr>))"

definition q_SumPostingsForAccount :: "ledger_db \<Rightarrow> string \<Rightarrow> int" where
  "q_SumPostingsForAccount s acct = (\<Sum>p\<leftarrow>postings s. if pr_AccountID p = acct then sint (pr_Amount p) else 0)"

definition q_UpdateBalance :: "tx_env \<Rightarrow> string \<Rightarrow> int64 \<Rightarrow> int64 \<Rightarrow> int64 \<Rightarrow> ledger_db \<Rightarrow> pg_error + ledger_db" where
  "q_UpdateBalance env acct bal held ver s =
    (if held <s 0 \<and> acct \<in> ab_AccountID ` set (account_balances s) then Inl CheckViolation
     else Inr (s\<lparr>account_balances := update_where (\<lambda>b. ab_AccountID b = acct)
       (\<lambda>b. b\<lparr>ab_Balance := bal, ab_Held := held, ab_Version := ver, ab_UpdatedAt := env_now env\<rparr>) (account_balances s)\<rparr>))"

text \<open>
  The constraint trigger \<open>check_entry_zero_sum\<close>, deferred to the commit: every entry sums
  to zero in every currency. \<open>sum(amount)\<close> over \<open>bigint\<close> is exact.
\<close>

definition entry_total :: "ledger_db \<Rightarrow> string \<Rightarrow> time \<Rightarrow> string \<Rightarrow> int" where
  "entry_total s eid occ c = (\<Sum>p\<leftarrow>postings s.
     if pr_EntryID p = eid \<and> pr_OccurredAt p = occ \<and> pr_Currency p = c then sint (pr_Amount p) else 0)"

definition check_entry_zero_sum :: "ledger_db \<Rightarrow> bool" where
  "check_entry_zero_sum s \<longleftrightarrow> (\<forall>p \<in> set (postings s). \<forall>q \<in> set (postings s).
     entry_total s (pr_EntryID p) (pr_OccurredAt p) (pr_Currency q) = 0)"

section \<open>store.go\<close>

definition mapErr :: "pg_error \<Rightarrow> ledger_err" where
  "mapErr e = (case e of ErrNoRows \<Rightarrow> Sentinel ErrNotFound | UniqueViolation \<Rightarrow> Sentinel ErrRefConflict | _ \<Rightarrow> rawErr e)"

definition accountFromRow :: "LedgerAccount \<Rightarrow> Account" where
  "accountFromRow r = \<lparr>acct_ID = la_ID r, acct_ExternalID = text_or_empty (la_ExternalAccountID r),
     acct_InternalCode = text_or_empty (la_InternalCode r), acct_Type = la_Type r, acct_Currency = la_Currency r,
     acct_Status = la_Status r\<rparr>"

record AccountRef =
  ref_ExternalID :: string
  ref_InternalCode :: string
  ref_LedgerID :: string

definition getAccountByRef :: "ledger_db \<Rightarrow> AccountRef \<Rightarrow> ledger_err + Account" where
  "getAccountByRef s ref =
    (if ref_ExternalID ref = '''' \<and> ref_InternalCode ref = '''' \<and> ref_LedgerID ref = ''''
     then Inl (Sentinel ErrAccountNotFound)
     else case (if ref_ExternalID ref \<noteq> '''' then q_GetAccountByExternalID s (ref_ExternalID ref)
           else if ref_InternalCode ref \<noteq> '''' then q_GetAccountByInternalCode s (ref_InternalCode ref)
           else q_GetAccountByID s (ref_LedgerID ref)) of
         Inl ErrNoRows \<Rightarrow> Inl (Sentinel ErrAccountNotFound)
       | Inl e \<Rightarrow> Inl (rawErr e)
       | Inr row \<Rightarrow> Inr (accountFromRow row))"

definition UpsertCustomerAccount :: "tx_env \<Rightarrow> string \<Rightarrow> string \<Rightarrow> ledger_db \<Rightarrow> ledger_err + Account \<times> ledger_db" where
  "UpsertCustomerAccount env ext cur s = (case q_InsertCustomerAccount env ext cur s of
      Inl ErrNoRows \<Rightarrow> (case q_GetAccountByExternalID s ext of
          Inl e \<Rightarrow> Inl (mapErr e) | Inr row \<Rightarrow> Inr (accountFromRow row, s))
    | Inl e \<Rightarrow> Inl (mapErr e)
    | Inr (row, s1) \<Rightarrow> (case q_InsertBalanceRow env (la_ID row) cur s1 of
          Inl e \<Rightarrow> Inl (rawErr e) | Inr s2 \<Rightarrow> Inr (accountFromRow row, s2)))"

definition getEntryRef :: "ledger_db \<Rightarrow> string \<Rightarrow> string \<Rightarrow> ledger_err + string \<times> time" where
  "getEntryRef s refType refID = (case q_GetEntryRef s refType refID of
      Inl ErrNoRows \<Rightarrow> Inl (Sentinel ErrNotFound) | Inl e \<Rightarrow> Inl (rawErr e)
    | Inr r \<Rightarrow> Inr (jr_EntryID r, jr_OccurredAt r))"

record PostingView =
  pv_ID :: string
  pv_EntryID :: string
  pv_AccountID :: string
  pv_ExternalAccountID :: string
  pv_Amount :: int64
  pv_Currency :: string
  pv_OccurredAt :: time

record EntryView =
  evw_ID :: string
  evw_ReferenceType :: string
  evw_ReferenceID :: string
  evw_OccurredAt :: time
  evw_Postings :: "PostingView list"

definition postingFromRow :: "PostingRow \<times> string option \<Rightarrow> PostingView" where
  "postingFromRow r = (case r of (p, ext) \<Rightarrow> \<lparr>pv_ID = pr_ID p, pv_EntryID = pr_EntryID p, pv_AccountID = pr_AccountID p,
     pv_ExternalAccountID = text_or_empty ext, pv_Amount = pr_Amount p, pv_Currency = pr_Currency p,
     pv_OccurredAt = pr_OccurredAt p\<rparr>)"

definition getEntryWithPostings :: "ledger_db \<Rightarrow> string \<Rightarrow> time \<Rightarrow> ledger_err + EntryView" where
  "getEntryWithPostings s eid occ = (case q_GetEntry s eid occ of
      Inl ErrNoRows \<Rightarrow> Inl (Sentinel ErrNotFound) | Inl e \<Rightarrow> Inl (rawErr e)
    | Inr e \<Rightarrow> Inr \<lparr>evw_ID = je_ID e, evw_ReferenceType = je_ReferenceType e, evw_ReferenceID = je_ReferenceID e,
        evw_OccurredAt = je_OccurredAt e, evw_Postings = map postingFromRow (q_GetEntryPostings s eid occ)\<rparr>)"

record BalanceRow =
  br_AccountID :: string
  br_ExternalID :: string
  br_InternalCode :: string
  br_Currency :: string
  br_Balance :: int64
  br_Held :: int64
  br_Version :: int64
  br_AsOf :: time

definition store_GetBalances :: "ledger_db \<Rightarrow> string list \<Rightarrow> BalanceRow list" where
  "store_GetBalances s ids = map (\<lambda>r. let b = gb_Balance r in
     \<lparr>br_AccountID = ab_AccountID b, br_ExternalID = text_or_empty (gb_ExternalAccountID r),
       br_InternalCode = text_or_empty (gb_InternalCode r), br_Currency = ab_Currency b, br_Balance = ab_Balance b,
       br_Held = ab_Held b, br_Version = ab_Version b, br_AsOf = ab_UpdatedAt b\<rparr>) (q_GetBalancesByIDs s ids)"

definition store_ListPostings ::
  "ledger_db \<Rightarrow> string \<Rightarrow> time \<Rightarrow> time \<Rightarrow> int32 \<Rightarrow> time \<Rightarrow> string \<Rightarrow> PostingView list" where
  "store_ListPostings s acct from to n curTime curID =
     map postingFromRow (q_ListPostingsPage s acct from to curTime curID n)"

definition store_ListExpiredHolds :: "tx_env \<Rightarrow> ledger_db \<Rightarrow> int32 \<Rightarrow> Hold list" where
  "store_ListExpiredHolds env s n = q_ListExpiredHolds env s n"

definition tx_InsertEntry :: "string \<Rightarrow> string \<Rightarrow> string \<Rightarrow> time \<Rightarrow> ledger_db \<Rightarrow> ledger_err + ledger_db" where
  "tx_InsertEntry ident refType refID occ s = map_left mapErr
     (q_InsertEntry \<lparr>je_ID = ident, je_ReferenceType = refType, je_ReferenceID = refID, je_OccurredAt = occ\<rparr> s)"

definition tx_InsertEntryRef :: "string \<Rightarrow> string \<Rightarrow> string \<Rightarrow> time \<Rightarrow> ledger_db \<Rightarrow> ledger_err + ledger_db" where
  "tx_InsertEntryRef refType refID eid occ s = map_left mapErr
     (q_InsertEntryRef \<lparr>jr_ReferenceType = refType, jr_ReferenceID = refID, jr_EntryID = eid, jr_OccurredAt = occ\<rparr> s)"

definition posting_row :: "PostingView \<Rightarrow> PostingRow" where
  "posting_row p = \<lparr>pr_ID = pv_ID p, pr_EntryID = pv_EntryID p, pr_AccountID = pv_AccountID p, pr_Amount = pv_Amount p,
     pr_Currency = pv_Currency p, pr_OccurredAt = pv_OccurredAt p\<rparr>"

definition tx_InsertPosting :: "PostingView \<Rightarrow> ledger_db \<Rightarrow> ledger_err + ledger_db" where
  "tx_InsertPosting p s = map_left rawErr (q_InsertPosting (posting_row p) s)"

definition balanceFromRow :: "AccountBalance \<Rightarrow> Balance" where
  "balanceFromRow r = \<lparr>bal_AccountID = ab_AccountID r, bal_Currency = ab_Currency r, bal_Balance = ab_Balance r,
     bal_Held = ab_Held r, bal_Version = ab_Version r\<rparr>"

definition tx_LockBalance :: "ledger_db \<Rightarrow> string \<Rightarrow> ledger_err + Balance" where
  "tx_LockBalance s acct = sum_bind (map_left mapErr (q_LockBalance s acct)) (\<lambda>r. Inr (balanceFromRow r))"

definition tx_UpdateBalance :: "tx_env \<Rightarrow> Balance \<Rightarrow> ledger_db \<Rightarrow> ledger_err + ledger_db" where
  "tx_UpdateBalance env b s =
    map_left rawErr (q_UpdateBalance env (bal_AccountID b) (bal_Balance b) (bal_Held b) (bal_Version b) s)"

definition tx_GetHoldByReference :: "ledger_db \<Rightarrow> string \<Rightarrow> string \<Rightarrow> ledger_err + Hold" where
  "tx_GetHoldByReference s refType refID = map_left mapErr (q_GetHoldByReference s refType refID)"

definition tx_LockHoldByID :: "ledger_db \<Rightarrow> string \<Rightarrow> ledger_err + Hold" where
  "tx_LockHoldByID s ident = map_left mapErr (q_LockHoldByID s ident)"

definition tx_InsertHold :: "Hold \<Rightarrow> ledger_db \<Rightarrow> ledger_err + ledger_db" where
  "tx_InsertHold h s = map_left mapErr (q_InsertHold h s)"

definition tx_SetHoldStatus :: "string \<Rightarrow> string \<Rightarrow> ledger_db \<Rightarrow> ledger_err + ledger_db" where
  "tx_SetHoldStatus ident st s = map_left rawErr (q_SetHoldStatus ident st s)"

definition tx_InsertOutbox :: "tx_env \<Rightarrow> Message \<Rightarrow> ledger_db \<Rightarrow> ledger_err + ledger_db" where
  "tx_InsertOutbox env m s = sum_bind (outbox_Insert env m (outbox s)) (\<lambda>t. Inr (s\<lparr>outbox := t\<rparr>))"

definition WithinTx :: "tx_env \<Rightarrow> (ledger_db \<Rightarrow> ledger_err + 'a \<times> ledger_db) \<Rightarrow> ledger_db \<Rightarrow> (ledger_err + 'a) \<times> ledger_db" where
  "WithinTx env fn s = WithTx check_entry_zero_sum env fn s"

end
