(* ===== verification/Ledger_Service.thy ===== *)
theory Ledger_Service
  imports Ledger_Store Go_Text
begin

text \<open>
  The ledger use cases, \<open>src/services/ledger/internal/app\<close>: \<open>errors.go\<close>, \<open>service.go\<close> and
  \<open>sweeper.go\<close>. A transaction runs at Read Committed: the reads that take no row lock
  (accounts, and the idempotency lookups) may see an earlier committed state than the
  statements that lock or insert. A body therefore takes two states, \<open>snap\<close> for the
  unlocked reads and \<open>s\<close> for the rest; without a concurrent writer they are the same.
  Metrics and log lines are left out.
\<close>

section \<open>errors.go\<close>

definition toAppErr :: "ledger_err \<Rightarrow> ledger_err" where
  "toAppErr err =
    (let is = errors_Is err; txt = err_Error sentinel_text err in
     if is ErrInsufficientFunds then app_Wrap CodeInsufficientFunds ''insufficient available funds'' err
     else if is ErrAccountFrozen then app_Wrap CodeAccountFrozen ''account is not active'' err
     else if is ErrCurrencyMismatch \<or> is ErrUnknownCurrency then app_Wrap CodeCurrencyMismatch txt err
     else if is ErrUnbalancedEntry \<or> is ErrTooFewPostings \<or> is ErrZeroPosting \<or> is ErrOverflow
       then app_Wrap CodeUnbalancedEntry txt err
     else if is ErrDuplicateReference
       then app_Wrap CodeAlreadyExists ''reference already used with a different payload'' err
     else if is ErrHoldNotActive \<or> is ErrHoldExceeded \<or> is ErrHoldAccountMismatch \<or> is ErrInvalidHoldAmount
       then app_Wrap CodeInvalidArgument txt err
     else if is ErrAccountNotFound \<or> is ErrNotFound then app_Wrap CodeNotFound ''not found'' err
     else err)"

section \<open>service.go: accounts\<close>

abbreviation TopicTransactions :: string where "TopicTransactions \<equiv> ''ledger.transactions''"
abbreviation uuidMax :: string where "uuidMax \<equiv> ''ffffffff-ffff-ffff-ffff-ffffffffffff''"

definition maxPageSize :: int32 where "maxPageSize = 200"
definition defaultPageSize :: int32 where "defaultPageSize = 50"
definition time_Second :: duration where "time_Second = 1000000000"

text \<open>The one piece of configuration: the lifetime of a hold that asks for none.\<close>

definition NewService :: "duration \<Rightarrow> duration" where
  "NewService holdDefaultTTL = (if holdDefaultTTL \<le>s 0 then 10 * 60 * time_Second else holdDefaultTTL)"

definition CreateAccount :: "tx_env \<Rightarrow> string \<Rightarrow> string \<Rightarrow> ledger_db \<Rightarrow> (ledger_err + Account) \<times> ledger_db" where
  "CreateAccount env externalID currency s =
    (if externalID = '''' then (Inl (app_New CodeInvalidArgument ''external_account_id required''), s)
     else if \<not> ValidCurrency currency
     then (Inl (app_New CodeCurrencyMismatch (''unsupported currency '' @ currency)), s)
     else case WithinTx env (UpsertCustomerAccount env externalID currency) s of
         (Inl err, s') \<Rightarrow> (Inl (toAppErr err), s')
       | (Inr acc, s') \<Rightarrow>
           (if acct_Currency acc \<noteq> currency
            then Inl (app_New CodeAlreadyExists
              (''account '' @ externalID @ '' already exists with currency '' @ acct_Currency acc))
            else Inr acc, s'))"

section \<open>service.go: holds\<close>

text \<open>The body of the transaction of \<open>PlaceHold\<close>: first the replay test, then the reservation.\<close>

definition placeNewHold ::
  "tx_env \<Rightarrow> Account \<Rightarrow> int64 \<Rightarrow> string \<Rightarrow> string \<Rightarrow> string \<Rightarrow> duration \<Rightarrow> ledger_db \<Rightarrow> ledger_err + Hold \<times> ledger_db" where
  "placeNewHold env acct amount currency refType refID ttl s =
    (if currency \<noteq> acct_Currency acct then Inl (Sentinel ErrCurrencyMismatch)
     else if acct_Type acct = TypeCustomer \<and> acct_Status acct \<noteq> StatusActive then Inl (Sentinel ErrAccountFrozen)
     else sum_bind (tx_LockBalance s (acct_ID acct)) (\<lambda>b.
       sum_bind (CanPlaceHold b (acct_Type acct) amount) (\<lambda>_.
       sum_bind (uuid_NewV7 env 0) (\<lambda>hid.
         let hold = \<lparr>hold_ID = hid, hold_AccountID = acct_ID acct, hold_Amount = amount, hold_Currency = currency,
               hold_ReferenceType = refType, hold_ReferenceID = refID, hold_Status = HoldActive,
               hold_ExpiresAt = env_now env + sint ttl\<rparr>
         in sum_bind (tx_InsertHold hold s) (\<lambda>s1.
            sum_bind (tx_UpdateBalance env (b\<lparr>bal_Held := bal_Held b + amount\<rparr>) s1) (\<lambda>s2. Inr (hold, s2)))))))"

definition placeHoldTx ::
  "tx_env \<Rightarrow> ledger_db \<Rightarrow> AccountRef \<Rightarrow> int64 \<Rightarrow> string \<Rightarrow> string \<Rightarrow> string \<Rightarrow> duration
     \<Rightarrow> ledger_db \<Rightarrow> ledger_err + Hold \<times> ledger_db" where
  "placeHoldTx env snap ref amount currency refType refID ttl s =
    sum_bind (getAccountByRef snap ref) (\<lambda>acct.
      case tx_GetHoldByReference snap refType refID of
        Inr existing \<Rightarrow>
          if hold_AccountID existing \<noteq> acct_ID acct \<or> hold_Amount existing \<noteq> amount
          then Inl (Sentinel ErrDuplicateReference) else Inr (existing, s)
      | Inl err \<Rightarrow>
          if \<not> errors_Is err ErrNotFound then Inl err
          else placeNewHold env acct amount currency refType refID ttl s)"

text \<open>
  \<open>PlaceHold\<close> calls itself when it lost the race for the reference. Each attempt is given by
  its inputs, the snapshot of its unlocked reads and what other clients committed before
  it; \<open>None\<close> is a call that is still running when the listed attempts are used up.
\<close>

record hold_attempt =
  at_env :: tx_env
  at_others :: "ledger_db \<Rightarrow> ledger_db"
  at_snap :: "ledger_db \<Rightarrow> ledger_db"

fun PlaceHold ::
  "duration \<Rightarrow> hold_attempt list \<Rightarrow> AccountRef \<Rightarrow> int64 \<Rightarrow> string \<Rightarrow> string \<Rightarrow> string \<Rightarrow> duration
     \<Rightarrow> ledger_db \<Rightarrow> (ledger_err + Hold) option \<times> ledger_db" where
  "PlaceHold dflt [] ref amount currency refType refID ttl s = (None, s)"
| "PlaceHold dflt (a # as) ref amount currency refType refID ttl s =
    (if refType = '''' \<or> refID = '''' then (Some (Inl (app_New CodeInvalidArgument ''reference required'')), s)
     else
       let ttl' = (if ttl \<le>s 0 then dflt else ttl);
           s0 = at_others a s
       in case WithinTx (at_env a) (placeHoldTx (at_env a) (at_snap a s0) ref amount currency refType refID ttl') s0 of
            (Inl err, s') \<Rightarrow>
              if errors_Is err ErrRefConflict then PlaceHold dflt as ref amount currency refType refID ttl' s'
              else (Some (Inl (toAppErr err)), s')
          | (Inr hold, s') \<Rightarrow> (Some (Inr hold), s'))"

definition releaseHoldTx :: "tx_env \<Rightarrow> string \<Rightarrow> ledger_db \<Rightarrow> ledger_err + Hold \<times> ledger_db" where
  "releaseHoldTx env holdID s =
    sum_bind (tx_LockHoldByID s holdID) (\<lambda>h.
    sum_bind (domain_ReleaseHold h) (\<lambda>(released, changed).
      if \<not> changed then Inr (released, s)
      else sum_bind (tx_LockBalance s (hold_AccountID h)) (\<lambda>b.
        let b' = b\<lparr>bal_Held := bal_Held b - hold_Amount h\<rparr>
        in if bal_Held b' <s 0 then Inl (Opaque (''held underflow on account '' @ hold_AccountID h))
           else sum_bind (tx_UpdateBalance env b' s) (\<lambda>s1.
             sum_bind (tx_SetHoldStatus (hold_ID h) HoldReleased s1) (\<lambda>s2. Inr (released, s2))))))"

definition ReleaseHold :: "tx_env \<Rightarrow> string \<Rightarrow> ledger_db \<Rightarrow> (ledger_err + Hold) \<times> ledger_db" where
  "ReleaseHold env holdID s = (case WithinTx env (releaseHoldTx env holdID) s of
      (Inl err, s') \<Rightarrow> (Inl (toAppErr err), s') | (Inr hold, s') \<Rightarrow> (Inr hold, s'))"

section \<open>service.go: posting\<close>

record PostingSpec =
  spec_Ref :: AccountRef
  spec_Amount :: int64
  spec_Currency :: string

definition addInt64 :: "int64 \<Rightarrow> int64 \<Rightarrow> int64 option" where
  "addInt64 a b = (let sum = a + b in
     if (0 <s b \<and> sum <s a) \<or> (b <s 0 \<and> a <s sum) then None else Some sum)"

text \<open>\<open>samePayload\<close> counts each leg up for the stored entry and down for the request.\<close>

type_synonym leg = "string \<times> int64 \<times> string"

definition bump :: "int \<Rightarrow> leg \<Rightarrow> (leg \<times> int) list \<Rightarrow> (leg \<times> int) list" where
  "bump d l count = AList.update l ((case map_of count l of None \<Rightarrow> 0 | Some n \<Rightarrow> n) + d) count"

definition samePayload :: "EntryView \<Rightarrow> Posting list \<Rightarrow> bool" where
  "samePayload existing requested \<longleftrightarrow>
    (if length (evw_Postings existing) \<noteq> length requested then False
     else
       let count1 = fold (\<lambda>p. bump 1 (pv_AccountID p, pv_Amount p, pv_Currency p)) (evw_Postings existing) [];
           count2 = fold (\<lambda>p. bump (- 1) (post_AccountID p, post_Amount p, post_Currency p)) requested count1
       in \<forall>(_, n) \<in> set count2. n = 0)"

definition entryToProto :: "EntryView \<Rightarrow> JournalEntryMsg" where
  "entryToProto v = \<lparr>jm_Id = evw_ID v, jm_ReferenceType = evw_ReferenceType v, jm_ReferenceId = evw_ReferenceID v,
     jm_OccurredAt = evw_OccurredAt v,
     jm_Postings = map (\<lambda>p. \<lparr>pm_Id = pv_ID p, pm_EntryId = pv_EntryID p, pm_AccountId = pv_AccountID p,
       pm_ExternalAccountId = pv_ExternalAccountID p,
       pm_Amount = \<lparr>MinorUnits = pv_Amount p, MoneyCurrency = pv_Currency p\<rparr>, pm_OccurredAt = pv_OccurredAt p\<rparr>)
       (evw_Postings v)\<rparr>"

text \<open>Step 1: the account of every leg.\<close>

definition resolveSpec :: "ledger_db \<Rightarrow> PostingSpec \<Rightarrow> (string \<times> Account) list \<times> Posting list \<times> string list
     \<Rightarrow> ledger_err + (string \<times> Account) list \<times> Posting list \<times> string list" where
  "resolveSpec snap spec acc = (case acc of (accounts, ps, order) \<Rightarrow>
     sum_bind (getAccountByRef snap (spec_Ref spec)) (\<lambda>acct.
       Inr (AList.update (acct_ID acct) acct accounts,
            ps @ [\<lparr>post_AccountID = acct_ID acct, post_Amount = spec_Amount spec, post_Currency = spec_Currency spec\<rparr>],
            order @ [acct_ID acct])))"

definition resolveSpecs :: "ledger_db \<Rightarrow> PostingSpec list
     \<Rightarrow> ledger_err + (string \<times> Account) list \<times> Posting list \<times> string list" where
  "resolveSpecs snap specs = fold_err (resolveSpec snap) specs ([], [], [])"

text \<open>After the validation: the net delta per account.\<close>

definition addDelta :: "Posting \<Rightarrow> (string \<times> int64) list \<Rightarrow> ledger_err + (string \<times> int64) list" where
  "addDelta p delta = (case addInt64 (go_get delta (post_AccountID p)) (post_Amount p) of
      None \<Rightarrow> Inl (Sentinel ErrOverflow) | Some d \<Rightarrow> Inr (AList.update (post_AccountID p) d delta))"

definition netDelta :: "Posting list \<Rightarrow> ledger_err + (string \<times> int64) list" where
  "netDelta ps = fold_err addDelta ps []"

text \<open>Step 4, the hold: it is captured, and its amount leaves \<open>held\<close> with the balance update.\<close>

definition captureHoldStep ::
  "string \<Rightarrow> string \<Rightarrow> string \<Rightarrow> (string \<times> int64) list \<Rightarrow> ledger_db \<Rightarrow> ledger_err + (string \<times> int64) list \<times> ledger_db" where
  "captureHoldStep refType refID holdID delta s =
    (if holdID = '''' then Inr ([], s)
     else case tx_LockHoldByID s holdID of
         Inl err \<Rightarrow> Inl (if errors_Is err ErrNotFound then Sentinel ErrHoldNotActive else err)
       | Inr h \<Rightarrow>
           if hold_ReferenceType h \<noteq> refType \<or> hold_ReferenceID h \<noteq> refID then Inl (Sentinel ErrHoldAccountMismatch)
           else
             let d = go_get delta (hold_AccountID h); debit = (if 0 <s d then 0 else d)
             in sum_bind (CaptureHold h debit) (\<lambda>captured.
                sum_bind (tx_SetHoldStatus (hold_ID captured) (hold_Status captured) s) (\<lambda>s1.
                  Inr ([(hold_AccountID h, - hold_Amount h)], s1))))"

text \<open>Step 4, the balances: one account of the sorted list.\<close>

definition account_at :: "(string \<times> Account) list \<Rightarrow> string \<Rightarrow> Account" where
  "account_at accounts ident = (case map_of accounts ident of Some a \<Rightarrow> a
    | None \<Rightarrow> \<lparr>acct_ID = '''', acct_ExternalID = '''', acct_InternalCode = '''', acct_Type = '''', acct_Currency = '''',
        acct_Status = ''''\<rparr>)"

definition applyDelta ::
  "(string \<times> Account) list \<Rightarrow> (string \<times> int64) list \<Rightarrow> (string \<times> int64) list \<Rightarrow> ledger_db \<Rightarrow> string \<Rightarrow> ledger_err + Balance" where
  "applyDelta accounts delta heldAdj s ident =
    sum_bind (tx_LockBalance s ident) (\<lambda>b.
      let b' = b\<lparr>bal_Held := bal_Held b + go_get heldAdj ident\<rparr>
      in if bal_Held b' <s 0 then Inl (Opaque (''held underflow on account '' @ ident))
         else ApplyPosting b' (acct_Type (account_at accounts ident)) (go_get delta ident))"

text \<open>Step 5: the entry, its reference and its postings.\<close>

definition appendPosting :: "tx_env \<Rightarrow> string \<Rightarrow> time \<Rightarrow> (string \<times> Account) list \<Rightarrow> nat \<times> Posting \<times> string
     \<Rightarrow> PostingView list \<times> ledger_db \<Rightarrow> ledger_err + PostingView list \<times> ledger_db" where
  "appendPosting env entryID occ accounts ipo acc = (case (ipo, acc) of ((i, p, ordi), (views, s)) \<Rightarrow>
     sum_bind (uuid_NewV7 env (Suc i)) (\<lambda>pid.
       let pv = \<lparr>pv_ID = pid, pv_EntryID = entryID, pv_AccountID = post_AccountID p,
             pv_ExternalAccountID = acct_ExternalID (account_at accounts ordi), pv_Amount = post_Amount p,
             pv_Currency = post_Currency p, pv_OccurredAt = occ\<rparr>
       in sum_bind (tx_InsertPosting pv s) (\<lambda>s1. Inr (views @ [pv], s1))))"

definition appendEntry :: "tx_env \<Rightarrow> string \<Rightarrow> string \<Rightarrow> (string \<times> Account) list \<Rightarrow> Posting list \<Rightarrow> string list
     \<Rightarrow> ledger_db \<Rightarrow> ledger_err + EntryView \<times> ledger_db" where
  "appendEntry env refType refID accounts ps order s =
    (let occ = pg_timestamptz (env_now env) in
     sum_bind (uuid_NewV7 env 0) (\<lambda>entryID.
     sum_bind (tx_InsertEntry entryID refType refID occ s) (\<lambda>s1.
     sum_bind (tx_InsertEntryRef refType refID entryID occ s1) (\<lambda>s2.
     sum_bind (fold_err (appendPosting env entryID occ accounts) (zip [0..<length ps] (zip ps order)) ([], s2))
       (\<lambda>(views, s3). Inr (\<lparr>evw_ID = entryID, evw_ReferenceType = refType, evw_ReferenceID = refID,
          evw_OccurredAt = occ, evw_Postings = views\<rparr>, s3))))))"

text \<open>Step 7: one event per affected account.\<close>

definition postedEvent :: "Account \<Rightarrow> EntryView \<Rightarrow> string \<Rightarrow> Balance \<Rightarrow> Event" where
  "postedEvent acct view ident b = TransactionPosted
     \<lparr>tp_Entry = entryToProto view, tp_AccountId = ident, tp_ExternalAccountId = acct_ExternalID acct,
      tp_Currency = acct_Currency acct, tp_BalanceAfter = bal_Balance b, tp_Version = bal_Version b\<rparr>"

definition emitEvent :: "tx_env \<Rightarrow> nat \<Rightarrow> (string \<times> Account) list \<Rightarrow> EntryView \<Rightarrow> nat \<times> string \<times> Balance \<Rightarrow> ledger_db
     \<Rightarrow> ledger_err + ledger_db" where
  "emitEvent env n accounts view jib s = (case jib of (j, ident, b) \<Rightarrow>
     let acct = account_at accounts ident;
         key = (if acct_ExternalID acct = '''' then acct_InternalCode acct else acct_ExternalID acct)
     in sum_bind (NewProtoMessage env (Suc n + j) TopicTransactions key (env_request_id env) (postedEvent acct view ident b))
          (\<lambda>msg. tx_InsertOutbox env msg s))"


text \<open>
  The body of the transaction. \<open>affected\<close> is the sorted list of the accounts with a net
  delta; \<open>balances\<close> lists their new balances in that order.
\<close>

definition postNew :: "tx_env \<Rightarrow> string \<Rightarrow> string \<Rightarrow> string \<Rightarrow> (string \<times> Account) list \<Rightarrow> Posting list \<Rightarrow> string list
     \<Rightarrow> ledger_db \<Rightarrow> ledger_err + EntryView \<times> ledger_db" where
  "postNew env refType refID holdID accounts ps order s =
    sum_bind (ValidateEntry ps accounts) (\<lambda>_.
    sum_bind (netDelta ps) (\<lambda>delta.
    sum_bind (captureHoldStep refType refID holdID delta s) (\<lambda>(heldAdj, s1).
    let affected = sort (map fst delta) in
    sum_bind (map_err (applyDelta accounts delta heldAdj s1) affected) (\<lambda>balances.
    sum_bind (appendEntry env refType refID accounts ps order s1) (\<lambda>(view, s2).
    sum_bind (fold_err (tx_UpdateBalance env) balances s2) (\<lambda>s3.
    sum_bind (fold_err (emitEvent env (length ps) accounts view)
      (zip [0..<length affected] (zip affected balances)) s3) (\<lambda>s4.
    Inr (view, s4))))))))"

definition postOnceTx :: "tx_env \<Rightarrow> ledger_db \<Rightarrow> string \<Rightarrow> string \<Rightarrow> string \<Rightarrow> PostingSpec list
     \<Rightarrow> ledger_db \<Rightarrow> ledger_err + EntryView \<times> ledger_db" where
  "postOnceTx env snap refType refID holdID specs s =
    sum_bind (resolveSpecs snap specs) (\<lambda>(accounts, ps, order).
      case getEntryRef snap refType refID of
        Inr (entryID, occ) \<Rightarrow>
          sum_bind (getEntryWithPostings snap entryID occ) (\<lambda>existing.
            if \<not> samePayload existing ps then Inl (Sentinel ErrDuplicateReference) else Inr (existing, s))
      | Inl err \<Rightarrow>
          if \<not> errors_Is err ErrNotFound then Inl err
          else postNew env refType refID holdID accounts ps order s)"

definition postOnce :: "tx_env \<Rightarrow> ledger_db \<Rightarrow> string \<Rightarrow> string \<Rightarrow> string \<Rightarrow> PostingSpec list
     \<Rightarrow> ledger_db \<Rightarrow> (ledger_err + EntryView) \<times> ledger_db" where
  "postOnce env snap refType refID holdID specs s =
     WithinTx env (postOnceTx env snap refType refID holdID specs) s"

definition replayByReference :: "ledger_db \<Rightarrow> string \<Rightarrow> string \<Rightarrow> PostingSpec list \<Rightarrow> ledger_err + EntryView" where
  "replayByReference s refType refID specs = map_left toAppErr
    (sum_bind (getEntryRef s refType refID) (\<lambda>(entryID, occ).
     sum_bind (getEntryWithPostings s entryID occ) (\<lambda>existing.
     sum_bind (map_err (\<lambda>spec. sum_bind (getAccountByRef s (spec_Ref spec)) (\<lambda>acct.
         Inr \<lparr>post_AccountID = acct_ID acct, post_Amount = spec_Amount spec, post_Currency = spec_Currency spec\<rparr>)) specs)
       (\<lambda>requested. if \<not> samePayload existing requested then Inl (Sentinel ErrDuplicateReference) else Inr existing))))"

definition PostTransaction :: "tx_env \<Rightarrow> ledger_db \<Rightarrow> string \<Rightarrow> string \<Rightarrow> string \<Rightarrow> PostingSpec list
     \<Rightarrow> ledger_db \<Rightarrow> (ledger_err + EntryView) \<times> ledger_db" where
  "PostTransaction env snap refType refID holdID specs s =
    (if refType = '''' \<or> refID = '''' then (Inl (app_New CodeInvalidArgument ''reference required''), s)
     else case postOnce env snap refType refID holdID specs s of
         (Inl err, s') \<Rightarrow>
           (if errors_Is err ErrRefConflict then replayByReference s' refType refID specs else Inl (toAppErr err), s')
       | (Inr view, s') \<Rightarrow> (Inr view, s'))"

section \<open>service.go: reads\<close>

definition GetTransactionByReference :: "ledger_db \<Rightarrow> string \<Rightarrow> string \<Rightarrow> ledger_err + EntryView" where
  "GetTransactionByReference s refType refID = map_left toAppErr
    (sum_bind (getEntryRef s refType refID) (\<lambda>(entryID, occ). getEntryWithPostings s entryID occ))"

definition GetBalances :: "ledger_db \<Rightarrow> AccountRef list \<Rightarrow> ledger_err + BalanceRow list" where
  "GetBalances s refs =
    (if refs = [] then Inl (app_New CodeInvalidArgument ''accounts required'')
     else map_left toAppErr (sum_bind (map_err (getAccountByRef s) refs) (\<lambda>accts.
       Inr (store_GetBalances s (map acct_ID accts)))))"

definition encodeCursor :: "time \<Rightarrow> string \<Rightarrow> string" where
  "encodeCursor t ident = EncodeToString (FormatInt (sint (word_of_int (t div 1000) :: int64)) @ ''|'' @ ident)"

definition decodeCursor :: "string \<Rightarrow> ledger_err + time \<times> string" where
  "decodeCursor cur = (case DecodeString cur of
      None \<Rightarrow> Inl (Opaque ''illegal base64 data'')
    | Some raw \<Rightarrow> (case SplitN2 CHR ''|'' raw of
        [micros, ident] \<Rightarrow> (case ParseInt micros of
            Inl _ \<Rightarrow> Inl (Opaque ''strconv.ParseInt'')
          | Inr m \<Rightarrow> Inr (m * 1000, ident))
      | _ \<Rightarrow> Inl (Opaque ''bad cursor'')))"

definition clampPageSize :: "int32 \<Rightarrow> int32" where
  "clampPageSize pageSize =
    (let p = (if pageSize \<le>s 0 then defaultPageSize else pageSize) in if maxPageSize <s p then maxPageSize else p)"

definition ListPostings ::
  "ledger_db \<Rightarrow> AccountRef \<Rightarrow> time \<Rightarrow> time \<Rightarrow> int32 \<Rightarrow> string \<Rightarrow> ledger_err + PostingView list \<times> string" where
  "ListPostings s ref from to pageSize cursor =
    (if from = zeroTime \<or> to = zeroTime \<or> \<not> from < to
     then Inl (app_New CodeInvalidArgument ''a valid [from, to) time range is required'')
     else
       let size = clampPageSize pageSize in
       sum_bind (map_left toAppErr (getAccountByRef s ref)) (\<lambda>acct.
       sum_bind (if cursor = '''' then Inr (to, uuidMax)
           else map_left (app_Wrap CodeInvalidArgument ''malformed cursor'') (decodeCursor cursor)) (\<lambda>(curTime, curID).
         let rows = store_ListPostings s (acct_ID acct) from to (size + 1) curTime curID
         in if nat (sint size) < length rows
            then let page = take (nat (sint size)) rows
              in Inr (page, encodeCursor (pv_OccurredAt (last page)) (pv_ID (last page)))
            else Inr (rows, ''''))))"

section \<open>sweeper.go\<close>

text \<open>One sweep: every expired hold is released on its own; failures are logged and skipped.\<close>

definition sweepOne :: "(string \<Rightarrow> tx_env) \<Rightarrow> Hold \<Rightarrow> ledger_db \<Rightarrow> ledger_db" where
  "sweepOne envs h s = snd (ReleaseHold (envs (hold_ID h)) (hold_ID h) s)"

definition sweep :: "tx_env \<Rightarrow> (string \<Rightarrow> tx_env) \<Rightarrow> ledger_db \<Rightarrow> ledger_db" where
  "sweep env envs s = fold (sweepOne envs) (store_ListExpiredHolds env s 100) s"

end
