(* ===== verification/Ledger_Effects.thy ===== *)
theory Ledger_Effects
  imports Ledger_Service
begin

text \<open>
  What a successful ledger operation does to the tables, one lemma per step of
  \<open>service.go\<close>: the rows it found, the rows it appended and the rows it rewrote. The
  invariants of \<open>Ledger_Invariant\<close> are proved from these facts and not from the code.
\<close>

interpretation bal_table: keyed_table ab_AccountID
    "\<lambda>k. select_one (\<lambda>b. ab_AccountID b = k)" "\<lambda>k. update_where (\<lambda>b. ab_AccountID b = k)"
  by unfold_locales simp_all

interpretation hold_table: keyed_table hold_ID
    "\<lambda>k. select_one (\<lambda>h. hold_ID h = k)" "\<lambda>k. update_where (\<lambda>h. hold_ID h = k)"
  by unfold_locales simp_all

interpretation account_table: keyed_table la_ID
    "\<lambda>k. select_one (\<lambda>a. la_ID a = k)" "\<lambda>k. update_where (\<lambda>a. la_ID a = k)"
  by unfold_locales simp_all

section \<open>Statements\<close>

lemma tx_LockBalance_Inr:
  "tx_LockBalance s k = Inr b \<longleftrightarrow>
     (\<exists>r. select_one (\<lambda>b. ab_AccountID b = k) (account_balances s) = Some r \<and> b = balanceFromRow r)"
  by (auto simp: tx_LockBalance_def q_LockBalance_def sum_bind_Inr_iff)

lemma tx_LockHoldByID_Inr:
  "tx_LockHoldByID s k = Inr h \<longleftrightarrow> select_one (\<lambda>h. hold_ID h = k) (holds s) = Some h"
  by (simp add: tx_LockHoldByID_def q_LockHoldByID_def)

lemma tx_GetHoldByReference_Inr:
  "tx_GetHoldByReference s t i = Inr h \<longleftrightarrow>
     select_one (\<lambda>h. hold_ReferenceType h = t \<and> hold_ReferenceID h = i) (holds s) = Some h"
  by (simp add: tx_GetHoldByReference_def q_GetHoldByReference_def)

text \<open>The row a balance is written back to.\<close>

definition set_balance :: "tx_env \<Rightarrow> Balance \<Rightarrow> AccountBalance \<Rightarrow> AccountBalance" where
  "set_balance env b r = r\<lparr>ab_Balance := bal_Balance b, ab_Held := bal_Held b, ab_Version := bal_Version b,
     ab_UpdatedAt := env_now env\<rparr>"

lemma set_balance_simps [simp]:
  "ab_AccountID (set_balance env b r) = ab_AccountID r" "ab_Currency (set_balance env b r) = ab_Currency r"
  "ab_Balance (set_balance env b r) = bal_Balance b" "ab_Held (set_balance env b r) = bal_Held b"
  "ab_Version (set_balance env b r) = bal_Version b"
  by (simp_all add: set_balance_def)

lemma balanceFromRow_simps [simp]:
  "bal_AccountID (balanceFromRow r) = ab_AccountID r" "bal_Currency (balanceFromRow r) = ab_Currency r"
  "bal_Balance (balanceFromRow r) = ab_Balance r" "bal_Held (balanceFromRow r) = ab_Held r"
  "bal_Version (balanceFromRow r) = ab_Version r"
  by (simp_all add: balanceFromRow_def)

lemma tx_UpdateBalance_Inr:
  "tx_UpdateBalance env b s = Inr s' \<longleftrightarrow>
     (bal_AccountID b \<in> ab_AccountID ` set (account_balances s) \<longrightarrow> 0 \<le> sint (bal_Held b)) \<and>
     s' = s\<lparr>account_balances := update_where (\<lambda>r. ab_AccountID r = bal_AccountID b) (set_balance env b) (account_balances s)\<rparr>"
  by (auto simp: tx_UpdateBalance_def q_UpdateBalance_def set_balance_def [abs_def] int64_simps)

lemma tx_SetHoldStatus_Inr:
  "st \<in> {HoldActive, HoldCaptured, HoldReleased} \<Longrightarrow>
   tx_SetHoldStatus k st s = Inr s' \<longleftrightarrow>
     s' = s\<lparr>holds := update_where (\<lambda>h. hold_ID h = k) (\<lambda>h. h\<lparr>hold_Status := st\<rparr>) (holds s)\<rparr>"
  by (auto simp: tx_SetHoldStatus_def q_SetHoldStatus_def)

text \<open>Writing back several balances, each account once.\<close>

definition set_balances :: "tx_env \<Rightarrow> Balance list \<Rightarrow> AccountBalance list \<Rightarrow> AccountBalance list" where
  "set_balances env bs t = map (\<lambda>r. case map_of (map (\<lambda>b. (bal_AccountID b, b)) bs) (ab_AccountID r) of
      None \<Rightarrow> r | Some b \<Rightarrow> set_balance env b r) t"

lemma fold_UpdateBalance:
  assumes "fold_err (tx_UpdateBalance env) bs s = Inr s'" and "distinct (map bal_AccountID bs)"
  shows "s' = s\<lparr>account_balances := set_balances env bs (account_balances s)\<rparr>"
  using assms
proof (induction bs arbitrary: s)
  case Nil
  then show ?case by (simp add: set_balances_def)
next
  case (Cons b bs)
  have other: "map_of (map (\<lambda>b. (bal_AccountID b, b)) bs) (bal_AccountID b) = None"
    using Cons.prems(2) by (force simp: map_of_eq_None_iff)
  have "set_balances env bs (update_where (\<lambda>r. ab_AccountID r = bal_AccountID b) (set_balance env b) t)
      = set_balances env (b # bs) t" for t
    by (induction t) (auto simp: set_balances_def other)
  moreover obtain s1 where s1: "tx_UpdateBalance env b s = Inr s1" and "fold_err (tx_UpdateBalance env) bs s1 = Inr s'"
    using Cons.prems(1) by auto
  then have "s' = s1\<lparr>account_balances := set_balances env bs (account_balances s1)\<rparr>"
    using Cons.IH Cons.prems(2) by simp
  ultimately show ?case using s1 by (simp add: tx_UpdateBalance_Inr)
qed

section \<open>Accounts and references\<close>

lemma getAccountByRef_Inr:
  assumes "getAccountByRef s ref = Inr a"
  obtains row where "row \<in> set (ledger_accounts s)" and "a = accountFromRow row"
  using assms
  by (auto simp: getAccountByRef_def q_GetAccountByExternalID_def q_GetAccountByInternalCode_def q_GetAccountByID_def
      split: sum.splits pg_error.splits if_splits dest!: select_one_Some)

lemma getEntryRef_Inr:
  "getEntryRef s t i = Inr (e, occ) \<longleftrightarrow> (\<exists>r. jr_EntryID r = e \<and> jr_OccurredAt r = occ \<and>
     select_one (\<lambda>r. jr_ReferenceType r = t \<and> jr_ReferenceID r = i) (journal_entry_refs s) = Some r)"
  by (auto simp: getEntryRef_def q_GetEntryRef_def one_row_def split: option.splits)

lemma getEntryRef_Inl:
  "getEntryRef s t i = Inl err \<longleftrightarrow> err = Sentinel ErrNotFound \<and>
     (t, i) \<notin> (\<lambda>r. (jr_ReferenceType r, jr_ReferenceID r)) ` set (journal_entry_refs s)"
  by (auto simp: getEntryRef_def q_GetEntryRef_def one_row_def select_one_None split: sum.splits pg_error.splits option.splits
      dest!: select_one_Some)

lemma accountFromRow_simps [simp]:
  "acct_ID (accountFromRow r) = la_ID r" "acct_Type (accountFromRow r) = la_Type r"
  "acct_Currency (accountFromRow r) = la_Currency r" "acct_Status (accountFromRow r) = la_Status r"
  by (simp_all add: accountFromRow_def)

text \<open>The accounts map that step 1 builds only holds accounts of the table, under their own id.\<close>

definition accounts_from :: "ledger_db \<Rightarrow> (string \<times> Account) list \<Rightarrow> bool" where
  "accounts_from s accounts \<longleftrightarrow>
     (\<forall>(k, a) \<in> set accounts. \<exists>row \<in> set (ledger_accounts s). a = accountFromRow row \<and> k = la_ID row)"

lemma accounts_fromD:
  assumes "accounts_from s accounts" and "map_of accounts k = Some a"
  obtains row where "row \<in> set (ledger_accounts s)" and "a = accountFromRow row" and "la_ID row = k"
  using assms by (auto simp: accounts_from_def dest!: map_of_SomeD)

lemma accounts_from_mono:
  "accounts_from s accounts \<Longrightarrow> set (ledger_accounts s) \<subseteq> set (ledger_accounts s') \<Longrightarrow> accounts_from s' accounts"
  by (fastforce simp: accounts_from_def)

lemma resolveSpecs_Inr:
  assumes "resolveSpecs snap specs = Inr (accounts, ps, order)"
  shows "order = map post_AccountID ps" and "accounts_from snap accounts"
proof -
  have "order = map post_AccountID ps \<and> accounts_from snap accounts"
    if "fold_err (resolveSpec snap) specs (acc0, ps0, order0) = Inr (accounts, ps, order)"
      and "order0 = map post_AccountID ps0" and "accounts_from snap acc0" for acc0 ps0 order0
    using that
  proof (induction specs arbitrary: acc0 ps0 order0)
    case (Cons spec specs)
    then obtain a where a: "getAccountByRef snap (spec_Ref spec) = Inr a"
      and rest: "fold_err (resolveSpec snap) specs (AList.update (acct_ID a) a acc0,
          ps0 @ [\<lparr>post_AccountID = acct_ID a, post_Amount = spec_Amount spec, post_Currency = spec_Currency spec\<rparr>],
          order0 @ [acct_ID a]) = Inr (accounts, ps, order)"
      by (simp add: sum_bind_Inr_iff resolveSpec_def [of snap spec]) blast
    obtain row where row: "row \<in> set (ledger_accounts snap)" "a = accountFromRow row"
      using getAccountByRef_Inr [OF a] .
    have "set (AList.update (acct_ID a) a acc0) \<subseteq> insert (acct_ID a, a) (set acc0)"
      by (induction acc0) auto
    then have "accounts_from snap (AList.update (acct_ID a) a acc0)"
      using Cons.prems(3) row unfolding accounts_from_def by force
    then show ?case using Cons.IH [OF rest] Cons.prems(2) by simp
  qed simp
  from this [OF assms [unfolded resolveSpecs_def]] show "order = map post_AccountID ps" and "accounts_from snap accounts"
    by (simp_all add: accounts_from_def)
qed

section \<open>Posting\<close>

lemma addDelta_checked:
  "addDelta p m = sum_bind (case addInt64 (go_get m (post_AccountID p)) (post_Amount p) of
      None \<Rightarrow> Inl (Sentinel ErrOverflow) | Some d \<Rightarrow> Inr d) (\<lambda>d. Inr (AList.update (post_AccountID p) d m))"
  by (simp add: addDelta_def split: option.splits)

interpretation delta_add: checked_add "\<lambda>a b. case addInt64 a b of
    None \<Rightarrow> Inl (Sentinel ErrOverflow :: ledger_err) | Some d \<Rightarrow> Inr d"
proof unfold_locales
  fix a b c :: int64
  have "(case addInt64 a b of None \<Rightarrow> Inl (Sentinel ErrOverflow :: ledger_err) | Some d \<Rightarrow> Inr d)
      = (if (0 <s b \<and> a + b <s a) \<or> (b <s 0 \<and> a <s a + b) then Inl (Sentinel ErrOverflow) else Inr (a + b))"
    by (simp add: addInt64_def Let_def)
  then show "(case addInt64 a b of None \<Rightarrow> Inl (Sentinel ErrOverflow :: ledger_err) | Some d \<Rightarrow> Inr d) = Inr c
      \<longleftrightarrow> sint c = sint a + sint b"
    by (simp only: checked_add_test)
qed


definition account_total :: "string \<Rightarrow> Posting list \<Rightarrow> int" where
  "account_total k ps = (\<Sum>p\<leftarrow>ps. if post_AccountID p = k then sint (post_Amount p) else 0)"

lemma netDelta_Inr:
  assumes "netDelta ps = Inr delta"
  shows "sint (go_get delta k) = account_total k ps" and "fst ` set delta = post_AccountID ` set ps"
    and "distinct (map fst delta)"
proof -
  note fold = assms [unfolded netDelta_def addDelta_checked [abs_def]]
  show "sint (go_get delta k) = account_total k ps"
    using delta_add.accumulate_exact [OF fold, of k] by (simp add: account_total_def)
  show "fst ` set delta = post_AccountID ` set ps"
    using delta_add.accumulate_keys [OF fold] by simp
  show "distinct (map fst delta)"
    using delta_add.accumulate_distinct [OF fold] by simp
qed

lemma captureHoldStep_Inr:
  assumes "captureHoldStep refType refID holdID delta s = Inr (heldAdj, s1)"
  obtains (no_hold) "holdID = ''''" "heldAdj = []" "s1 = s"
  | (captured) h where "holdID \<noteq> ''''" "select_one (\<lambda>h. hold_ID h = holdID) (holds s) = Some h"
      "hold_ReferenceType h = refType" "hold_ReferenceID h = refID" "hold_Status h = HoldActive"
      "heldAdj = [(hold_AccountID h, - hold_Amount h)]"
      "s1 = s\<lparr>holds := update_where (\<lambda>h. hold_ID h = holdID) (\<lambda>h. h\<lparr>hold_Status := HoldCaptured\<rparr>) (holds s)\<rparr>"
proof (cases "holdID = ''''")
  case True
  then show ?thesis using assms no_hold by (simp add: captureHoldStep_def)
next
  case False
  obtain h h' s2 where h: "tx_LockHoldByID s holdID = Inr h" and cap: "CaptureHold h (let d = go_get delta (hold_AccountID h) in if 0 <s d then 0 else d) = Inr h'"
    and ref: "hold_ReferenceType h = refType" "hold_ReferenceID h = refID"
    and set: "tx_SetHoldStatus (hold_ID h') (hold_Status h') s = Inr s2"
    and res: "heldAdj = [(hold_AccountID h, - hold_Amount h)]" "s1 = s2"
    using assms False by (auto simp: captureHoldStep_def Let_def split: sum.splits if_splits)
  have sel: "select_one (\<lambda>h. hold_ID h = holdID) (holds s) = Some h" using h by (simp add: tx_LockHoldByID_Inr)
  then have "hold_ID h = holdID" by (auto dest: select_one_Some)
  moreover from cap have "hold_Status h = HoldActive" "h' = h\<lparr>hold_Status := HoldCaptured\<rparr>" by (simp_all add: CaptureHold_Inr)
  ultimately show ?thesis using captured [OF False sel ref] set res by (simp add: tx_SetHoldStatus_Inr)
qed

lemma applyDelta_Inr:
  assumes "applyDelta accounts delta heldAdj s k = Inr b"
  obtains r where "select_one (\<lambda>r. ab_AccountID r = k) (account_balances s) = Some r"
    and "0 \<le> sint (ab_Held r + go_get heldAdj k)"
    and "ApplyPosting (balanceFromRow r\<lparr>bal_Held := ab_Held r + go_get heldAdj k\<rparr>)
        (acct_Type (account_at accounts k)) (go_get delta k) = Inr b"
  using assms by (auto simp: applyDelta_def Let_def tx_LockBalance_Inr int64_simps split: if_splits)

text \<open>A stored leg of an entry.\<close>

definition leg_view :: "(string \<times> Account) list \<Rightarrow> string \<Rightarrow> time \<Rightarrow> Posting \<Rightarrow> string \<Rightarrow> PostingView \<Rightarrow> bool" where
  "leg_view accounts e occ p k v \<longleftrightarrow> pv_ExternalAccountID v = acct_ExternalID (account_at accounts k) \<and> pv_EntryID v = e \<and> pv_OccurredAt v = occ \<and> pv_AccountID v = post_AccountID p
     \<and> pv_Amount v = post_Amount p \<and> pv_Currency v = post_Currency p"

lemma appendPosting_Inr:
  assumes "appendPosting env e occ accounts (i, p, ordi) (vs, s) = Inr x"
  obtains v where "leg_view accounts e occ p ordi v" and "x = (vs @ [v], s\<lparr>postings := postings s @ [posting_row v]\<rparr>)"
proof -
  obtain pid where x: "x = (vs @ [\<lparr>pv_ID = pid, pv_EntryID = e, pv_AccountID = post_AccountID p,
      pv_ExternalAccountID = acct_ExternalID (account_at accounts ordi), pv_Amount = post_Amount p,
      pv_Currency = post_Currency p, pv_OccurredAt = occ\<rparr>], s\<lparr>postings := postings s @ [posting_row
        \<lparr>pv_ID = pid, pv_EntryID = e, pv_AccountID = post_AccountID p,
         pv_ExternalAccountID = acct_ExternalID (account_at accounts ordi), pv_Amount = post_Amount p,
         pv_Currency = post_Currency p, pv_OccurredAt = occ\<rparr>]\<rparr>)"
    using assms by (auto simp: appendPosting_def Let_def tx_InsertPosting_def q_InsertPosting_def split: if_splits)
  show ?thesis by (rule that [OF _ x]) (simp add: leg_view_def)
qed

lemma fold_appendPosting:
  assumes "fold_err (appendPosting env e occ accounts) ipos (vs, s) = Inr (vs', s')"
  obtains new where "vs' = vs @ new" and "s' = s\<lparr>postings := postings s @ map posting_row new\<rparr>"
    and "list_all2 (\<lambda>(_, p, k). leg_view accounts e occ p k) ipos new"
proof -
  have "\<exists>new. vs' = vs @ new \<and> s' = s\<lparr>postings := postings s @ map posting_row new\<rparr>
      \<and> list_all2 (\<lambda>(_, p, k). leg_view accounts e occ p k) ipos new"
    using assms
  proof (induction ipos arbitrary: vs s)
    case Nil
    then show ?case by simp
  next
    case (Cons ipo ipos)
    obtain i p ordi where ipo: "ipo = (i, p, ordi)" by (cases ipo) auto
    obtain v s1 where one: "leg_view accounts e occ p ordi v" "s1 = s\<lparr>postings := postings s @ [posting_row v]\<rparr>"
      and rest: "fold_err (appendPosting env e occ accounts) ipos (vs @ [v], s1) = Inr (vs', s')"
      using Cons.prems by (auto simp: ipo elim!: appendPosting_Inr)
    obtain new where "vs' = (vs @ [v]) @ new" "s' = s1\<lparr>postings := postings s1 @ map posting_row new\<rparr>"
      "list_all2 (\<lambda>(_, p, k). leg_view accounts e occ p k) ipos new"
      using Cons.IH [OF rest] by blast
    then show ?case using one by (intro exI [of _ "v # new"]) (simp add: ipo)

  qed
  then show ?thesis using that by blast
qed

lemma appendEntry_Inr:
  assumes "appendEntry env refType refID accounts ps (map post_AccountID ps) s = Inr (view, s')"
  obtains e occ where "occ = pg_timestamptz (env_now env)"
    and "(e, occ) \<notin> (\<lambda>x. (je_ID x, je_OccurredAt x)) ` set (journal_entries s)"
    and "(refType, refID) \<notin> (\<lambda>x. (jr_ReferenceType x, jr_ReferenceID x)) ` set (journal_entry_refs s)"
    and "evw_ID view = e" and "evw_OccurredAt view = occ" and "evw_ReferenceType view = refType"
    and "evw_ReferenceID view = refID" and "list_all2 (\<lambda>p. leg_view accounts e occ p (post_AccountID p)) ps (evw_Postings view)"
    and "s' = s\<lparr>journal_entries := journal_entries s
             @ [\<lparr>je_ID = e, je_ReferenceType = refType, je_ReferenceID = refID, je_OccurredAt = occ\<rparr>],
           journal_entry_refs := journal_entry_refs s
             @ [\<lparr>jr_ReferenceType = refType, jr_ReferenceID = refID, jr_EntryID = e, jr_OccurredAt = occ\<rparr>],
           postings := postings s @ map posting_row (evw_Postings view)\<rparr>"
proof -
  define occ where "occ = pg_timestamptz (env_now env)"
  obtain e s1 s2 views where ins: "tx_InsertEntry e refType refID occ s = Inr s1" "tx_InsertEntryRef refType refID e occ s1 = Inr s2"
    and fold: "fold_err (appendPosting env e occ accounts) (zip [0..<length ps] (zip ps (map post_AccountID ps))) ([], s2)
        = Inr (views, s')"
    and view: "view = \<lparr>evw_ID = e, evw_ReferenceType = refType, evw_ReferenceID = refID, evw_OccurredAt = occ, evw_Postings = views\<rparr>"
    using assms by (auto simp: appendEntry_def Let_def occ_def)
  obtain new where new: "views = new" "s' = s2\<lparr>postings := postings s2 @ map posting_row new\<rparr>"
    and legs: "list_all2 (\<lambda>(_, p, k). leg_view accounts e occ p k) (zip [0..<length ps] (zip ps (map post_AccountID ps))) new"
    using fold_appendPosting [OF fold] by auto
  have "list_all2 (\<lambda>p. leg_view accounts e occ p (post_AccountID p)) ps new"
    using legs by (auto simp: list_all2_conv_all_nth)
  then show ?thesis
    using that [OF occ_def, of e] ins new view
    by (auto simp: tx_InsertEntry_def tx_InsertEntryRef_def q_InsertEntry_def q_InsertEntryRef_def split: if_splits)
qed

text \<open>The payload of an outbox row.\<close>

definition ob_event :: "OutboxRow \<Rightarrow> Event" where
  "ob_event r = ev_Payload (msg_Payload (ob_Message r))"

lemma emitEvent_Inr:
  assumes "emitEvent env n accounts view (j, k, b) s = Inr s'"
  obtains m where "s' = s\<lparr>outbox := outbox s @ [m]\<rparr>"
    and "ob_event m = postedEvent (account_at accounts k) view k b"
proof -
  obtain msg where "s' = s\<lparr>outbox := outbox s @ [\<lparr>ob_Message = msg, ob_CreatedAt = env_now env, ob_SentAt = None\<rparr>]\<rparr>"
    "ev_Payload (msg_Payload msg) = postedEvent (account_at accounts k) view k b"
    using assms by (auto simp: emitEvent_def Let_def tx_InsertOutbox_def outbox_Insert_Inr dest!: NewProtoMessage_Inr)
  then show ?thesis by (auto simp: ob_event_def intro: that)
qed

lemma fold_emitEvent:
  assumes "fold_err (emitEvent env n accounts view) xs s = Inr s'"
  obtains new where "s' = s\<lparr>outbox := outbox s @ new\<rparr>"
    and "map ob_event new
      = map (\<lambda>(_, k, b). postedEvent (account_at accounts k) view k b) xs"
proof -
  have "\<exists>new. s' = s\<lparr>outbox := outbox s @ new\<rparr> \<and> map ob_event new
      = map (\<lambda>(_, k, b). postedEvent (account_at accounts k) view k b) xs"
    using assms
  proof (induction xs arbitrary: s)
    case Nil
    then show ?case by simp
  next
    case (Cons x xs)
    obtain j k b where x: "x = (j, k, b)" by (cases x) auto
    obtain s1 m where s1: "s1 = s\<lparr>outbox := outbox s @ [m]\<rparr>"
        "ob_event m = postedEvent (account_at accounts k) view k b"
      and rest: "fold_err (emitEvent env n accounts view) xs s1 = Inr s'"
      using Cons.prems by (auto simp: x elim!: emitEvent_Inr)
    obtain new where "s' = s1\<lparr>outbox := outbox s1 @ new\<rparr>" "map ob_event new
        = map (\<lambda>(_, k, b). postedEvent (account_at accounts k) view k b) xs"
      using Cons.IH [OF rest] by blast
    then show ?case using s1 by (intro exI [of _ "m # new"]) (simp add: x)
  qed
  then show ?thesis using that by blast
qed

text \<open>
  The whole effect of a new posting, with the validated legs \<open>ps\<close>, the net deltas, the new
  balances and what was appended.
\<close>

lemma postNew_Inr:
  assumes "postNew env refType refID holdID accounts ps (map post_AccountID ps) s = Inr (view, s')"
  obtains delta heldAdj s1 bs e occ new where "ValidateEntry ps accounts = Inr ()" and "netDelta ps = Inr delta"
    and "captureHoldStep refType refID holdID delta s = Inr (heldAdj, s1)"
    and "list_all2 (\<lambda>k b. applyDelta accounts delta heldAdj s1 k = Inr b) (sort (map fst delta)) bs"
    and "occ = pg_timestamptz (env_now env)"
    and "(e, occ) \<notin> (\<lambda>x. (je_ID x, je_OccurredAt x)) ` set (journal_entries s)"
    and "(refType, refID) \<notin> (\<lambda>x. (jr_ReferenceType x, jr_ReferenceID x)) ` set (journal_entry_refs s)"
    and "evw_ID view = e" and "evw_OccurredAt view = occ" and "evw_ReferenceType view = refType"
    and "evw_ReferenceID view = refID" and "list_all2 (\<lambda>p. leg_view accounts e occ p (post_AccountID p)) ps (evw_Postings view)"
    and "map ob_event new
        = map (\<lambda>(k, b). postedEvent (account_at accounts k) view k b) (zip (sort (map fst delta)) bs)"
    and "s' = s1\<lparr>journal_entries := journal_entries s
             @ [\<lparr>je_ID = e, je_ReferenceType = refType, je_ReferenceID = refID, je_OccurredAt = occ\<rparr>],
           journal_entry_refs := journal_entry_refs s
             @ [\<lparr>jr_ReferenceType = refType, jr_ReferenceID = refID, jr_EntryID = e, jr_OccurredAt = occ\<rparr>],
           postings := postings s @ map posting_row (evw_Postings view),
           account_balances := set_balances env bs (account_balances s),
           outbox := outbox s @ new\<rparr>"
proof -
  obtain delta heldAdj s1 bs s2 s3 where valid: "ValidateEntry ps accounts = Inr ()" and net: "netDelta ps = Inr delta"
    and cap: "captureHoldStep refType refID holdID delta s = Inr (heldAdj, s1)"
    and app: "list_all2 (\<lambda>k b. applyDelta accounts delta heldAdj s1 k = Inr b) (sort (map fst delta)) bs"
    and entry: "appendEntry env refType refID accounts ps (map post_AccountID ps) s1 = Inr (view, s2)"
    and upd: "fold_err (tx_UpdateBalance env) bs s2 = Inr s3"
    and emit: "fold_err (emitEvent env (length ps) accounts view)
        (zip [0..<length (sort (map fst delta))] (zip (sort (map fst delta)) bs)) s3 = Inr s'"
    using assms unfolding postNew_def Let_def
    by (elim sum_bind_InrE) (auto simp: map_err_Inr_iff split_beta elim!: sum_bind_InrE)
  have s1: "journal_entries s1 = journal_entries s" "journal_entry_refs s1 = journal_entry_refs s"
    "postings s1 = postings s" "account_balances s1 = account_balances s" "outbox s1 = outbox s"
    by (rule captureHoldStep_Inr [OF cap]; simp)+
  have "map bal_AccountID bs = sort (map fst delta)"
    using app by (induction rule: list_all2_induct)
      (auto simp: applyDelta_def Let_def tx_LockBalance_Inr ApplyPosting_Inr split: if_splits dest!: select_one_Some)
  then have dist: "distinct (map bal_AccountID bs)" using netDelta_Inr(3) [OF net] by simp
  have len: "length (sort (map fst delta)) = length bs" using app by (rule list_all2_lengthD)
  obtain new where new: "s' = s3\<lparr>outbox := outbox s3 @ new\<rparr>" "map ob_event new
      = map (\<lambda>(_, k, b). postedEvent (account_at accounts k) view k b)
          (zip [0..<length (sort (map fst delta))] (zip (sort (map fst delta)) bs))"
    using fold_emitEvent [OF emit] .
  have "map ob_event new
      = map (\<lambda>(k, b). postedEvent (account_at accounts k) view k b) (zip (sort (map fst delta)) bs)"
    unfolding new(2) by (rule nth_equalityI) (use len in auto)
  note events = this
  show ?thesis
  proof (rule appendEntry_Inr [OF entry, unfolded s1])
    fix e occ
    assume facts: "occ = pg_timestamptz (env_now env)"
      "(e, occ) \<notin> (\<lambda>x. (je_ID x, je_OccurredAt x)) ` set (journal_entries s)"
      "(refType, refID) \<notin> (\<lambda>x. (jr_ReferenceType x, jr_ReferenceID x)) ` set (journal_entry_refs s)"
      "evw_ID view = e" "evw_OccurredAt view = occ" "evw_ReferenceType view = refType"
      "evw_ReferenceID view = refID" "list_all2 (\<lambda>p. leg_view accounts e occ p (post_AccountID p)) ps (evw_Postings view)"
    assume "s2 = s1\<lparr>journal_entries := journal_entries s
             @ [\<lparr>je_ID = e, je_ReferenceType = refType, je_ReferenceID = refID, je_OccurredAt = occ\<rparr>],
           journal_entry_refs := journal_entry_refs s
             @ [\<lparr>jr_ReferenceType = refType, jr_ReferenceID = refID, jr_EntryID = e, jr_OccurredAt = occ\<rparr>],
           postings := postings s @ map posting_row (evw_Postings view)\<rparr>"
    then show thesis
      by (intro that [OF valid net cap app facts events]) (simp add: fold_UpdateBalance [OF upd dist] new(1) s1)
  qed
qed

end
