(* ===== verification/Ledger_Invariant.thy ===== *)
theory Ledger_Invariant
  imports Ledger_Effects
begin

text \<open>
  The invariants of \<open>docs/services/ledger-service.md\<close> on the ledger database, and that every
  operation of the service preserves them under any interleaving of transactions, with
  failing, lost and half-seen commits.
\<close>

section \<open>The invariants\<close>

text \<open>Every account has one balance row, in its currency.\<close>

definition accounts_ok :: "ledger_db \<Rightarrow> bool" where
  "accounts_ok s \<longleftrightarrow> distinct (map la_ID (ledger_accounts s)) \<and>
     map (\<lambda>r. (ab_AccountID r, ab_Currency r)) (account_balances s) = map (\<lambda>a. (la_ID a, la_Currency a)) (ledger_accounts s)"

text \<open>The reference registry mirrors the journal, and a posting belongs to an entry and to an account of its currency.\<close>

definition entry_key :: "JournalEntry \<Rightarrow> string \<times> time" where
  "entry_key e = (je_ID e, je_OccurredAt e)"

definition posting_key :: "PostingRow \<Rightarrow> string \<times> time" where
  "posting_key p = (pr_EntryID p, pr_OccurredAt p)"

definition journal_ok :: "ledger_db \<Rightarrow> bool" where
  "journal_ok s \<longleftrightarrow> distinct (map entry_key (journal_entries s)) \<and>
     distinct (map (\<lambda>e. (je_ReferenceType e, je_ReferenceID e)) (journal_entries s)) \<and>
     map (\<lambda>r. (jr_ReferenceType r, jr_ReferenceID r, jr_EntryID r, jr_OccurredAt r)) (journal_entry_refs s)
       = map (\<lambda>e. (je_ReferenceType e, je_ReferenceID e, je_ID e, je_OccurredAt e)) (journal_entries s)"

definition postings_ok :: "ledger_db \<Rightarrow> bool" where
  "postings_ok s \<longleftrightarrow> (\<forall>p \<in> set (postings s). posting_key p \<in> entry_key ` set (journal_entries s) \<and> pr_Amount p \<noteq> 0 \<and>
     (pr_AccountID p, pr_Currency p) \<in> (\<lambda>a. (la_ID a, la_Currency a)) ` set (ledger_accounts s))"

text \<open>Invariant 1: an entry has two legs or more and sums to zero in every currency.\<close>

definition legs :: "ledger_db \<Rightarrow> string \<times> time \<Rightarrow> PostingRow list" where
  "legs s k = filter (\<lambda>p. posting_key p = k) (postings s)"

definition row_total :: "string \<Rightarrow> PostingRow list \<Rightarrow> int" where
  "row_total c ps = (\<Sum>p\<leftarrow>ps. if pr_Currency p = c then sint (pr_Amount p) else 0)"

definition entries_ok :: "ledger_db \<Rightarrow> bool" where
  "entries_ok s \<longleftrightarrow> (\<forall>e \<in> set (journal_entries s). 2 \<le> length (legs s (entry_key e))
     \<and> (\<forall>c. row_total c (legs s (entry_key e)) = 0))"

text \<open>Invariant 4: the materialized balance is the sum of the postings.\<close>

definition balances_ok :: "ledger_db \<Rightarrow> bool" where
  "balances_ok s \<longleftrightarrow> (\<forall>r \<in> set (account_balances s). sint (ab_Balance r) = q_SumPostingsForAccount s (ab_AccountID r))"

text \<open>
  Invariants 3 and 7: what is held is not negative, covers the active holds, and is covered
  by the balance of a customer account.
\<close>

definition is_customer :: "ledger_db \<Rightarrow> string \<Rightarrow> bool" where
  "is_customer s k \<longleftrightarrow> (\<exists>a \<in> set (ledger_accounts s). la_ID a = k \<and> la_Type a = TypeCustomer)"

definition active_total :: "string \<Rightarrow> Hold list \<Rightarrow> int" where
  "active_total k hs = (\<Sum>h\<leftarrow>hs. if hold_AccountID h = k \<and> hold_Status h = HoldActive then sint (hold_Amount h) else 0)"

definition held_ok :: "ledger_db \<Rightarrow> bool" where
  "held_ok s \<longleftrightarrow> (\<forall>r \<in> set (account_balances s). 0 \<le> sint (ab_Held r)
     \<and> (is_customer s (ab_AccountID r) \<longrightarrow> sint (ab_Held r) \<le> sint (ab_Balance r))
     \<and> active_total (ab_AccountID r) (holds s) \<le> sint (ab_Held r))"

definition holds_ok :: "ledger_db \<Rightarrow> bool" where
  "holds_ok s \<longleftrightarrow> distinct (map hold_ID (holds s)) \<and>
     distinct (map (\<lambda>h. (hold_ReferenceType h, hold_ReferenceID h)) (holds s)) \<and>
     (\<forall>h \<in> set (holds s). 0 < sint (hold_Amount h) \<and> hold_Status h \<in> {HoldActive, HoldCaptured, HoldReleased}
        \<and> hold_AccountID h \<in> la_ID ` set (ledger_accounts s))"

text \<open>
  Invariant 5 and the outbox: the events of an account carry the versions 1, 2, 3, and so on
  in order, the row carries the version of the last one, and that event its balance.
\<close>

fun posted_of :: "string \<Rightarrow> Event \<Rightarrow> TransactionPostedMsg list" where
  "posted_of k (TransactionPosted m) = (if tp_AccountId m = k then [m] else [])"
| "posted_of k _ = []"

definition account_events :: "ledger_db \<Rightarrow> string \<Rightarrow> TransactionPostedMsg list" where
  "account_events s k = concat (map (posted_of k \<circ> ob_event) (outbox s))"

definition events_ok :: "ledger_db \<Rightarrow> bool" where
  "events_ok s \<longleftrightarrow> (\<forall>r \<in> set (account_balances s). let es = account_events s (ab_AccountID r) in
     map tp_Version es = map of_nat [1..<Suc (length es)] \<and> ab_Version r = of_nat (length es) \<and>
     ab_Balance r = (if es = [] then 0 else tp_BalanceAfter (last es)))
     \<and> (\<forall>k. k \<notin> la_ID ` set (ledger_accounts s) \<longrightarrow> account_events s k = [])"

definition ledger_inv :: "ledger_db \<Rightarrow> bool" where
  "ledger_inv s \<longleftrightarrow> accounts_ok s \<and> journal_ok s \<and> postings_ok s \<and> entries_ok s \<and> balances_ok s \<and> held_ok s
     \<and> holds_ok s \<and> events_ok s"

lemmas ledger_inv_defs = accounts_ok_def journal_ok_def postings_ok_def entries_ok_def balances_ok_def held_ok_def
  holds_ok_def events_ok_def

lemma ledger_invD:
  assumes "ledger_inv s"
  shows "accounts_ok s" "journal_ok s" "postings_ok s" "entries_ok s" "balances_ok s" "held_ok s" "holds_ok s" "events_ok s"
  using assms by (simp_all add: ledger_inv_def)

text \<open>The invariant only reads the tables, so rewriting a bookkeeping column keeps it.\<close>

lemma accounts_ok_keys:
  assumes "accounts_ok s"
  shows "distinct (map ab_AccountID (account_balances s))" and "map ab_AccountID (account_balances s) = map la_ID (ledger_accounts s)"
    and "r \<in> set (account_balances s) \<Longrightarrow> a \<in> set (ledger_accounts s) \<Longrightarrow> la_ID a = ab_AccountID r \<Longrightarrow> ab_Currency r = la_Currency a"
proof -
  let ?f = "\<lambda>r. (ab_AccountID r, ab_Currency r)" and ?g = "\<lambda>a. (la_ID a, la_Currency a)"
  have eq: "map ?f (account_balances s) = map ?g (ledger_accounts s)" and dist: "distinct (map la_ID (ledger_accounts s))"
    using assms by (simp_all add: accounts_ok_def)
  show keys: "map ab_AccountID (account_balances s) = map la_ID (ledger_accounts s)"
    using arg_cong [OF eq, of "map fst"] by (simp add: comp_def)
  then show "distinct (map ab_AccountID (account_balances s))" using dist by simp
  show "ab_Currency r = la_Currency a"
    if "r \<in> set (account_balances s)" "a \<in> set (ledger_accounts s)" "la_ID a = ab_AccountID r"
  proof -
    have "?f r \<in> set (map ?g (ledger_accounts s))" using that(1) unfolding eq [symmetric] by auto
    then obtain a' where "a' \<in> set (ledger_accounts s)" "la_ID a' = ab_AccountID r" "la_Currency a' = ab_Currency r" by auto
    then show ?thesis using that(2,3) dist by (metis distinct_map inj_onD)
  qed
qed

section \<open>The initial database\<close>

text \<open>The four internal accounts of \<open>migrations/000001_init.up.sql\<close> with zero balances.\<close>

definition internal_account :: "string \<Rightarrow> string \<Rightarrow> string \<Rightarrow> LedgerAccount" where
  "internal_account ident code cur = \<lparr>la_ID = ident, la_ExternalAccountID = None, la_InternalCode = Some code,
     la_Type = ''internal'', la_Currency = cur, la_Status = ''ACTIVE''\<rparr>"

definition initial_db :: "time \<Rightarrow> ledger_db" where
  "initial_db now =
    (let accts = [internal_account ''00000000-0000-7000-8000-00000000ca01'' ''cash_in_kzt'' ''KZT'',
         internal_account ''00000000-0000-7000-8000-00000000ca02'' ''cash_in_usd'' ''USD'',
         internal_account ''00000000-0000-7000-8000-00000000f001'' ''fx_position_kzt'' ''KZT'',
         internal_account ''00000000-0000-7000-8000-00000000f002'' ''fx_position_usd'' ''USD'']
     in \<lparr>ledger_accounts = accts,
       account_balances = map (\<lambda>a. \<lparr>ab_AccountID = la_ID a, ab_Currency = la_Currency a, ab_Balance = 0, ab_Held = 0,
         ab_Version = 0, ab_UpdatedAt = now\<rparr>) accts,
       journal_entries = [], journal_entry_refs = [], postings = [], holds = [], outbox = []\<rparr>)"

lemma initial_db_inv: "ledger_inv (initial_db now)"
  by (simp add: ledger_inv_def ledger_inv_defs initial_db_def internal_account_def Let_def q_SumPostingsForAccount_def
      active_total_def account_events_def is_customer_def)

section \<open>Holds\<close>

lemmas view_defs = q_SumPostingsForAccount_def account_events_def is_customer_def legs_def

lemma update_balance_rows:
  assumes "accounts_ok s" and "select_one (\<lambda>r. ab_AccountID r = k) (account_balances s) = Some r"
    and "x \<in> set (update_where (\<lambda>r. ab_AccountID r = k) f (account_balances s))"
  shows "ab_AccountID r = k \<and> r \<in> set (account_balances s) \<and>
     (x = f r \<or> (x \<in> set (account_balances s) \<and> ab_AccountID x \<noteq> k))"
proof -
  have r: "ab_AccountID r = k" "r \<in> set (account_balances s)" using assms(2) by (auto dest: select_one_Some)
  obtain y where y: "y \<in> set (account_balances s)" "x = (if ab_AccountID y = k then f y else y)"
    using assms(3) by (auto simp: set_update_where split: if_splits)
  have "y = r" if "ab_AccountID y = k"
    using accounts_ok_keys(1) [OF assms(1)] r y(1) that by (metis distinct_map inj_onD)
  then show ?thesis using r y by auto
qed

text \<open>
  Changing the held amount of one account together with the holds. The new amount \<open>h\<close> must
  be covered and cover.
\<close>

lemma ledger_inv_held:
  assumes inv: "ledger_inv s" and row: "select_one (\<lambda>r. ab_AccountID r = k) (account_balances s) = Some r"
    and s': "s' = s\<lparr>holds := hs, account_balances := update_where (\<lambda>r. ab_AccountID r = k)
        (set_balance env (balanceFromRow r\<lparr>bal_Held := h\<rparr>)) (account_balances s)\<rparr>"
    and holds: "holds_ok s'" and h: "0 \<le> sint h" "is_customer s k \<longrightarrow> sint h \<le> sint (ab_Balance r)"
    and act: "active_total k hs \<le> sint h" "\<And>k'. k' \<noteq> k \<Longrightarrow> active_total k' hs \<le> active_total k' (holds s)"
  shows "ledger_inv s'"
proof -
  note acc = ledger_invD(1) [OF inv]
  note rows = update_balance_rows [OF acc row]
  have "map (\<lambda>r. (ab_AccountID r, ab_Currency r)) (account_balances s') = map (\<lambda>r. (ab_AccountID r, ab_Currency r)) (account_balances s)"
    by (simp add: s' update_where_def)
  then have "accounts_ok s'" using acc by (simp add: accounts_ok_def s')
  moreover have "journal_ok s'" "postings_ok s'" "entries_ok s'"
    using ledger_invD(2-4) [OF inv] by (simp_all add: ledger_inv_defs view_defs s')
  moreover have "balances_ok s'" using ledger_invD(5) [OF inv]
    by (auto simp: balances_ok_def view_defs s' dest!: rows)
  moreover have "held_ok s'" unfolding held_ok_def
  proof
    fix x assume x: "x \<in> set (account_balances s')"
    let ?P = "\<lambda>x s. 0 \<le> sint (ab_Held x) \<and> (is_customer s (ab_AccountID x) \<longrightarrow> sint (ab_Held x) \<le> sint (ab_Balance x))
        \<and> active_total (ab_AccountID x) (holds s) \<le> sint (ab_Held x)"
    have cust: "is_customer s' = is_customer s" by (simp add: is_customer_def [abs_def] s')
    from rows [of x] x consider "x = set_balance env (balanceFromRow r\<lparr>bal_Held := h\<rparr>) r" "ab_AccountID r = k"
      | "x \<in> set (account_balances s)" "ab_AccountID x \<noteq> k" by (auto simp: s')
    then show "?P x s'"
    proof cases
      case 1
      then show ?thesis using h act(1) unfolding cust by (simp add: s')
    next
      case 2
      then have "?P x s" using ledger_invD(6) [OF inv] by (simp add: held_ok_def)
      then show ?thesis using act(2) [OF 2(2)] unfolding cust by (simp add: s')
    qed
  qed
  moreover have "events_ok s'" using ledger_invD(8) [OF inv]
    by (auto simp: events_ok_def view_defs s' Let_def dest!: rows)
  ultimately show ?thesis using holds by (simp add: ledger_inv_def)
qed

lemma active_total_append [simp]: "active_total k (hs @ hs') = active_total k hs + active_total k hs'"
  by (simp add: active_total_def)

lemma active_total_set_status:
  assumes "distinct (map hold_ID hs)" and "select_one (\<lambda>h. hold_ID h = i) hs = Some h" and "st \<noteq> HoldActive"
  shows "active_total k (update_where (\<lambda>h. hold_ID h = i) (\<lambda>h. h\<lparr>hold_Status := st\<rparr>) hs)
    = active_total k hs - (if hold_AccountID h = k \<and> hold_Status h = HoldActive then sint (hold_Amount h) else 0)"
  unfolding active_total_def by (subst hold_table.sum_update [OF assms(1,2)]) (use assms(3) in simp)

lemma holds_ok_set_status:
  assumes "holds_ok s" and "st \<in> {HoldActive, HoldCaptured, HoldReleased}"
    and "holds s' = update_where (\<lambda>h. hold_ID h = i) (\<lambda>h. h\<lparr>hold_Status := st\<rparr>) (holds s)"
    and "ledger_accounts s' = ledger_accounts s"
  shows "holds_ok s'"
proof -
  have "map hold_ID (holds s') = map hold_ID (holds s)"
    "map (\<lambda>h. (hold_ReferenceType h, hold_ReferenceID h)) (holds s') = map (\<lambda>h. (hold_ReferenceType h, hold_ReferenceID h)) (holds s)"
    by (simp_all add: assms(3) update_where_def)
  then show ?thesis using assms by (auto simp: holds_ok_def set_update_where)
qed

lemma placeNewHold_inv:
  assumes inv: "ledger_inv s" and acct: "row \<in> set (ledger_accounts s)"
    and place: "placeNewHold env (accountFromRow row) amount currency refType refID ttl s = Inr (hold, s')"
  shows "ledger_inv s'"
proof -
  let ?k = "la_ID row"
  obtain r hid s1 where r: "select_one (\<lambda>r. ab_AccountID r = ?k) (account_balances s) = Some r"
    and can: "CanPlaceHold (balanceFromRow r) (la_Type row) amount = Inr ()"
    and ins: "tx_InsertHold hold s = Inr s1"
    and hold: "hold = \<lparr>hold_ID = hid, hold_AccountID = ?k, hold_Amount = amount, hold_Currency = currency,
       hold_ReferenceType = refType, hold_ReferenceID = refID, hold_Status = HoldActive, hold_ExpiresAt = env_now env + sint ttl\<rparr>"
    and upd: "tx_UpdateBalance env (balanceFromRow r\<lparr>bal_Held := ab_Held r + amount\<rparr>) s1 = Inr s'"
    using place by (auto simp: placeNewHold_def tx_LockBalance_Inr Let_def split: if_splits)
  have rk: "ab_AccountID r = ?k" "r \<in> set (account_balances s)" using r by (auto dest: select_one_Some)
  define hs where "hs = holds s @ [hold\<lparr>hold_ExpiresAt := pg_timestamptz (hold_ExpiresAt hold)\<rparr>]"
  have s1: "s1 = s\<lparr>holds := hs\<rparr>" "holds_ok s1"
    using ins ledger_invD(7) [OF inv]
    by (auto simp: tx_InsertHold_def q_InsertHold_def hs_def holds_ok_def int64_simps split: if_splits)
  have s': "s' = s\<lparr>holds := hs, account_balances := update_where (\<lambda>r. ab_AccountID r = ?k)
        (set_balance env (balanceFromRow r\<lparr>bal_Held := ab_Held r + amount\<rparr>)) (account_balances s)\<rparr>"
    and nonneg: "0 \<le> sint (ab_Held r + amount)"
    using upd rk imageI [OF rk(2), of ab_AccountID] by (auto simp: tx_UpdateBalance_Inr s1)
  have cust: "is_customer s ?k \<longleftrightarrow> la_Type row = TypeCustomer"
    using acct ledger_invD(1) [OF inv] by (auto simp: is_customer_def accounts_ok_def distinct_map dest: inj_onD)
  have held: "0 \<le> sint (ab_Held r)" "is_customer s ?k \<longrightarrow> sint (ab_Held r) \<le> sint (ab_Balance r)"
    "active_total ?k (holds s) \<le> sint (ab_Held r)"
    using ledger_invD(6) [OF inv] rk by (auto simp: held_ok_def)
  have "balance_sound (la_Type row) (balanceFromRow r)" using held cust by (simp add: balance_sound_def)
  from CanPlaceHold_eq [OF this] can have amt: "0 < sint amount"
    "is_customer s ?k \<longrightarrow> sint (ab_Held r) + sint amount \<le> sint (ab_Balance r)" using cust by auto
  have exact: "sint (ab_Held r + amount) = sint (ab_Held r) + sint amount"
    using nonneg held(1) amt(1) sint_int64_bounds [of amount] sint_int64_bounds [of "ab_Held r"]
    by (auto simp: sint_add_int64 split: if_splits)
  show ?thesis
  proof (rule ledger_inv_held [OF inv r s'])
    show "holds_ok s'" using s1 by (simp add: s' holds_ok_def)
  qed (use held amt exact nonneg in \<open>auto simp: hs_def hold active_total_def\<close>)
qed

lemma releaseHoldTx_inv:
  assumes inv: "ledger_inv s" and rel: "releaseHoldTx env holdID s = Inr (hold, s')"
  shows "ledger_inv s'"
proof -
  obtain h released changed where h: "select_one (\<lambda>h. hold_ID h = holdID) (holds s) = Some h"
    and dom: "domain_ReleaseHold h = Inr (released, changed)"
    using rel by (auto simp: releaseHoldTx_def tx_LockHoldByID_Inr)
  show ?thesis
  proof (cases changed)
    case False
    then show ?thesis using rel h dom inv by (auto simp: releaseHoldTx_def tx_LockHoldByID_Inr)
  next
    case True
    let ?k = "hold_AccountID h"
    obtain r s1 where r: "select_one (\<lambda>r. ab_AccountID r = ?k) (account_balances s) = Some r"
      and pos: "0 \<le> sint (ab_Held r - hold_Amount h)"
      and upd: "tx_UpdateBalance env (balanceFromRow r\<lparr>bal_Held := ab_Held r - hold_Amount h\<rparr>) s = Inr s1"
      and set: "tx_SetHoldStatus (hold_ID h) HoldReleased s1 = Inr s'"
      using rel h dom True
      by (auto simp: releaseHoldTx_def tx_LockHoldByID_Inr tx_LockBalance_Inr Let_def int64_simps split: if_splits)
    have hk: "hold_ID h = holdID" "h \<in> set (holds s)" and rk: "ab_AccountID r = ?k" "r \<in> set (account_balances s)"
      using h r by (auto dest: select_one_Some)
    define hs where "hs = update_where (\<lambda>h. hold_ID h = holdID) (\<lambda>h. h\<lparr>hold_Status := HoldReleased\<rparr>) (holds s)"
    have s': "s' = s\<lparr>holds := hs, account_balances := update_where (\<lambda>r. ab_AccountID r = ?k)
        (set_balance env (balanceFromRow r\<lparr>bal_Held := ab_Held r - hold_Amount h\<rparr>)) (account_balances s)\<rparr>"
      using upd set rk hk by (simp add: tx_UpdateBalance_Inr tx_SetHoldStatus_Inr hs_def)
    have hold: "hold_Status h = HoldActive" "0 < sint (hold_Amount h)" and ids: "distinct (map hold_ID (holds s))"
      using ledger_invD(7) [OF inv] hk True dom by (auto simp: holds_ok_def domain_ReleaseHold_Inr split: if_splits)
    have held: "0 \<le> sint (ab_Held r)" "is_customer s ?k \<longrightarrow> sint (ab_Held r) \<le> sint (ab_Balance r)"
      "active_total ?k (holds s) \<le> sint (ab_Held r)"
      using ledger_invD(6) [OF inv] rk by (auto simp: held_ok_def)
    have exact: "sint (ab_Held r - hold_Amount h) = sint (ab_Held r) - sint (hold_Amount h)"
      using held(1) hold(2) sint_int64_bounds [of "ab_Held r"] sint_int64_bounds [of "hold_Amount h"]
      by (simp add: sint_diff_int64)
    have act: "active_total k hs = active_total k (holds s) - (if ?k = k then sint (hold_Amount h) else 0)" for k
      using active_total_set_status [OF ids h, of HoldReleased k] hold by (simp add: hs_def)
    show ?thesis
    proof (rule ledger_inv_held [OF inv r s'])
      show "holds_ok s'" by (rule holds_ok_set_status [OF ledger_invD(7) [OF inv]]) (simp_all add: s' hs_def)
    qed (use held pos exact hold act in auto)
  qed
qed

section \<open>Posting\<close>

text \<open>The leg of a request and of a stored posting, as \<open>samePayload\<close> compares them.\<close>

definition view_leg :: "PostingView \<Rightarrow> leg" where
  "view_leg v = (pv_AccountID v, pv_Amount v, pv_Currency v)"

definition posting_leg :: "Posting \<Rightarrow> leg" where
  "posting_leg p = (post_AccountID p, post_Amount p, post_Currency p)"

text \<open>The facts of \<open>postNew_Inr\<close> about one successful posting.\<close>

definition post_effect ::
  "tx_env \<Rightarrow> string \<Rightarrow> string \<Rightarrow> (string \<times> Account) list \<Rightarrow> Posting list \<Rightarrow> (string \<times> int64) list \<Rightarrow> (string \<times> int64) list
     \<Rightarrow> Balance list \<Rightarrow> EntryView \<Rightarrow> OutboxRow list \<Rightarrow> ledger_db \<Rightarrow> ledger_db \<Rightarrow> ledger_db \<Rightarrow> bool" where
  "post_effect env refType refID accounts ps delta heldAdj bs view new s s1 s' \<longleftrightarrow>
     evw_ReferenceType view = refType \<and> evw_ReferenceID view = refID \<and>
     accounts_from s accounts \<and> ValidateEntry ps accounts = Inr () \<and> netDelta ps = Inr delta \<and>
     list_all2 (\<lambda>k b. applyDelta accounts delta heldAdj s1 k = Inr b) (sort (map fst delta)) bs \<and>
     account_balances s1 = account_balances s \<and> ledger_accounts s1 = ledger_accounts s \<and>
     (evw_ID view, evw_OccurredAt view) \<notin> entry_key ` set (journal_entries s) \<and>
     (refType, refID) \<notin> (\<lambda>r. (jr_ReferenceType r, jr_ReferenceID r)) ` set (journal_entry_refs s) \<and>
     list_all2 (\<lambda>p. leg_view accounts (evw_ID view) (evw_OccurredAt view) p (post_AccountID p)) ps (evw_Postings view) \<and>
     map ob_event new = map (\<lambda>(k, b). postedEvent (account_at accounts k) view k b) (zip (sort (map fst delta)) bs) \<and>
     s' = s1\<lparr>journal_entries := journal_entries s
             @ [\<lparr>je_ID = evw_ID view, je_ReferenceType = refType, je_ReferenceID = refID, je_OccurredAt = evw_OccurredAt view\<rparr>],
           journal_entry_refs := journal_entry_refs s
             @ [\<lparr>jr_ReferenceType = refType, jr_ReferenceID = refID, jr_EntryID = evw_ID view, jr_OccurredAt = evw_OccurredAt view\<rparr>],
           postings := postings s @ map posting_row (evw_Postings view),
           account_balances := set_balances env bs (account_balances s),
           outbox := outbox s @ new\<rparr>"

lemma postNew_effect:
  assumes "postNew env refType refID holdID accounts ps (map post_AccountID ps) s = Inr (view, s')"
    and "accounts_from s accounts"
  obtains delta heldAdj s1 bs new where "captureHoldStep refType refID holdID delta s = Inr (heldAdj, s1)"
    and "post_effect env refType refID accounts ps delta heldAdj bs view new s s1 s'"
proof (rule postNew_Inr [OF assms(1)], goal_cases)
  case (1 delta heldAdj s1 bs e occ new)
  have s1: "account_balances s1 = account_balances s" "ledger_accounts s1 = ledger_accounts s"
    by (rule captureHoldStep_Inr [OF 1(4)]; simp)+
  show ?thesis
    by (rule that [OF 1(4)]) (use 1 s1 assms(2) in \<open>simp add: post_effect_def entry_key_def [abs_def]\<close>)
qed

lemma post_rows:
  assumes "post_effect env refType refID accounts ps delta heldAdj bs view new s s1 s'"
  defines "rows \<equiv> map posting_row (evw_Postings view)"
  shows "\<forall>r \<in> set rows. posting_key r = (evw_ID view, evw_OccurredAt view)"
    and "length rows = length ps" and "row_total c rows = currency_total c ps"
    and "(\<Sum>r\<leftarrow>rows. if pr_AccountID r = k then sint (pr_Amount r) else 0) = account_total k ps"
    and "list_all2 (\<lambda>p v. posting_leg p = view_leg v) ps (evw_Postings view)"
    and "v \<in> set (evw_Postings view) \<Longrightarrow> pv_ExternalAccountID v = acct_ExternalID (account_at accounts (pv_AccountID v))"
    and "r \<in> set rows \<Longrightarrow> \<exists>p \<in> set ps. pr_AccountID r = post_AccountID p \<and> pr_Amount r = post_Amount p \<and> pr_Currency r = post_Currency p"
proof -
  have l: "list_all2 (\<lambda>p. leg_view accounts (evw_ID view) (evw_OccurredAt view) p (post_AccountID p)) ps (evw_Postings view)"
    using assms by (simp add: post_effect_def)
  show "\<forall>r \<in> set rows. posting_key r = (evw_ID view, evw_OccurredAt view)" unfolding rows_def using l
    by (induction rule: list_all2_induct) (simp_all add: rows_def posting_key_def posting_row_def leg_view_def)
  show "length rows = length ps" using l by (simp add: rows_def list_all2_lengthD)
  show "row_total c rows = currency_total c ps" unfolding rows_def using l
    by (induction rule: list_all2_induct) (simp_all add: row_total_def currency_total_def posting_row_def leg_view_def)
  show "(\<Sum>r\<leftarrow>rows. if pr_AccountID r = k then sint (pr_Amount r) else 0) = account_total k ps" unfolding rows_def using l
    by (induction rule: list_all2_induct) (simp_all add: account_total_def posting_row_def leg_view_def)
  show "list_all2 (\<lambda>p v. posting_leg p = view_leg v) ps (evw_Postings view)"
    by (rule list_all2_mono [OF l]) (simp add: leg_view_def posting_leg_def view_leg_def)
  show "pv_ExternalAccountID v = acct_ExternalID (account_at accounts (pv_AccountID v))" if "v \<in> set (evw_Postings view)"
    using l that by (induction rule: list_all2_induct) (auto simp: leg_view_def)
  show "\<exists>p \<in> set ps. pr_AccountID r = post_AccountID p \<and> pr_Amount r = post_Amount p \<and> pr_Currency r = post_Currency p"
    if "r \<in> set rows" using l that unfolding rows_def
    by (induction rule: list_all2_induct) (auto simp: posting_row_def leg_view_def)
qed

lemma post_leg_accounts:
  assumes "post_effect env refType refID accounts ps delta heldAdj bs view new s s1 s'"
  shows "post_AccountID ` set ps \<subseteq> la_ID ` set (ledger_accounts s)"
proof
  fix k assume "k \<in> post_AccountID ` set ps"
  then obtain a where a: "map_of accounts k = Some a"
    using ValidateEntry_sound(2) [of ps accounts] assms by (fastforce simp: post_effect_def list_all_iff well_formed_leg_def)
  have "accounts_from s accounts" using assms by (simp add: post_effect_def)
  from accounts_fromD [OF this a] show "k \<in> la_ID ` set (ledger_accounts s)" by (metis image_eqI)
qed

lemma post_journal_ok:
  assumes inv: "ledger_inv s" and eff: "post_effect env refType refID accounts ps delta heldAdj bs view new s s1 s'"
  shows "accounts_ok s'" and "journal_ok s'" and "postings_ok s'" and "entries_ok s'"
proof -
  let ?rows = "map posting_row (evw_Postings view)" and ?key = "(evw_ID view, evw_OccurredAt view)"
  have legs_ok: "list_all (well_formed_leg accounts) ps" and len: "2 \<le> length ps" and zero: "currency_total c ps = 0" for c
    using ValidateEntry_sound [of ps accounts] eff by (simp_all add: post_effect_def)
  have "map (\<lambda>r. (ab_AccountID r, ab_Currency r)) (set_balances env bs t) = map (\<lambda>r. (ab_AccountID r, ab_Currency r)) t" for t
    by (simp add: set_balances_def split: option.splits)
  then show "accounts_ok s'" using ledger_invD(1) [OF inv] eff by (simp add: post_effect_def accounts_ok_def)
  have refs: "set (map (\<lambda>r. (jr_ReferenceType r, jr_ReferenceID r, jr_EntryID r, jr_OccurredAt r)) (journal_entry_refs s))
      = set (map (\<lambda>e. (je_ReferenceType e, je_ReferenceID e, je_ID e, je_OccurredAt e)) (journal_entries s))"
    using ledger_invD(2) [OF inv] by (simp only: journal_ok_def)
  have "(refType, refID) \<notin> (\<lambda>e. (je_ReferenceType e, je_ReferenceID e)) ` set (journal_entries s)"
  proof
    assume "(refType, refID) \<in> (\<lambda>e. (je_ReferenceType e, je_ReferenceID e)) ` set (journal_entries s)"
    then obtain i t where "(refType, refID, i, t) \<in> set (map (\<lambda>r. (jr_ReferenceType r, jr_ReferenceID r, jr_EntryID r, jr_OccurredAt r)) (journal_entry_refs s))"
      unfolding refs by auto
    then show False using eff by (auto simp: post_effect_def)
  qed
  then show "journal_ok s'" using ledger_invD(2) [OF inv] eff
    by (simp add: post_effect_def journal_ok_def entry_key_def)
  have "(pr_AccountID r, pr_Currency r) \<in> (\<lambda>a. (la_ID a, la_Currency a)) ` set (ledger_accounts s) \<and> pr_Amount r \<noteq> 0"
    if r: "r \<in> set ?rows" for r
  proof -
    obtain p where p: "p \<in> set ps" "pr_AccountID r = post_AccountID p" "pr_Amount r = post_Amount p" "pr_Currency r = post_Currency p"
      using post_rows(7) [OF eff r] by blast
    then obtain a where a: "map_of accounts (post_AccountID p) = Some a" "post_Currency p = acct_Currency a" "post_Amount p \<noteq> 0"
      using legs_ok by (auto simp: list_all_iff well_formed_leg_def)
    have "accounts_from s accounts" using eff by (simp add: post_effect_def)
    then obtain row where "row \<in> set (ledger_accounts s)" "a = accountFromRow row" "la_ID row = post_AccountID p"
      using accounts_fromD a(1) by blast
    then show ?thesis using a p by force
  qed
  then show "postings_ok s'"
    using ledger_invD(3) [OF inv] post_rows(1) [OF eff] eff by (auto simp: postings_ok_def post_effect_def entry_key_def)
  have fresh: "?key \<notin> entry_key ` set (journal_entries s)" using eff by (simp add: post_effect_def)
  have old: "legs s' k = legs s k" if "k \<noteq> ?key" for k
    using post_rows(1) [OF eff] eff that by (auto simp: legs_def post_effect_def filter_empty_conv)
  have "legs s ?key = []" using ledger_invD(3) [OF inv] fresh unfolding legs_def postings_ok_def filter_empty_conv by metis
  then have "legs s' ?key = ?rows"
    using post_rows(1) [OF eff] eff by (simp add: legs_def post_effect_def filter_id_conv)
  moreover have "journal_entries s' = journal_entries s
      @ [\<lparr>je_ID = evw_ID view, je_ReferenceType = refType, je_ReferenceID = refID, je_OccurredAt = evw_OccurredAt view\<rparr>]"
    using eff by (simp add: post_effect_def)
  ultimately show "entries_ok s'"
    using ledger_invD(4) [OF inv] fresh old post_rows(2,3) [OF eff] len zero
    by (auto simp: entries_ok_def entry_key_def image_iff)
qed

text \<open>What a capture does to the held amounts: \<open>a\<close> is the part of the hold that lies on account \<open>k\<close>.\<close>

lemma capture_held:
  assumes inv: "ledger_inv s" and cap: "captureHoldStep refType refID holdID delta s = Inr (heldAdj, s1)"
  shows "holds_ok s1" and "\<exists>a \<ge> 0. sint (go_get heldAdj k) = - a \<and> active_total k (holds s1) = active_total k (holds s) - a"
proof -
  have "holds_ok s1 \<and> (\<exists>a \<ge> 0. sint (go_get heldAdj k) = - a \<and> active_total k (holds s1) = active_total k (holds s) - a)"
    using cap
  proof (cases rule: captureHoldStep_Inr)
    case no_hold
    then show ?thesis using ledger_invD(7) [OF inv] by (auto simp: go_get_def)
  next
    case (captured h)
    have h: "h \<in> set (holds s)" using captured(2) by (auto dest: select_one_Some)
    then have amt: "0 < sint (hold_Amount h)" and ids: "distinct (map hold_ID (holds s))"
      using ledger_invD(7) [OF inv] by (auto simp: holds_ok_def)
    have "sint (go_get heldAdj k) = (if hold_AccountID h = k then - sint (hold_Amount h) else 0)"
      using amt by (simp add: captured(6) go_get_def sint_neg_int64)
    moreover have "active_total k (holds s1) = active_total k (holds s) - (if hold_AccountID h = k then sint (hold_Amount h) else 0)"
      using active_total_set_status [OF ids captured(2), of HoldCaptured k] captured(5) by (simp add: captured(7))
    moreover have "holds_ok s1"
      by (rule holds_ok_set_status [OF ledger_invD(7) [OF inv], of HoldCaptured]) (simp_all add: captured(7))
    ultimately show ?thesis using amt by (intro conjI exI [of _ "if hold_AccountID h = k then sint (hold_Amount h) else 0"]) auto
  qed
  then show "holds_ok s1" and "\<exists>a \<ge> 0. sint (go_get heldAdj k) = - a \<and> active_total k (holds s1) = active_total k (holds s) - a"
    by auto
qed

text \<open>Each balance row after the posting: untouched, or the result of \<open>ApplyPosting\<close> on the row before.\<close>

lemma post_balance_rows:
  assumes inv: "ledger_inv s" and eff: "post_effect env refType refID accounts ps delta heldAdj bs view new s s1 s'"
    and x: "x \<in> set (account_balances s')"
  obtains (untouched) "x \<in> set (account_balances s)" "ab_AccountID x \<notin> post_AccountID ` set ps"
      "ab_AccountID x \<notin> set (sort (map fst delta))"
  | (posted) y b where "y \<in> set (account_balances s)" "ab_AccountID y \<in> post_AccountID ` set ps" "x = set_balance env b y"
      "map_of (zip (sort (map fst delta)) bs) (ab_AccountID y) = Some b"
      "0 \<le> sint (ab_Held y + go_get heldAdj (ab_AccountID y))"
      "ApplyPosting (balanceFromRow y\<lparr>bal_Held := ab_Held y + go_get heldAdj (ab_AccountID y)\<rparr>)
         (acct_Type (account_at accounts (ab_AccountID y))) (go_get delta (ab_AccountID y)) = Inr b"
proof -
  let ?ks = "sort (map fst delta)"
  have app: "list_all2 (\<lambda>k b. applyDelta accounts delta heldAdj s1 k = Inr b) ?ks bs" and net: "netDelta ps = Inr delta"
    and s1: "account_balances s1 = account_balances s" and s': "account_balances s' = set_balances env bs (account_balances s)"
    using eff by (simp_all add: post_effect_def)
  have ks: "set ?ks = post_AccountID ` set ps" and dist: "distinct ?ks"
    using netDelta_Inr(2,3) [OF net] by simp_all
  have ids: "map bal_AccountID bs = ?ks"
    using app by (induction rule: list_all2_induct)
      (auto simp: applyDelta_def Let_def tx_LockBalance_Inr ApplyPosting_Inr split: if_splits dest!: select_one_Some)
  have zip: "map (\<lambda>b. (bal_AccountID b, b)) bs = zip ?ks bs"
    unfolding ids [symmetric] by (simp add: zip_map1 zip_same_conv_map)
  obtain y where y: "y \<in> set (account_balances s)"
    "x = (case map_of (zip ?ks bs) (ab_AccountID y) of None \<Rightarrow> y | Some b \<Rightarrow> set_balance env b y)"
    using x by (auto simp: s' set_balances_def zip)
  show ?thesis
  proof (cases "map_of (zip ?ks bs) (ab_AccountID y)")
    case None
    then have "ab_AccountID y \<notin> set ?ks" using map_of_zip_is_None [OF list_all2_lengthD [OF app]] by simp
    then show ?thesis using untouched y None ks by simp
  next
    case (Some b)
    have "applyDelta accounts delta heldAdj s1 (ab_AccountID y) = Inr b"
      using app Some dist list_all2_lengthD [OF app]
      by (auto simp: list_all2_conv_all_nth map_of_zip_nth in_set_zip dest!: map_of_SomeD)
    then obtain r where r: "select_one (\<lambda>r. ab_AccountID r = ab_AccountID y) (account_balances s) = Some r"
      "0 \<le> sint (ab_Held r + go_get heldAdj (ab_AccountID y))"
      "ApplyPosting (balanceFromRow r\<lparr>bal_Held := ab_Held r + go_get heldAdj (ab_AccountID y)\<rparr>)
         (acct_Type (account_at accounts (ab_AccountID y))) (go_get delta (ab_AccountID y)) = Inr b"
      using s1 by (elim applyDelta_Inr) auto
    have "r = y" using bal_table.lookup_unique [OF accounts_ok_keys(1) [OF ledger_invD(1) [OF inv]] y(1)] r(1) by simp
    moreover have "ab_AccountID y \<in> post_AccountID ` set ps"
      using Some ks by (auto dest!: map_of_SomeD set_zip_leftD)
    ultimately show ?thesis using posted [OF y(1)] y(2) Some r by simp
  qed
qed

lemma account_total_other: "k \<notin> post_AccountID ` set ps \<Longrightarrow> account_total k ps = 0"
  unfolding account_total_def by (induction ps) auto

lemma post_balances_ok:
  assumes inv: "ledger_inv s" and eff: "post_effect env refType refID accounts ps delta heldAdj bs view new s s1 s'"
  shows "balances_ok s'"
proof -
  have sum: "q_SumPostingsForAccount s' k = q_SumPostingsForAccount s k + account_total k ps" for k
    using eff post_rows(4) [OF eff, of k] by (simp add: post_effect_def q_SumPostingsForAccount_def)
  have net: "netDelta ps = Inr delta" using eff by (simp add: post_effect_def)
  have "sint (ab_Balance x) = q_SumPostingsForAccount s' (ab_AccountID x)" if x: "x \<in> set (account_balances s')" for x
  proof (rule post_balance_rows [OF inv eff x], goal_cases)
    case 1
    then show ?case using ledger_invD(5) [OF inv] account_total_other by (simp add: sum balances_ok_def)
  next
    case (2 y b)
    then have "sint (bal_Balance b) = sint (ab_Balance y) + sint (go_get delta (ab_AccountID y))"
      by (auto simp: ApplyPosting_Inr)
    then show ?case using 2 ledger_invD(5) [OF inv] netDelta_Inr(1) [OF net] by (simp add: sum balances_ok_def)
  qed
  then show ?thesis by (simp add: balances_ok_def)
qed

lemma accounts_from_type:
  assumes "accounts_ok s" and "accounts_from s accounts" and "map_of accounts k = Some a"
  shows "is_customer s k \<longleftrightarrow> acct_Type a = TypeCustomer"
proof -
  obtain row where row: "row \<in> set (ledger_accounts s)" "a = accountFromRow row" "la_ID row = k"
    using accounts_fromD [OF assms(2,3)] .
  then show ?thesis using assms(1) by (auto simp: is_customer_def accounts_ok_def distinct_map dest: inj_onD)
qed

lemma post_held_ok:
  assumes inv: "ledger_inv s" and eff: "post_effect env refType refID accounts ps delta heldAdj bs view new s s1 s'"
    and cap: "captureHoldStep refType refID holdID delta s = Inr (heldAdj, s1)"
  shows "held_ok s'"
proof -
  have hs: "holds s' = holds s1" and acc: "ledger_accounts s' = ledger_accounts s"
    using eff by (simp_all add: post_effect_def)
  have cust: "is_customer s' = is_customer s" by (simp add: is_customer_def [abs_def] acc)
  have "0 \<le> sint (ab_Held x) \<and> (is_customer s' (ab_AccountID x) \<longrightarrow> sint (ab_Held x) \<le> sint (ab_Balance x))
      \<and> active_total (ab_AccountID x) (holds s') \<le> sint (ab_Held x)" if x: "x \<in> set (account_balances s')" for x
  proof (rule post_balance_rows [OF inv eff x], goal_cases)
    case 1
    then show ?case using ledger_invD(6) [OF inv] capture_held(2) [OF inv cap, of "ab_AccountID x"]
      by (fastforce simp: held_ok_def cust hs)
  next
    case (2 y b)
    let ?k = "ab_AccountID y" and ?held = "ab_Held y + go_get heldAdj (ab_AccountID y)"
    obtain a where a: "0 \<le> a" "sint (go_get heldAdj ?k) = - a" "active_total ?k (holds s1) = active_total ?k (holds s) - a"
      using capture_held(2) [OF inv cap] by blast
    have y: "0 \<le> sint (ab_Held y)" "is_customer s ?k \<longrightarrow> sint (ab_Held y) \<le> sint (ab_Balance y)"
      "active_total ?k (holds s) \<le> sint (ab_Held y)"
      using ledger_invD(6) [OF inv] 2(1) by (auto simp: held_ok_def)
    have held: "sint ?held = sint (ab_Held y) - a"
      using a y(1) sint_int64_bounds [of "ab_Held y"] sint_int64_bounds [of "go_get heldAdj ?k"] by (simp add: sint_add_int64)
    obtain p where "p \<in> set ps" "post_AccountID p = ?k" using 2(2) by auto
    then obtain acct where acct: "map_of accounts ?k = Some acct"
      using ValidateEntry_sound(2) [of ps accounts] eff by (fastforce simp: post_effect_def list_all_iff well_formed_leg_def)
    have ctyp: "is_customer s ?k \<longleftrightarrow> acct_Type (account_at accounts ?k) = TypeCustomer"
      using accounts_from_type [OF ledger_invD(1) [OF inv] _ acct] eff acct by (simp add: post_effect_def account_at_def)
    have "balance_sound (acct_Type (account_at accounts ?k)) (balanceFromRow y\<lparr>bal_Held := ?held\<rparr>)"
      using y a held 2(5) ctyp by (auto simp: balance_sound_def)
    note res = ApplyPosting_sound [OF this 2(6)]
    show ?case using res(1,3) held y a ctyp 2(3,5) by (auto simp: balance_sound_def cust hs)
  qed
  then show ?thesis by (simp add: held_ok_def)
qed

lemma posted_of_zip:
  assumes "distinct ks" and "length ks = length bs"
  shows "concat (map (posted_of k) (map (\<lambda>(k, b). postedEvent (f k) view k b) (zip ks bs)))
     = (case map_of (zip ks bs) k of None \<Rightarrow> [] | Some b \<Rightarrow> posted_of k (postedEvent (f k) view k b))"
  using assms(2,1)
proof (induction ks bs rule: list_induct2)
  case (Cons k' ks b bs)
  have none: "map_of (zip ks bs) k' = None" using Cons by (simp add: map_of_zip_is_None)
  show ?case using Cons by (auto simp: postedEvent_def none)
qed simp

lemma post_events_ok:
  assumes inv: "ledger_inv s" and eff: "post_effect env refType refID accounts ps delta heldAdj bs view new s s1 s'"
    and out: "outbox s1 = outbox s"
  shows "events_ok s'"
proof -
  let ?ks = "sort (map fst delta)"
  have app: "list_all2 (\<lambda>k b. applyDelta accounts delta heldAdj s1 k = Inr b) ?ks bs" and net: "netDelta ps = Inr delta"
    and new: "map ob_event new = map (\<lambda>(k, b). postedEvent (account_at accounts k) view k b) (zip ?ks bs)"
    and s': "outbox s' = outbox s @ new"
    using eff by (simp_all add: post_effect_def)
  have ev: "account_events s' k = account_events s k
      @ (case map_of (zip ?ks bs) k of None \<Rightarrow> [] | Some b \<Rightarrow> posted_of k (postedEvent (account_at accounts k) view k b))" for k
    using posted_of_zip [OF _ list_all2_lengthD [OF app], of k "account_at accounts" view] netDelta_Inr(3) [OF net]
    by (simp add: account_events_def s' new [symmetric] comp_def)
  have "(let es = account_events s' (ab_AccountID x) in map tp_Version es = map of_nat [1..<Suc (length es)]
      \<and> ab_Version x = of_nat (length es) \<and> ab_Balance x = (if es = [] then 0 else tp_BalanceAfter (last es)))"
    if x: "x \<in> set (account_balances s')" for x
  proof (rule post_balance_rows [OF inv eff x], goal_cases)
    case 1
    then have "map_of (zip ?ks bs) (ab_AccountID x) = None"
      using map_of_zip_is_None [OF list_all2_lengthD [OF app]] by simp
    then show ?case using 1 ledger_invD(8) [OF inv] by (simp add: events_ok_def ev Let_def)
  next
    case (2 y b)
    let ?es = "account_events s (ab_AccountID y)"
    have "account_events s' (ab_AccountID y) = ?es @ posted_of (ab_AccountID y) (postedEvent (account_at accounts (ab_AccountID y)) view (ab_AccountID y) b)"
      using 2(4) by (simp add: ev)
    moreover have "bal_Version b = ab_Version y + 1" using 2(6) by (auto simp: ApplyPosting_Inr)
    moreover have "map tp_Version ?es = map of_nat [1..<Suc (length ?es)]" "ab_Version y = of_nat (length ?es)"
      using 2(1) ledger_invD(8) [OF inv] by (auto simp: events_ok_def Let_def)
    ultimately show ?case using 2(3) by (simp add: postedEvent_def Let_def)
  qed
  moreover have "account_events s' k = []" if "k \<notin> la_ID ` set (ledger_accounts s')" for k
  proof -
    have k: "k \<notin> la_ID ` set (ledger_accounts s)" using that eff by (simp add: post_effect_def)
    then have "k \<notin> post_AccountID ` set ps"
      using post_leg_accounts [OF eff] by blast
    then have "map_of (zip ?ks bs) k = None"
      using map_of_zip_is_None [OF list_all2_lengthD [OF app]] netDelta_Inr(2) [OF net] by simp
    then show ?thesis using k ledger_invD(8) [OF inv] by (simp add: events_ok_def ev)
  qed
  ultimately show ?thesis by (simp add: events_ok_def)
qed

lemma postNew_inv:
  assumes inv: "ledger_inv s" and acc: "accounts_from s accounts"
    and post: "postNew env refType refID holdID accounts ps (map post_AccountID ps) s = Inr (view, s')"
  shows "ledger_inv s'"
proof -
  obtain delta heldAdj s1 bs new where cap: "captureHoldStep refType refID holdID delta s = Inr (heldAdj, s1)"
    and eff: "post_effect env refType refID accounts ps delta heldAdj bs view new s s1 s'"
    by (rule postNew_effect [OF post acc])
  have "outbox s1 = outbox s" by (rule captureHoldStep_Inr [OF cap]; simp)
  moreover have "holds_ok s'" using capture_held(1) [OF inv cap] eff by (simp add: post_effect_def holds_ok_def)
  ultimately show ?thesis
    using post_journal_ok [OF inv eff] post_balances_ok [OF inv eff] post_held_ok [OF inv eff cap] post_events_ok [OF inv eff]
    by (simp add: ledger_inv_def)
qed

section \<open>Accounts and the outbox\<close>

lemma UpsertCustomerAccount_Inr:
  assumes "UpsertCustomerAccount env ext cur s = Inr (acc, s')"
  obtains (existing) row where "s' = s" "row \<in> set (ledger_accounts s)" "la_ExternalAccountID row = Some ext" "acc = accountFromRow row"
  | (created) row where "acc = accountFromRow row" "la_ID row \<notin> la_ID ` set (ledger_accounts s)" "la_Type row = TypeCustomer"
      "la_Currency row = cur" "la_ExternalAccountID row = Some ext"
      "q_InsertBalanceRow env (la_ID row) cur (s\<lparr>ledger_accounts := ledger_accounts s @ [row]\<rparr>) = Inr s'"
proof (cases "q_InsertCustomerAccount env ext cur s")
  case (Inl e)
  then show ?thesis
    using assms existing
    by (cases e) (auto simp: UpsertCustomerAccount_def q_GetAccountByExternalID_def split: sum.splits dest!: select_one_Some)
next
  case (Inr x)
  obtain row s1 where x: "x = (row, s1)" by (cases x)
  have "la_ID row \<notin> la_ID ` set (ledger_accounts s)" "la_Type row = TypeCustomer" "la_Currency row = cur"
    "la_ExternalAccountID row = Some ext" "s1 = s\<lparr>ledger_accounts := ledger_accounts s @ [row]\<rparr>"
    using Inr by (auto simp: x q_InsertCustomerAccount_def Let_def split: if_splits)
  then show ?thesis
    using assms created Inr by (auto simp: x UpsertCustomerAccount_def split: sum.splits)
qed

lemma UpsertCustomerAccount_inv:
  assumes inv: "ledger_inv s" and up: "UpsertCustomerAccount env ext cur s = Inr (acc, s')"
  shows "ledger_inv s'"
  using up
proof (cases rule: UpsertCustomerAccount_Inr)
  case existing
  then show ?thesis using inv by simp
next
  case (created row)
  let ?k = "la_ID row"
  note keys = accounts_ok_keys(2) [OF ledger_invD(1) [OF inv]]
  have bal_keys: "ab_AccountID ` set (account_balances s) = la_ID ` set (ledger_accounts s)"
    using arg_cong [OF keys, of set] by simp
  define new where "new = \<lparr>ab_AccountID = ?k, ab_Currency = cur, ab_Balance = 0, ab_Held = 0, ab_Version = 0, ab_UpdatedAt = env_now env\<rparr>"
  have s': "s' = s\<lparr>ledger_accounts := ledger_accounts s @ [row], account_balances := account_balances s @ [new]\<rparr>"
    using created(2,6) bal_keys by (auto simp: q_InsertBalanceRow_def new_def split: if_splits)
  have no_post: "q_SumPostingsForAccount s ?k = 0"
  proof -
    have "(if pr_AccountID p = ?k then sint (pr_Amount p) else 0) = 0" if "p \<in> set (postings s)" for p
    proof -
      have "(pr_AccountID p, pr_Currency p) \<in> (\<lambda>a. (la_ID a, la_Currency a)) ` set (ledger_accounts s)"
        using ledger_invD(3) [OF inv] that by (simp add: postings_ok_def)
      then show ?thesis using created(2) by (auto simp: image_iff)
    qed
    then show ?thesis unfolding q_SumPostingsForAccount_def by (simp cong: map_cong)
  qed
  have no_hold: "active_total ?k (holds s) = 0"
  proof -
    have "(if hold_AccountID h = ?k \<and> hold_Status h = HoldActive then sint (hold_Amount h) else 0) = 0" if "h \<in> set (holds s)" for h
      using ledger_invD(7) [OF inv] created(2) that unfolding holds_ok_def by metis
    then show ?thesis unfolding active_total_def by (simp cong: map_cong)
  qed
  have no_event: "account_events s ?k = []" using ledger_invD(8) [OF inv] created(2) by (simp add: events_ok_def)
  have other: "ab_AccountID r \<noteq> ?k" if "r \<in> set (account_balances s)" for r
    using that created(2) bal_keys by (metis imageI)
  have cust: "is_customer s' k \<longleftrightarrow> is_customer s k \<or> k = ?k" for k
    using created(3) by (auto simp: is_customer_def s')
  have "accounts_ok s'" using ledger_invD(1) [OF inv] created(2,4) by (simp add: accounts_ok_def s' new_def)
  moreover have "journal_ok s'" "postings_ok s'" "entries_ok s'" "holds_ok s'"
    using ledger_invD(2-4,7) [OF inv] by (auto simp: ledger_inv_defs view_defs s')
  moreover have "balances_ok s'" using ledger_invD(5) [OF inv] no_post
    by (auto simp: balances_ok_def s' new_def q_SumPostingsForAccount_def)
  moreover have "held_ok s'" using ledger_invD(6) [OF inv] no_hold other by (auto simp: held_ok_def cust) (auto simp: s' new_def)
  moreover have ev: "account_events s' = account_events s" by (simp add: account_events_def [abs_def] s')
  have "events_ok s'" using ledger_invD(8) [OF inv] no_event unfolding events_ok_def ev by (simp add: s' new_def Let_def)
  ultimately show ?thesis by (simp add: ledger_inv_def)
qed

text \<open>Marking rows as sent changes no event.\<close>

lemma relay_inv:
  assumes inv: "ledger_inv s" and "map ob_Message t = map ob_Message (outbox s)"
  shows "ledger_inv (s\<lparr>outbox := t\<rparr>)"
proof -
  have "map ob_event t = map ob_event (outbox s)"
    using arg_cong [OF assms(2), of "map (\<lambda>m. ev_Payload (msg_Payload m))"] by (simp add: ob_event_def [abs_def] comp_def)
  then have "account_events (s\<lparr>outbox := t\<rparr>) k = account_events s k" for k
    by (simp add: account_events_def flip: map_map)
  then have "events_ok (s\<lparr>outbox := t\<rparr>)" using ledger_invD(8) [OF inv] by (simp add: events_ok_def)
  moreover have "is_customer (s\<lparr>outbox := t\<rparr>) = is_customer s" by (simp add: is_customer_def [abs_def])
  ultimately show ?thesis using ledger_invD(1-7) [OF inv] by (simp add: ledger_inv_def ledger_inv_defs(1-7) view_defs(1,4))
qed

section \<open>Reachable ledgers\<close>

text \<open>
  \<open>snap\<close> may be the state an unlocked read saw: the tables that only grow are prefixes of the
  current ones.
\<close>

definition snapshot_of :: "ledger_db \<Rightarrow> ledger_db \<Rightarrow> bool" where
  "snapshot_of snap s \<longleftrightarrow>
     (\<exists>a e r p. ledger_accounts s = ledger_accounts snap @ a \<and> journal_entries s = journal_entries snap @ e
        \<and> journal_entry_refs s = journal_entry_refs snap @ r \<and> postings s = postings snap @ p)"

lemma snapshot_of_refl [simp, intro]: "snapshot_of s s"
  by (simp add: snapshot_of_def)

text \<open>One transaction of any client, with any inputs and any fate of its commit.\<close>

inductive ledger_step :: "ledger_db \<Rightarrow> ledger_db \<Rightarrow> bool" where
  create: "CreateAccount env ext cur s = (res, s') \<Longrightarrow> ledger_step s s'"
| hold: "snapshot_of snap s \<Longrightarrow> WithinTx env (placeHoldTx env snap ref amount cur refType refID ttl) s = (res, s')
    \<Longrightarrow> ledger_step s s'"
| release: "ReleaseHold env holdID s = (res, s') \<Longrightarrow> ledger_step s s'"
| post: "snapshot_of snap s \<Longrightarrow> PostTransaction env snap refType refID holdID specs s = (res, s') \<Longrightarrow> ledger_step s s'"
| relay: "relayOnce env locked produce (outbox s, log) = (res :: ledger_err + nat, t, log') \<Longrightarrow> ledger_step s (s\<lparr>outbox := t\<rparr>)"

definition ledger_reachable :: "ledger_db \<Rightarrow> bool" where
  "ledger_reachable s \<longleftrightarrow> (\<exists>now. ledger_step\<^sup>*\<^sup>* (initial_db now) s)"

lemma WithinTx_inv:
  assumes "ledger_inv s" and "WithinTx env fn s = (res, s')" and "\<And>x s'. fn s = Inr (x, s') \<Longrightarrow> ledger_inv s'"
  shows "ledger_inv s'"
  using WithTx_state [of check_entry_zero_sum env fn s res s'] assms by (auto simp: WithinTx_def)

lemma CreateAccount_inv: "ledger_inv s \<Longrightarrow> CreateAccount env ext cur s = (res, s') \<Longrightarrow> ledger_inv s'"
  by (auto simp: CreateAccount_def split: if_splits prod.splits sum.splits
      intro: WithinTx_inv [OF _ _ UpsertCustomerAccount_inv])

lemma placeHoldTx_inv:
  assumes "ledger_inv s" and "snapshot_of snap s" and "placeHoldTx env snap ref amount cur refType refID ttl s = Inr (h, s')"
  shows "ledger_inv s'"
proof -
  obtain acct where acct: "getAccountByRef snap ref = Inr acct" using assms(3) by (auto simp: placeHoldTx_def)
  obtain row where row: "row \<in> set (ledger_accounts snap)" "acct = accountFromRow row" by (rule getAccountByRef_Inr [OF acct])
  have "row \<in> set (ledger_accounts s)" using row(1) assms(2) by (auto simp: snapshot_of_def)
  from placeNewHold_inv [OF assms(1) this] show ?thesis
    using assms acct row(2) by (auto simp: placeHoldTx_def split: sum.splits if_splits)
qed

lemma postOnceTx_inv:
  assumes "ledger_inv s" and "snapshot_of snap s" and "postOnceTx env snap refType refID holdID specs s = Inr (view, s')"
  shows "ledger_inv s'"
proof -
  obtain accounts ps order where res: "resolveSpecs snap specs = Inr (accounts, ps, order)"
    using assms(3) by (auto simp: postOnceTx_def)
  have order: "order = map post_AccountID ps" and "accounts_from snap accounts" using resolveSpecs_Inr [OF res] by auto
  then have acc: "accounts_from s accounts" using assms(2) by (auto simp: snapshot_of_def intro: accounts_from_mono)
  show ?thesis
    using assms(1,3) res order postNew_inv [OF assms(1) acc]
    by (auto simp: postOnceTx_def split: sum.splits if_splits)
qed

lemma PostTransaction_inv:
  assumes "ledger_inv s" and "snapshot_of snap s" and "PostTransaction env snap refType refID holdID specs s = (res, s')"
  shows "ledger_inv s'"
proof -
  consider "s' = s" | res' where "WithinTx env (postOnceTx env snap refType refID holdID specs) s = (res', s')"
    using assms(3) by (auto simp: PostTransaction_def postOnce_def split: if_splits prod.splits sum.splits)
  then show ?thesis
    by cases (use assms(1) WithinTx_inv [OF assms(1) _ postOnceTx_inv [OF assms(1,2)]] in auto)
qed

lemma ReleaseHold_inv: "ledger_inv s \<Longrightarrow> ReleaseHold env holdID s = (res, s') \<Longrightarrow> ledger_inv s'"
  by (auto simp: ReleaseHold_def split: prod.splits sum.splits intro: WithinTx_inv [OF _ _ releaseHoldTx_inv])

lemma ledger_step_inv: "ledger_step s s' \<Longrightarrow> ledger_inv s \<Longrightarrow> ledger_inv s'"
  by (induction rule: ledger_step.induct)
    (auto intro: CreateAccount_inv ReleaseHold_inv PostTransaction_inv WithinTx_inv [OF _ _ placeHoldTx_inv]
      relay_inv relayOnce_cases(1))

lemma ledger_steps_inv: "ledger_step\<^sup>*\<^sup>* s s' \<Longrightarrow> ledger_inv s \<Longrightarrow> ledger_inv s'"
  by (induction rule: rtranclp_induct) (auto intro: ledger_step_inv)

lemma reachable_inv: "ledger_reachable s \<Longrightarrow> ledger_inv s"
  using ledger_steps_inv initial_db_inv by (auto simp: ledger_reachable_def)

end
