(* ===== verification/Ledger_Safety.thy ===== *)
theory Ledger_Safety
  imports Ledger_Invariant
begin

text \<open>
  What the ledger guarantees to its clients, for every reachable database: double entry,
  conservation, no overdraft, gapless versions; and the contracts of the operations:
  idempotent posting, holds that are captured or released once, lookups after writes.
\<close>

section \<open>Books\<close>

lemma row_total_grouped:
  assumes "ledger_inv s"
  shows "row_total c (postings s) = 0"
proof -
  let ?ks = "map entry_key (journal_entries s)"
  have dist: "distinct ?ks" and keys: "\<forall>p \<in> set (postings s). posting_key p \<in> set ?ks"
    using ledger_invD(2,3) [OF assms] by (auto simp: journal_ok_def postings_ok_def)
  have "row_total c (postings s) = (\<Sum>k\<leftarrow>?ks. row_total c (legs s k))"
    unfolding row_total_def legs_def by (rule sum_list_group [OF dist keys])
  also have "\<dots> = (\<Sum>k\<leftarrow>?ks. 0)"
    by (rule arg_cong [where f = sum_list], rule map_cong) (use ledger_invD(4) [OF assms] in \<open>auto simp: entries_ok_def\<close>)
  finally show ?thesis by (simp add: comp_def)
qed

lemma balance_total_grouped:
  assumes "ledger_inv s"
  shows "(\<Sum>r\<leftarrow>account_balances s. if ab_Currency r = c then sint (ab_Balance r) else 0) = row_total c (postings s)"
proof -
  let ?ks = "map ab_AccountID (account_balances s)"
  note acc = ledger_invD(1) [OF assms]
  have dist: "distinct ?ks" using accounts_ok_keys(1) [OF acc] .
  have owner: "\<exists>a \<in> set (ledger_accounts s). la_ID a = pr_AccountID p \<and> la_Currency a = pr_Currency p"
    if "p \<in> set (postings s)" for p
    using ledger_invD(3) [OF assms] that by (force simp: postings_ok_def)
  have "set ?ks = la_ID ` set (ledger_accounts s)" using accounts_ok_keys(2) [OF acc] by simp
  then have keys: "\<forall>p \<in> set (postings s). pr_AccountID p \<in> set ?ks" using owner by force
  have "row_total c (postings s) = (\<Sum>r\<leftarrow>account_balances s. \<Sum>p\<leftarrow>filter (\<lambda>p. pr_AccountID p = ab_AccountID r) (postings s).
      if pr_Currency p = c then sint (pr_Amount p) else 0)"
    unfolding row_total_def by (subst sum_list_group [OF dist keys]) (simp add: comp_def)
  also have "\<dots> = (\<Sum>r\<leftarrow>account_balances s. if ab_Currency r = c then sint (ab_Balance r) else 0)"
  proof (rule arg_cong [where f = sum_list], rule map_cong [OF refl])
    fix r assume r: "r \<in> set (account_balances s)"
    have cur: "pr_Currency p = ab_Currency r" if "p \<in> set (filter (\<lambda>p. pr_AccountID p = ab_AccountID r) (postings s))" for p
      using owner [of p] that accounts_ok_keys(3) [OF acc r] by force
    have "(\<Sum>p\<leftarrow>filter (\<lambda>p. pr_AccountID p = ab_AccountID r) (postings s). if pr_Currency p = c then sint (pr_Amount p) else 0)
        = (\<Sum>p\<leftarrow>filter (\<lambda>p. pr_AccountID p = ab_AccountID r) (postings s). if ab_Currency r = c then sint (pr_Amount p) else 0)"
      by (rule arg_cong [where f = sum_list], rule map_cong [OF refl]) (simp add: cur)
    also have "\<dots> = (if ab_Currency r = c then sint (ab_Balance r) else 0)"
      using ledger_invD(5) [OF assms] r
      by (cases "ab_Currency r = c") (simp_all add: balances_ok_def q_SumPostingsForAccount_def sum_list_map_filter')
    finally show "(\<Sum>p\<leftarrow>filter (\<lambda>p. pr_AccountID p = ab_AccountID r) (postings s). if pr_Currency p = c then sint (pr_Amount p) else 0)
        = (if ab_Currency r = c then sint (ab_Balance r) else 0)" .
  qed
  finally show ?thesis ..
qed

lemma entries_ok_trigger:
  assumes "entries_ok s" and "postings_ok s"
  shows "check_entry_zero_sum s"
proof -
  have tot: "entry_total s e occ c = row_total c (legs s (e, occ))" for e occ c
    unfolding entry_total_def row_total_def legs_def sum_list_map_filter'
    by (rule arg_cong [where f = sum_list], rule map_cong) (auto simp: posting_key_def)
  show ?thesis
    using assms unfolding check_entry_zero_sum_def tot by (force simp: entries_ok_def postings_ok_def posting_key_def)
qed

text \<open>
  C8. Conservation of money: in every reachable ledger, under any interleaving of clients and
  any commit failures, the balances of all accounts of a currency sum to exactly zero
  over the integers, so no operation creates or destroys money and no addition wrapped.
\<close>

theorem ledger_conservation:
  assumes "ledger_reachable s"
  shows "(\<Sum>r\<leftarrow>account_balances s. if ab_Currency r = c then sint (ab_Balance r) else 0) = 0"
  using balance_total_grouped [OF reachable_inv [OF assms]] row_total_grouped [OF reachable_inv [OF assms]] by simp

text \<open>
  C24. The books always balance: in every reachable ledger each journal entry has at least two
  legs that sum to zero in every currency, each materialized balance equals the exact sum
  of the account's postings, and the deferred zero-sum trigger of the schema would pass.
\<close>

theorem ledger_books:
  assumes "ledger_reachable s"
  shows "(\<forall>e \<in> set (journal_entries s). 2 \<le> length (legs s (entry_key e)) \<and> (\<forall>c. row_total c (legs s (entry_key e)) = 0))
     \<and> (\<forall>r \<in> set (account_balances s). sint (ab_Balance r) = q_SumPostingsForAccount s (ab_AccountID r))
     \<and> check_entry_zero_sum s"
  using reachable_inv [OF assms] entries_ok_trigger ledger_invD(3-5) unfolding entries_ok_def balances_ok_def by blast

text \<open>
  C23. No overdraft: in every reachable ledger the active holds of an account are within its
  held amount, which is never negative, and a customer's balance covers what is held; a
  customer can never be brought below zero, not even by concurrent spending.
\<close>

theorem ledger_no_overdraft:
  assumes "ledger_reachable s" and "r \<in> set (account_balances s)"
  shows "0 \<le> active_total (ab_AccountID r) (holds s) \<and> active_total (ab_AccountID r) (holds s) \<le> sint (ab_Held r)
     \<and> (is_customer s (ab_AccountID r) \<longrightarrow> sint (ab_Held r) \<le> sint (ab_Balance r))"
proof -
  have "\<forall>h \<in> set (holds s). 0 < sint (hold_Amount h)"
    using ledger_invD(7) [OF reachable_inv [OF assms(1)]] by (simp add: holds_ok_def)
  then have "0 \<le> active_total k (holds s)" for k
    unfolding active_total_def by (intro sum_list_nonneg) auto
  then show ?thesis using ledger_invD(6) [OF reachable_inv [OF assms(1)]] assms(2) by (simp add: held_ok_def)
qed

text \<open>
  C26. The event stream of an account is gapless: the outbox holds its \<open>TransactionPosted\<close> events
  with the versions 1, 2, 3, ... in order of insertion, one per balance change, the balance row
  carries the version of the last one and exactly the balance which that event announces.
\<close>

theorem ledger_event_stream:
  assumes "ledger_reachable s" and "r \<in> set (account_balances s)"
  defines "es \<equiv> account_events s (ab_AccountID r)"
  shows "map tp_Version es = map of_nat [1..<Suc (length es)] \<and> ab_Version r = of_nat (length es)
     \<and> ab_Balance r = (if es = [] then 0 else tp_BalanceAfter (last es))"
  using ledger_invD(8) [OF reachable_inv [OF assms(1)]] assms(2) unfolding es_def events_ok_def Let_def by blast

end
