(* ===== verification/Ledger_Replay.thy ===== *)
theory Ledger_Replay
  imports Ledger_Safety "HOL-Library.Multiset"
begin

text \<open>
  Idempotency of the ledger: the journal only grows, a reference is recorded once, and a
  repeated posting finds the entry of the first one. \<open>samePayload\<close>, which counts legs up
  and down, is multiset equality of the legs.
\<close>

section \<open>samePayload\<close>

definition leg_count :: "(leg \<times> int) list \<Rightarrow> leg \<Rightarrow> int" where
  "leg_count m l = (case map_of m l of None \<Rightarrow> 0 | Some n \<Rightarrow> n)"

lemma leg_count_bump: "leg_count (bump d l m) l' = leg_count m l' + (if l = l' then d else 0)"
  by (simp add: leg_count_def bump_def update_conv split: option.splits)

lemma distinct_bump: "distinct (map fst m) \<Longrightarrow> distinct (map fst (bump d l m))"
  by (simp add: bump_def distinct_update)

lemma fold_bump:
  shows "leg_count (fold (\<lambda>x. bump d (f x)) xs m) l = leg_count m l + d * int (count (mset (map f xs)) l)"
    and "distinct (map fst m) \<Longrightarrow> distinct (map fst (fold (\<lambda>x. bump d (f x)) xs m))"
  by (induction xs arbitrary: m) (auto simp: leg_count_bump distinct_bump algebra_simps)

lemma samePayload_mset:
  "samePayload v ps \<longleftrightarrow> mset (map view_leg (evw_Postings v)) = mset (map posting_leg ps)"
proof -
  define m where "m = fold (\<lambda>p. bump (- 1) (posting_leg p)) ps (fold (\<lambda>p. bump 1 (view_leg p)) (evw_Postings v) [])"
  have "distinct (map fst m)" unfolding m_def by (intro fold_bump(2)) simp
  then have "(\<forall>(_, n) \<in> set m. n = 0) \<longleftrightarrow> (\<forall>l. leg_count m l = 0)"
    by (fastforce simp: leg_count_def split: option.splits dest: map_of_SomeD)
  also have "\<dots> \<longleftrightarrow> mset (map view_leg (evw_Postings v)) = mset (map posting_leg ps)"
    unfolding multiset_eq_iff m_def fold_bump(1) by (simp add: leg_count_def)
  finally have counts: "(\<forall>(_, n) \<in> set m. n = 0) \<longleftrightarrow> mset (map view_leg (evw_Postings v)) = mset (map posting_leg ps)" .
  moreover have "length (evw_Postings v) = length ps" if "mset (map view_leg (evw_Postings v)) = mset (map posting_leg ps)"
    using mset_eq_length [OF that] by simp
  moreover have "samePayload v ps \<longleftrightarrow> length (evw_Postings v) = length ps \<and> (\<forall>(_, n) \<in> set m. n = 0)"
    by (simp add: samePayload_def Let_def m_def view_leg_def posting_leg_def)
  ultimately show ?thesis by blast
qed

text \<open>
  C32. A replayed request counts as the same exactly when its legs are a permutation of the
  stored ones: the counting up and down of \<open>samePayload\<close> is equality of multisets of
  account, amount and currency.
\<close>

theorem samePayload_permutation:
  "samePayload v ps \<longleftrightarrow> mset (map view_leg (evw_Postings v)) = mset (map posting_leg ps)"
  by (rule samePayload_mset)

section \<open>The journal only grows\<close>

text \<open>New postings belong to new entries; accounts and references are never changed.\<close>

definition grows :: "ledger_db \<Rightarrow> ledger_db \<Rightarrow> bool" where
  "grows s s' \<longleftrightarrow> (\<exists>a e r p. ledger_accounts s' = ledger_accounts s @ a \<and> journal_entries s' = journal_entries s @ e
     \<and> journal_entry_refs s' = journal_entry_refs s @ r \<and> postings s' = postings s @ p
     \<and> posting_key ` set p \<subseteq> entry_key ` set e)"

lemma grows_refl [simp]: "grows s s"
  by (simp add: grows_def)

lemma grows_trans:
  assumes "grows s1 s2" and "grows s2 s3"
  shows "grows s1 s3"
proof -
  obtain a e r p a' e' r' p' where "ledger_accounts s3 = ledger_accounts s1 @ a @ a'"
    "journal_entries s3 = journal_entries s1 @ e @ e'" "journal_entry_refs s3 = journal_entry_refs s1 @ r @ r'"
    "postings s3 = postings s1 @ p @ p'" "posting_key ` set p \<subseteq> entry_key ` set e" "posting_key ` set p' \<subseteq> entry_key ` set e'"
    using assms unfolding grows_def by auto
  then show ?thesis unfolding grows_def
    by (intro exI [of _ "a @ a'"] exI [of _ "e @ e'"] exI [of _ "r @ r'"] exI [of _ "p @ p'"]) auto
qed

lemma post_effect_grows:
  assumes "post_effect env refType refID accounts ps delta heldAdj bs view new s s1 s'"
  shows "grows s s'"
  using assms post_rows(1) [OF assms] unfolding grows_def post_effect_def
  by (auto simp: entry_key_def)

lemma placeNewHold_grows:
  "placeNewHold env acct amount cur refType refID ttl s = Inr (h, s') \<Longrightarrow> grows s s'"
  by (auto simp: placeNewHold_def Let_def tx_InsertHold_def q_InsertHold_def tx_UpdateBalance_Inr grows_def split: if_splits)

lemma releaseHoldTx_grows: "releaseHoldTx env holdID s = Inr (h, s') \<Longrightarrow> grows s s'"
  by (auto simp: releaseHoldTx_def Let_def tx_UpdateBalance_Inr tx_SetHoldStatus_Inr grows_def split: if_splits)

lemma UpsertCustomerAccount_grows: "UpsertCustomerAccount env ext cur s = Inr (acc, s') \<Longrightarrow> grows s s'"
  by (erule UpsertCustomerAccount_Inr) (auto simp: grows_def q_InsertBalanceRow_def split: if_splits)

lemma postOnceTx_cases:
  assumes "postOnceTx env snap refType refID holdID specs s = Inr (view, s')" and "snapshot_of snap s"
  obtains (replay) accounts ps e occ where "s' = s" "resolveSpecs snap specs = Inr (accounts, ps, map post_AccountID ps)"
      "getEntryRef snap refType refID = Inr (e, occ)" "getEntryWithPostings snap e occ = Inr view" "samePayload view ps"
  | (fresh) accounts ps where "resolveSpecs snap specs = Inr (accounts, ps, map post_AccountID ps)" "accounts_from s accounts"
      "postNew env refType refID holdID accounts ps (map post_AccountID ps) s = Inr (view, s')"
proof -
  obtain accounts ps order where res: "resolveSpecs snap specs = Inr (accounts, ps, order)"
    using assms(1) by (auto simp: postOnceTx_def)
  have order: "order = map post_AccountID ps" and "accounts_from snap accounts" using resolveSpecs_Inr [OF res] by auto
  then have acc: "accounts_from s accounts" using assms(2) by (auto simp: snapshot_of_def intro: accounts_from_mono)
  show ?thesis
  proof (cases "getEntryRef snap refType refID")
    case (Inl err)
    then show ?thesis using assms(1) res order acc fresh by (auto simp: postOnceTx_def split: if_splits)
  next
    case (Inr x)
    obtain e occ where x: "x = (e, occ)" by (cases x)
    show ?thesis
      using assms(1) res order Inr replay by (auto simp: postOnceTx_def x split: if_splits)
  qed
qed

lemma postOnceTx_grows:
  assumes "postOnceTx env snap refType refID holdID specs s = Inr (view, s')" and "snapshot_of snap s"
  shows "grows s s'"
  using assms
proof (cases rule: postOnceTx_cases)
  case (fresh accounts ps)
  show ?thesis by (rule postNew_effect [OF fresh(3,2)]) (rule post_effect_grows)
qed simp

lemma WithinTx_grows:
  assumes "WithinTx env fn s = (res, s')" and "\<And>x s'. fn s = Inr (x, s') \<Longrightarrow> grows s s'"
  shows "grows s s'"
  using WithTx_state [of check_entry_zero_sum env fn s res s'] assms by (auto simp: WithinTx_def)

lemma placeHoldTx_grows: "placeHoldTx env snap ref amount cur refType refID ttl s = Inr (h, s') \<Longrightarrow> grows s s'"
  by (auto simp: placeHoldTx_def split: sum.splits if_splits dest: placeNewHold_grows)

lemma PostTransaction_cases:
  assumes "PostTransaction env snap refType refID holdID specs s = (res, s')"
  obtains (refused) err where "res = Inl err" "s' = s"
  | (ran) res' where "postOnce env snap refType refID holdID specs s = (res', s')" "refType \<noteq> ''''" "refID \<noteq> ''''"
      "res = (case res' of Inr v \<Rightarrow> Inr v | Inl err \<Rightarrow>
         if errors_Is err ErrRefConflict then replayByReference s' refType refID specs else Inl (toAppErr err))"
  using assms by (auto simp: PostTransaction_def split: if_splits prod.splits sum.splits)

lemma ledger_step_grows: "ledger_step s s' \<Longrightarrow> grows s s'"
proof (induction rule: ledger_step.induct)
  case (create env ext cur s res s')
  then show ?case
    by (auto simp: CreateAccount_def split: if_splits prod.splits sum.splits intro: WithinTx_grows UpsertCustomerAccount_grows)
next
  case (hold snap s env ref amount cur refType refID ttl res s')
  then show ?case by (auto intro: WithinTx_grows placeHoldTx_grows)
next
  case (release env holdID s res s')
  then show ?case by (auto simp: ReleaseHold_def split: prod.splits sum.splits intro: WithinTx_grows releaseHoldTx_grows)
next
  case (post snap s env refType refID holdID specs res s')
  from post(2) show ?case
  proof (cases rule: PostTransaction_cases)
    case (ran res')
    then show ?thesis using post(1) by (auto simp: postOnce_def intro: WithinTx_grows postOnceTx_grows)
  qed simp
qed (simp add: grows_def)

lemma ledger_steps_grow: "ledger_step\<^sup>*\<^sup>* s s' \<Longrightarrow> grows s s'"
  by (induction rule: rtranclp_induct) (auto intro: ledger_step_grows grows_trans)

text \<open>
  C30. The journal is append-only: whatever transactions run, every account, journal entry,
  reference and posting that exists stays unchanged and in place, and new postings belong
  to new entries only, so the legs of an existing entry never change.
\<close>

theorem journal_append_only:
  assumes "ledger_step\<^sup>*\<^sup>* s s'"
  shows "\<exists>a e r p. ledger_accounts s' = ledger_accounts s @ a \<and> journal_entries s' = journal_entries s @ e
     \<and> journal_entry_refs s' = journal_entry_refs s @ r \<and> postings s' = postings s @ p
     \<and> posting_key ` set p \<subseteq> entry_key ` set e"
  using ledger_steps_grow [OF assms] by (simp add: grows_def)

section \<open>Lookups in a grown ledger\<close>

lemma select_one_prefix: "select_one P t = Some r \<Longrightarrow> select_one P (t @ u) = Some r"
  by (simp add: select_one_append)

definition ref_matches :: "AccountRef \<Rightarrow> LedgerAccount \<Rightarrow> bool" where
  "ref_matches ref a \<longleftrightarrow> (if ref_ExternalID ref \<noteq> '''' then la_ExternalAccountID a = Some (ref_ExternalID ref)
     else if ref_InternalCode ref \<noteq> '''' then la_InternalCode a = Some (ref_InternalCode ref) else la_ID a = ref_LedgerID ref)"

lemma getAccountByRef_select:
  "getAccountByRef s ref = Inr a \<longleftrightarrow> (ref_ExternalID ref \<noteq> '''' \<or> ref_InternalCode ref \<noteq> '''' \<or> ref_LedgerID ref \<noteq> '''')
     \<and> (\<exists>row. select_one (ref_matches ref) (ledger_accounts s) = Some row \<and> a = accountFromRow row)"
proof -
  have "(if ref_ExternalID ref \<noteq> '''' then q_GetAccountByExternalID s (ref_ExternalID ref)
      else if ref_InternalCode ref \<noteq> '''' then q_GetAccountByInternalCode s (ref_InternalCode ref)
      else q_GetAccountByID s (ref_LedgerID ref)) = one_row (select_one (ref_matches ref) (ledger_accounts s))"
    by (simp add: ref_matches_def [abs_def] q_GetAccountByExternalID_def q_GetAccountByInternalCode_def q_GetAccountByID_def)
  then show ?thesis
    unfolding getAccountByRef_def by (auto simp: one_row_def split: option.splits)
qed

lemma getAccountByRef_prefix:
  "getAccountByRef s ref = Inr a \<Longrightarrow> ledger_accounts s' = ledger_accounts s @ new \<Longrightarrow> getAccountByRef s' ref = Inr a"
  by (auto simp: getAccountByRef_select select_one_prefix)

lemma getAccountByRef_grows:
  "getAccountByRef s ref = Inr a \<Longrightarrow> grows s s' \<Longrightarrow> getAccountByRef s' ref = Inr a"
  by (auto simp: grows_def intro: getAccountByRef_prefix)

lemma getAccountByRef_snapshot:
  "getAccountByRef snap ref = Inr a \<Longrightarrow> snapshot_of snap s \<Longrightarrow> getAccountByRef s ref = Inr a"
  by (auto simp: snapshot_of_def intro: getAccountByRef_prefix)


text \<open>Step 1 of the posting and the loop of \<open>replayByReference\<close> resolve the legs alike.\<close>

definition resolveLeg :: "ledger_db \<Rightarrow> PostingSpec \<Rightarrow> ledger_err + Posting" where
  "resolveLeg s spec = sum_bind (getAccountByRef s (spec_Ref spec)) (\<lambda>acct.
     Inr \<lparr>post_AccountID = acct_ID acct, post_Amount = spec_Amount spec, post_Currency = spec_Currency spec\<rparr>)"

lemma resolveSpecs_map:
  "(\<exists>accounts order. resolveSpecs s specs = Inr (accounts, ps, order)) \<longleftrightarrow> map_err (resolveLeg s) specs = Inr ps"
proof -
  have "(\<exists>accounts order. fold_err (resolveSpec s) specs (acc0, ps0, ord0) = Inr (accounts, ps, order)) \<longleftrightarrow>
      (\<exists>qs. map_err (resolveLeg s) specs = Inr qs \<and> ps = ps0 @ qs)" for acc0 ps0 ord0
  proof (induction specs arbitrary: acc0 ps0 ord0)
    case (Cons spec specs)
    show ?case
    proof (cases "getAccountByRef s (spec_Ref spec)")
      case (Inr a)
      then show ?thesis using Cons by (auto simp: resolveSpec_def [of s spec] resolveLeg_def [of s spec] sum_bind_Inr_iff)
    qed (simp add: resolveSpec_def resolveLeg_def)
  qed auto
  then show ?thesis by (simp add: resolveSpecs_def)
qed

lemma map_err_mono:
  assumes "map_err f xs = Inr ys" and "\<And>x y. f x = Inr y \<Longrightarrow> g x = Inr y"
  shows "map_err g xs = Inr ys"
  using assms by (auto simp: map_err_Inr_iff elim: list_all2_mono)

text \<open>Every posting of a sound ledger joins exactly one account.\<close>

definition stored_views :: "ledger_db \<Rightarrow> string \<times> time \<Rightarrow> PostingView list" where
  "stored_views s k = map postingFromRow (join_external s (legs s k))"

lemma join_external_one:
  assumes "distinct (map la_ID as)" and "a \<in> set as" and "la_ID a = pr_AccountID p"
  shows "concat (map (\<lambda>a. if la_ID a = pr_AccountID p then [(p, la_ExternalAccountID a)] else []) as) = [(p, la_ExternalAccountID a)]"
  using assms
proof (induction as)
  case (Cons b as)
  have "concat (map (\<lambda>a. if la_ID a = pr_AccountID p then [(p, la_ExternalAccountID a)] else []) as) = []"
    if "\<forall>b \<in> set as. la_ID b \<noteq> pr_AccountID p" using that by (induction as) auto
  then show ?case using Cons by (auto simp: image_iff)
qed simp


lemma join_external_unique:
  assumes "accounts_ok s" and "a \<in> set (ledger_accounts s)" and "la_ID a = pr_AccountID p"
  shows "join_external s [p] = [(p, la_ExternalAccountID a)]"
  using join_external_one [of "ledger_accounts s" a p] assms by (simp add: join_external_def accounts_ok_def)

lemma join_external_Cons: "join_external s (p # ps) = join_external s [p] @ join_external s ps"
  by (simp add: join_external_def)

lemma join_external_grows:
  assumes inv: "ledger_inv s" "ledger_inv s'" and "grows s s'" and "set ps \<subseteq> set (postings s)"
  shows "join_external s' ps = join_external s ps"
  using assms(4)
proof (induction ps)
  case (Cons p ps)
  obtain a where a: "a \<in> set (ledger_accounts s)" "la_ID a = pr_AccountID p"
    using ledger_invD(3) [OF inv(1)] Cons.prems by (force simp: postings_ok_def)
  then have "a \<in> set (ledger_accounts s')" using assms(3) by (auto simp: grows_def)
  then show ?case
    using Cons join_external_unique [OF ledger_invD(1) [OF inv(1)] a] join_external_unique [OF ledger_invD(1) [OF inv(2)] _ a(2)]
    by (simp add: join_external_Cons [of _ p ps])
qed (simp add: join_external_def)

lemma legs_grows:
  assumes "ledger_inv s'" and "grows s s'" and "k \<in> entry_key ` set (journal_entries s)"
  shows "legs s' k = legs s k"
proof -
  obtain e p where e: "journal_entries s' = journal_entries s @ e" and p: "postings s' = postings s @ p"
    and sub: "posting_key ` set p \<subseteq> entry_key ` set e" using assms(2) by (auto simp: grows_def)
  have "entry_key ` set e \<inter> entry_key ` set (journal_entries s) = {}"
    using ledger_invD(2) [OF assms(1)] by (auto simp: journal_ok_def e)
  then have "\<forall>x \<in> set p. posting_key x \<noteq> k" using sub assms(3) by blast
  then show ?thesis by (simp add: legs_def p filter_empty_conv)
qed

lemma stored_views_grows:
  assumes "ledger_inv s" "ledger_inv s'" "grows s s'" and "k \<in> entry_key ` set (journal_entries s)"
  shows "stored_views s' k = stored_views s k"
  using join_external_grows [OF assms(1-3), of "legs s k"] legs_grows [OF assms(2-4)]
  by (auto simp: stored_views_def legs_def)

text \<open>Looking up an entry returns its legs, ordered by posting id.\<close>

lemma getEntryWithPostings_entry:
  assumes inv: "ledger_inv s" and e: "e \<in> set (journal_entries s)"
  obtains v where "getEntryRef s (je_ReferenceType e) (je_ReferenceID e) = Inr (entry_key e)"
    and "getEntryWithPostings s (je_ID e) (je_OccurredAt e) = Inr v" and "evw_ID v = je_ID e"
    and "evw_OccurredAt v = je_OccurredAt e" and "evw_ReferenceType v = je_ReferenceType e"
    and "evw_ReferenceID v = je_ReferenceID e" and "mset (evw_Postings v) = mset (stored_views s (entry_key e))"
proof -
  have dist: "distinct (map entry_key (journal_entries s))"
    "distinct (map (\<lambda>e. (je_ReferenceType e, je_ReferenceID e)) (journal_entries s))"
    and refs: "map (\<lambda>r. (jr_ReferenceType r, jr_ReferenceID r, jr_EntryID r, jr_OccurredAt r)) (journal_entry_refs s)
       = map (\<lambda>e. (je_ReferenceType e, je_ReferenceID e, je_ID e, je_OccurredAt e)) (journal_entries s)"
    using ledger_invD(2) [OF inv] by (simp_all add: journal_ok_def)
  have "(je_ReferenceType e, je_ReferenceID e, je_ID e, je_OccurredAt e) \<in>
      set (map (\<lambda>r. (jr_ReferenceType r, jr_ReferenceID r, jr_EntryID r, jr_OccurredAt r)) (journal_entry_refs s))"
    unfolding refs using e by auto
  then obtain r0 where r0: "r0 \<in> set (journal_entry_refs s)" "jr_ReferenceType r0 = je_ReferenceType e"
    "jr_ReferenceID r0 = je_ReferenceID e" by auto
  obtain r where r: "select_one (\<lambda>r. jr_ReferenceType r = je_ReferenceType e \<and> jr_ReferenceID r = je_ReferenceID e) (journal_entry_refs s) = Some r"
    using r0 by (metis (mono_tags, lifting) not_Some_eq select_one_None)
  then have rr: "r \<in> set (journal_entry_refs s)" "jr_ReferenceType r = je_ReferenceType e" "jr_ReferenceID r = je_ReferenceID e"
    by (auto dest: select_one_Some)
  have "(jr_ReferenceType r, jr_ReferenceID r, jr_EntryID r, jr_OccurredAt r) \<in>
      set (map (\<lambda>e. (je_ReferenceType e, je_ReferenceID e, je_ID e, je_OccurredAt e)) (journal_entries s))"
    unfolding refs [symmetric] using rr(1) by auto
  then obtain e' where e': "e' \<in> set (journal_entries s)" "je_ReferenceType e' = je_ReferenceType e"
    "je_ReferenceID e' = je_ReferenceID e" "jr_EntryID r = je_ID e'" "jr_OccurredAt r = je_OccurredAt e'"
    using rr by auto
  then have "e' = e" using dist(2) e by (metis (mono_tags, lifting) distinct_map inj_onD)
  then have ref: "getEntryRef s (je_ReferenceType e) (je_ReferenceID e) = Inr (entry_key e)"
    using r e' by (simp add: getEntryRef_Inr entry_key_def)
  obtain x where x: "select_one (\<lambda>x. je_ID x = je_ID e \<and> je_OccurredAt x = je_OccurredAt e) (journal_entries s) = Some x"
    using e by (metis (mono_tags, lifting) not_Some_eq select_one_None)
  then have "x \<in> set (journal_entries s)" "entry_key x = entry_key e" by (auto simp: entry_key_def dest: select_one_Some)
  then have "x = e" using dist(1) e by (metis distinct_map inj_onD)
  then have get: "q_GetEntry s (je_ID e) (je_OccurredAt e) = Inr e" using x by (simp add: q_GetEntry_def)
  have "mset (map postingFromRow (q_GetEntryPostings s (je_ID e) (je_OccurredAt e))) = mset (stored_views s (entry_key e))"
    by (simp add: q_GetEntryPostings_def stored_views_def legs_def posting_key_def entry_key_def)
  then show ?thesis using that [OF ref] get by (simp add: getEntryWithPostings_def)
qed

section \<open>Idempotent posting\<close>

text \<open>A view is the stored entry of a reference.\<close>

definition stored_entry :: "ledger_db \<Rightarrow> string \<Rightarrow> string \<Rightarrow> EntryView \<Rightarrow> bool" where
  "stored_entry s refType refID v \<longleftrightarrow> (\<exists>e \<in> set (journal_entries s). je_ReferenceType e = refType \<and> je_ReferenceID e = refID
     \<and> evw_ID v = je_ID e \<and> evw_OccurredAt v = je_OccurredAt e \<and> evw_ReferenceType v = refType \<and> evw_ReferenceID v = refID
     \<and> mset (evw_Postings v) = mset (stored_views s (entry_key e)))"

lemma stored_entry_grows:
  assumes "ledger_inv s" "ledger_inv s'" "grows s s'" "stored_entry s refType refID v"
  shows "stored_entry s' refType refID v"
proof -
  obtain e where e: "e \<in> set (journal_entries s)" "je_ReferenceType e = refType" "je_ReferenceID e = refID"
    "evw_ID v = je_ID e" "evw_OccurredAt v = je_OccurredAt e" "evw_ReferenceType v = refType" "evw_ReferenceID v = refID"
    "mset (evw_Postings v) = mset (stored_views s (entry_key e))"
    using assms(4) unfolding stored_entry_def by auto
  have "e \<in> set (journal_entries s')" using e(1) assms(3) by (auto simp: grows_def)
  then show ?thesis using e stored_views_grows [OF assms(1-3), of "entry_key e"] unfolding stored_entry_def by auto
qed

lemma lookup_stored_entry:
  assumes inv: "ledger_inv s" and ref: "getEntryRef s refType refID = Inr (e, occ)" and get: "getEntryWithPostings s e occ = Inr v"
  shows "stored_entry s refType refID v"
proof -
  obtain r where r: "r \<in> set (journal_entry_refs s)" "jr_ReferenceType r = refType" "jr_ReferenceID r = refID"
    "jr_EntryID r = e" "jr_OccurredAt r = occ" using ref by (auto simp: getEntryRef_Inr dest: select_one_Some)
  have "map (\<lambda>r. (jr_ReferenceType r, jr_ReferenceID r, jr_EntryID r, jr_OccurredAt r)) (journal_entry_refs s)
       = map (\<lambda>e. (je_ReferenceType e, je_ReferenceID e, je_ID e, je_OccurredAt e)) (journal_entries s)"
    using ledger_invD(2) [OF inv] by (simp add: journal_ok_def)
  from arg_cong [OF this, of set] have
    "(\<lambda>r. (jr_ReferenceType r, jr_ReferenceID r, jr_EntryID r, jr_OccurredAt r)) ` set (journal_entry_refs s)
       = (\<lambda>e. (je_ReferenceType e, je_ReferenceID e, je_ID e, je_OccurredAt e)) ` set (journal_entries s)" by simp
  then have "(refType, refID, e, occ) \<in> (\<lambda>e. (je_ReferenceType e, je_ReferenceID e, je_ID e, je_OccurredAt e)) ` set (journal_entries s)"
    using r by (metis (mono_tags, lifting) imageI)
  then obtain x where x: "x \<in> set (journal_entries s)" "je_ReferenceType x = refType" "je_ReferenceID x = refID" "je_ID x = e" "je_OccurredAt x = occ"
    by auto
  obtain v' where v': "getEntryWithPostings s (je_ID x) (je_OccurredAt x) = Inr v'" "evw_ID v' = je_ID x"
    "evw_OccurredAt v' = je_OccurredAt x" "evw_ReferenceType v' = je_ReferenceType x" "evw_ReferenceID v' = je_ReferenceID x"
    "mset (evw_Postings v') = mset (stored_views s (entry_key x))"
    by (rule getEntryWithPostings_entry [OF inv x(1)])
  have "v' = v" using v'(1) get x(4,5) by simp
  then show ?thesis using v'(2-6) x unfolding stored_entry_def by blast
qed

lemma post_effect_stored:
  assumes inv: "ledger_inv s" "ledger_inv s'" and eff: "post_effect env refType refID accounts ps delta heldAdj bs view new s s1 s'"
  shows "stored_entry s' refType refID view"
proof -
  let ?key = "(evw_ID view, evw_OccurredAt view)" and ?rows = "map posting_row (evw_Postings view)"
  have "?key \<notin> entry_key ` set (journal_entries s)" using eff by (simp add: post_effect_def)
  then have "legs s ?key = []"
    using ledger_invD(3) [OF inv(1)] unfolding legs_def postings_ok_def filter_empty_conv by metis
  then have legs: "legs s' ?key = ?rows"
    using post_rows(1) [OF eff] eff by (simp add: legs_def post_effect_def filter_id_conv)
  have one: "map postingFromRow (join_external s' [posting_row v]) = [v]" if v: "v \<in> set (evw_Postings view)" for v
  proof -
    have acc: "ledger_accounts s' = ledger_accounts s" "accounts_from s accounts" using eff by (simp_all add: post_effect_def)
    obtain p where p: "p \<in> set ps" "pr_AccountID (posting_row v) = post_AccountID p"
      using post_rows(7) [OF eff, of "posting_row v"] v by auto
    then obtain a where a: "map_of accounts (pv_AccountID v) = Some a"
      using ValidateEntry_sound(2) [of ps accounts] eff
      by (auto simp: post_effect_def list_all_iff well_formed_leg_def posting_row_def)
    obtain row where row: "row \<in> set (ledger_accounts s)" "a = accountFromRow row" "la_ID row = pv_AccountID v"
      using accounts_fromD [OF acc(2) a] .
    have "join_external s' [posting_row v] = [(posting_row v, la_ExternalAccountID row)]"
      by (rule join_external_unique [OF ledger_invD(1) [OF inv(2)]]) (use row acc in \<open>auto simp: posting_row_def\<close>)
    moreover have "pv_ExternalAccountID v = text_or_empty (la_ExternalAccountID row)"
      using post_rows(6) [OF eff v] a row by (simp add: account_at_def accountFromRow_def)
    ultimately show ?thesis by (simp add: postingFromRow_def posting_row_def)
  qed
  have "map postingFromRow (join_external s' (map posting_row vs)) = vs" if "set vs \<subseteq> set (evw_Postings view)" for vs
    using that
  proof (induction vs)
    case (Cons v vs)
    then show ?case using one [of v] by (simp add: join_external_Cons [of _ "posting_row v" "map posting_row vs"])
  qed (simp add: join_external_def)
  then have "stored_views s' ?key = evw_Postings view" by (simp add: stored_views_def legs)
  moreover have "\<lparr>je_ID = evw_ID view, je_ReferenceType = refType, je_ReferenceID = refID, je_OccurredAt = evw_OccurredAt view\<rparr>
      \<in> set (journal_entries s')" "evw_ReferenceType view = refType" "evw_ReferenceID view = refID"
    using eff by (simp_all add: post_effect_def)
  ultimately show ?thesis unfolding stored_entry_def
    by (intro bexI [of _ "\<lparr>je_ID = evw_ID view, je_ReferenceType = refType, je_ReferenceID = refID, je_OccurredAt = evw_OccurredAt view\<rparr>"])
      (simp_all add: entry_key_def)
qed

lemma posted_legs:
  "list_all2 (\<lambda>p v. posting_leg p = view_leg v) ps vs \<Longrightarrow> mset (map view_leg vs) = mset (map posting_leg ps)"
  by (induction rule: list_all2_induct) simp_all

lemma postOnceTx_stored:
  assumes inv: "ledger_inv snap" "ledger_inv s" and grow: "grows snap s" and snap: "snapshot_of snap s"
    and tx: "postOnceTx env snap refType refID holdID specs s = Inr (view, s')"
  obtains ps where "map_err (resolveLeg s') specs = Inr ps" and "samePayload view ps" and "stored_entry s' refType refID view"
proof -
  have inv': "ledger_inv s'" by (rule postOnceTx_inv [OF inv(2) snap tx])
  have grow': "grows s s'" by (rule postOnceTx_grows [OF tx snap])
  from tx snap show ?thesis
  proof (cases rule: postOnceTx_cases)
    case (replay accounts ps e occ)
    have "stored_entry s' refType refID view"
      using stored_entry_grows [OF inv grow lookup_stored_entry [OF inv(1) replay(3,4)]] replay(1) by simp
    moreover have "map_err (resolveLeg s') specs = Inr ps"
      using replay(1,2) resolveSpecs_map [of snap specs ps] getAccountByRef_snapshot [OF _ snap]
      by (auto simp: resolveLeg_def sum_bind_Inr_iff intro!: map_err_mono [of "resolveLeg snap"])
    ultimately show ?thesis using that replay(5) by blast
  next
    case (fresh accounts ps)
    obtain delta heldAdj s1 bs new where eff: "post_effect env refType refID accounts ps delta heldAdj bs view new s s1 s'"
      by (rule postNew_effect [OF fresh(3,2)])
    have "map_err (resolveLeg s) specs = Inr ps"
      using fresh(1) resolveSpecs_map [of snap specs ps] getAccountByRef_snapshot [OF _ snap]
      by (auto simp: resolveLeg_def sum_bind_Inr_iff intro!: map_err_mono [of "resolveLeg snap"])
    then have "map_err (resolveLeg s') specs = Inr ps"
      by (rule map_err_mono) (auto simp: resolveLeg_def sum_bind_Inr_iff dest: getAccountByRef_grows [OF _ grow'])
    then show ?thesis
      using that post_effect_stored [OF inv(2) inv' eff] posted_legs [OF post_rows(5) [OF eff]]
      by (simp add: samePayload_mset)
  qed
qed

lemma PostTransaction_stored:
  assumes inv: "ledger_inv snap" "ledger_inv s" and grow: "grows snap s" and snap: "snapshot_of snap s"
    and post: "PostTransaction env snap refType refID holdID specs s = (Inr view, s')"
  obtains ps where "map_err (resolveLeg s') specs = Inr ps" and "samePayload view ps" and "stored_entry s' refType refID view"
    and "refType \<noteq> ''''" and "refID \<noteq> ''''"
proof -
  have inv': "ledger_inv s'" by (rule PostTransaction_inv [OF inv(2) snap post])
  from post show ?thesis
  proof (cases rule: PostTransaction_cases)
    case (ran res')
    show ?thesis
    proof (cases res')
      case (Inr v)
      then have tx: "postOnceTx env snap refType refID holdID specs s = Inr (view, s')"
        using ran WithTx_Inr by (fastforce simp: postOnce_def WithinTx_def)
      show ?thesis by (rule postOnceTx_stored [OF inv grow snap tx]) (rule that [OF _ _ _ ran(2,3)])
    next
      case (Inl err)
      then have "replayByReference s' refType refID specs = Inr view" using ran by (auto split: if_splits)
      then obtain e occ ps where ref: "getEntryRef s' refType refID = Inr (e, occ)" and get: "getEntryWithPostings s' e occ = Inr view"
        and ps: "map_err (resolveLeg s') specs = Inr ps" "samePayload view ps"
        unfolding replayByReference_def resolveLeg_def [abs_def]
        by (auto split: if_splits)
      show ?thesis by (rule that [OF ps lookup_stored_entry [OF inv' ref get] ran(2,3)])
    qed
  qed simp
qed

text \<open>
  What a request for a recorded reference is answered, whoever sends it and whatever hold it
  names.
\<close>

lemma PostTransaction_recorded:
  assumes inv: "ledger_inv s" and st: "stored_entry s refType refID view" and ps: "map_err (resolveLeg s) specs = Inr ps"
    and ref: "refType \<noteq> ''''" "refID \<noteq> ''''" and env: "env_begin env = None" "env_commit env = Committed"
  obtains v where "stored_entry s refType refID v" and "evw_ID v = evw_ID view" and "evw_OccurredAt v = evw_OccurredAt view"
    and "mset (evw_Postings v) = mset (evw_Postings view)"
    and "PostTransaction env s refType refID holdID specs s
       = (if samePayload view ps then Inr v else Inl (toAppErr (Sentinel ErrDuplicateReference)), s)"
proof -
  obtain e where e: "e \<in> set (journal_entries s)" "je_ReferenceType e = refType" "je_ReferenceID e = refID"
    "evw_ID view = je_ID e" "evw_OccurredAt view = je_OccurredAt e"
    "mset (evw_Postings view) = mset (stored_views s (entry_key e))"
    using st unfolding stored_entry_def by auto
  obtain v where get: "getEntryRef s refType refID = Inr (entry_key e)" "getEntryWithPostings s (je_ID e) (je_OccurredAt e) = Inr v"
    "evw_ID v = je_ID e" "evw_OccurredAt v = je_OccurredAt e" "mset (evw_Postings v) = mset (stored_views s (entry_key e))"
    using getEntryWithPostings_entry [OF inv e(1)] e(2,3) by metis
  obtain accounts order where res: "resolveSpecs s specs = Inr (accounts, ps, order)" using ps resolveSpecs_map by blast
  have "samePayload v ps \<longleftrightarrow> samePayload view ps"
    using get(5) e(6) by (simp add: samePayload_mset)
  moreover have "check_entry_zero_sum s" by (rule entries_ok_trigger [OF ledger_invD(4,3) [OF inv]])
  ultimately have "PostTransaction env s refType refID holdID specs s
      = (if samePayload view ps then Inr v else Inl (toAppErr (Sentinel ErrDuplicateReference)), s)"
    using ref env get(1,2) res
    by (simp add: PostTransaction_def postOnce_def WithinTx_def WithTx_def postOnceTx_def entry_key_def)
  moreover have "stored_entry s refType refID v"
    by (rule lookup_stored_entry [OF inv]) (use get in \<open>simp_all add: entry_key_def\<close>)
  ultimately show ?thesis using that get e by simp
qed

text \<open>
  C21. Posting is idempotent: once a posting has succeeded, repeating the same request at any
  later time, whatever happened in between and whatever hold it names, succeeds with the
  same entry, time and legs and changes nothing.
\<close>

theorem PostTransaction_idempotent:
  assumes "ledger_reachable snap" and "ledger_step\<^sup>*\<^sup>* snap s"
    and "PostTransaction env snap refType refID holdID specs s = (Inr view, s')" and "ledger_step\<^sup>*\<^sup>* s' s2"
    and "env_begin env2 = None" and "env_commit env2 = Committed"
  shows "\<exists>v. PostTransaction env2 s2 refType refID holdID2 specs s2 = (Inr v, s2) \<and> evw_ID v = evw_ID view
     \<and> evw_OccurredAt v = evw_OccurredAt view \<and> mset (evw_Postings v) = mset (evw_Postings view)"
proof -
  have inv: "ledger_inv snap" "ledger_inv s" and grow: "grows snap s"
    using assms(1,2) reachable_inv ledger_steps_inv ledger_steps_grow by auto
  then have snap: "snapshot_of snap s" by (auto simp: grows_def snapshot_of_def)
  obtain ps where ps: "map_err (resolveLeg s') specs = Inr ps" "samePayload view ps"
    and st: "stored_entry s' refType refID view" and ref: "refType \<noteq> ''''" "refID \<noteq> ''''"
    by (rule PostTransaction_stored [OF inv grow snap assms(3)])
  have inv': "ledger_inv s'" "ledger_inv s2" and grow': "grows s' s2"
    using PostTransaction_inv [OF inv(2) snap assms(3)] ledger_steps_inv [OF assms(4)] ledger_steps_grow [OF assms(4)] by auto
  have "map_err (resolveLeg s2) specs = Inr ps"
    by (rule map_err_mono [OF ps(1)]) (auto simp: resolveLeg_def sum_bind_Inr_iff dest: getAccountByRef_grows [OF _ grow'])
  from PostTransaction_recorded [OF inv'(2) stored_entry_grows [OF inv' grow' st] this ref assms(5,6)] ps(2)
  show ?thesis by metis
qed

lemma recorded_unchanged:
  assumes "ledger_inv s" and "snapshot_of snap s"
    and "(refType, refID) \<in> (\<lambda>e. (je_ReferenceType e, je_ReferenceID e)) ` set (journal_entries s)"
    and "PostTransaction env snap refType refID holdID specs s = (res, s')"
  shows "s' = s"
proof -
  have refs: "(refType, refID) \<in> (\<lambda>r. (jr_ReferenceType r, jr_ReferenceID r)) ` set (journal_entry_refs s)"
  proof -
    have "map (\<lambda>r. (jr_ReferenceType r, jr_ReferenceID r, jr_EntryID r, jr_OccurredAt r)) (journal_entry_refs s)
       = map (\<lambda>e. (je_ReferenceType e, je_ReferenceID e, je_ID e, je_OccurredAt e)) (journal_entries s)"
      using ledger_invD(2) [OF assms(1)] by (simp add: journal_ok_def)
    from arg_cong [OF this, of "\<lambda>xs. (\<lambda>(t, i, _). (t, i)) ` set xs"] show ?thesis
      using assms(3) by (simp add: image_image)
  qed
  from assms(4) show ?thesis
  proof (cases rule: PostTransaction_cases)
    case (ran res')
    then have "s' = s \<or> (\<exists>v. postOnceTx env snap refType refID holdID specs s = Inr (v, s'))"
      using WithTx_state [of check_entry_zero_sum env "postOnceTx env snap refType refID holdID specs" s res' s']
      by (auto simp: postOnce_def WithinTx_def)
    then show ?thesis
    proof (elim disjE exE)
      fix v assume "postOnceTx env snap refType refID holdID specs s = Inr (v, s')"
      from this assms(2) show "s' = s"
      proof (cases rule: postOnceTx_cases)
        case (fresh accounts ps)
        have False by (rule postNew_effect [OF fresh(3,2)]) (use refs in \<open>auto simp: post_effect_def\<close>)
        then show ?thesis ..
      qed
    qed
  qed
qed

text \<open>
  C22. A reference is never posted twice: when the ledger already has an entry for the reference,
  no posting request for it changes anything, also when its unlocked reads are stale and
  missed the entry (a lost race), when it names a hold, and whatever becomes of its commit.
\<close>

theorem no_double_posting:
  assumes "ledger_reachable s" and "snapshot_of snap s"
    and "(refType, refID) \<in> (\<lambda>e. (je_ReferenceType e, je_ReferenceID e)) ` set (journal_entries s)"
    and "PostTransaction env snap refType refID holdID specs s = (res, s')"
  shows "s' = s"
  using recorded_unchanged [OF reachable_inv [OF assms(1)] assms(2-4)] .

end
