(* ===== verification/Ledger_Holds.thy ===== *)
theory Ledger_Holds
  imports Ledger_Replay
begin

text \<open>
  The life of a hold: it is placed once per reference, its terms never change, and it
  leaves the active state once, to captured or released, for good.
\<close>

section \<open>Life cycle\<close>

definition hold_evolves :: "Hold \<Rightarrow> Hold \<Rightarrow> bool" where
  "hold_evolves h h' \<longleftrightarrow> h'\<lparr>hold_Status := hold_Status h\<rparr> = h \<and> (hold_Status h \<noteq> HoldActive \<longrightarrow> h' = h)"

definition holds_evolve :: "ledger_db \<Rightarrow> ledger_db \<Rightarrow> bool" where
  "holds_evolve s s' \<longleftrightarrow> (\<exists>hs new. holds s' = hs @ new \<and> list_all2 hold_evolves (holds s) hs)"

lemma hold_evolves_refl [simp]: "hold_evolves h h"
  by (simp add: hold_evolves_def)

lemma hold_evolves_trans: "hold_evolves a b \<Longrightarrow> hold_evolves b c \<Longrightarrow> hold_evolves a c"
  by (cases a; cases b; cases c) (auto simp: hold_evolves_def)

lemma hold_evolves_same:
  assumes "hold_evolves h h'"
  shows "hold_ID h' = hold_ID h" "hold_AccountID h' = hold_AccountID h" "hold_Amount h' = hold_Amount h"
    "hold_ReferenceType h' = hold_ReferenceType h" "hold_ReferenceID h' = hold_ReferenceID h"
  using assms by (cases h; cases h'; auto simp: hold_evolves_def)+

lemma holds_evolve_append: "holds s' = holds s @ new \<Longrightarrow> holds_evolve s s'"
  unfolding holds_evolve_def by (intro exI [of _ "holds s"] exI [of _ new]) (simp add: list_all2_same)

lemma holds_evolve_same: "holds s' = holds s \<Longrightarrow> holds_evolve s s'"
  using holds_evolve_append [of s' s "[]"] by simp

lemma holds_evolve_trans:
  assumes "holds_evolve s1 s2" and "holds_evolve s2 s3"
  shows "holds_evolve s1 s3"
proof -
  obtain hs new where 1: "holds s2 = hs @ new" "list_all2 hold_evolves (holds s1) hs"
    using assms(1) by (auto simp: holds_evolve_def)
  obtain hs' new' where 2: "holds s3 = hs' @ new'" "list_all2 hold_evolves (hs @ new) hs'"
    using assms(2) 1 by (auto simp: holds_evolve_def)
  then obtain us vs where "hs' = us @ vs" "list_all2 hold_evolves hs us"
    by (auto simp: list_all2_append1)
  moreover have "list_all2 hold_evolves (holds s1) us"
    using list_all2_trans [of hold_evolves hold_evolves hold_evolves] hold_evolves_trans 1(2) calculation(2) by blast
  ultimately show ?thesis using 2(1) unfolding holds_evolve_def by (metis append.assoc)
qed

lemma holds_evolve_status:
  assumes "distinct (map hold_ID (holds s))" and "select_one (\<lambda>h. hold_ID h = i) (holds s) = Some h" and "hold_Status h = HoldActive"
    and "holds s' = update_where (\<lambda>h. hold_ID h = i) (\<lambda>h. h\<lparr>hold_Status := st\<rparr>) (holds s)"
  shows "holds_evolve s s'"
proof -
  have "hold_evolves x (if hold_ID x = i then x\<lparr>hold_Status := st\<rparr> else x)" if "x \<in> set (holds s)" for x
  proof (cases "hold_ID x = i")
    case True
    then have "x = h" using hold_table.lookup_unique [OF assms(1) that] assms(2) by simp
    then show ?thesis using assms(3) by (simp add: hold_evolves_def)
  qed simp
  then have "list_all2 hold_evolves (holds s) (holds s')"
    by (simp add: assms(4) update_where_def list_all2_map2 list_all2_same)
  then show ?thesis unfolding holds_evolve_def by force
qed

lemma releaseHoldTx_cases:
  assumes inv: "ledger_inv s" and rel: "releaseHoldTx env holdID s = Inr (hold, s')"
  obtains (again) "s' = s" "select_one (\<lambda>h. hold_ID h = holdID) (holds s) = Some hold" "hold_Status hold = HoldReleased"
  | (released) h where "select_one (\<lambda>h. hold_ID h = holdID) (holds s) = Some h" "hold_Status h = HoldActive"
      "hold = h\<lparr>hold_Status := HoldReleased\<rparr>"
      "holds s' = update_where (\<lambda>h. hold_ID h = holdID) (\<lambda>h. h\<lparr>hold_Status := HoldReleased\<rparr>) (holds s)"
proof -
  obtain h released changed where h: "select_one (\<lambda>h. hold_ID h = holdID) (holds s) = Some h"
    and rd: "domain_ReleaseHold h = Inr (released, changed)"
    using rel by (auto simp: releaseHoldTx_def tx_LockHoldByID_Inr)
  then have hk: "hold_ID h = holdID" "h \<in> set (holds s)" by (auto dest: select_one_Some)
  show ?thesis
  proof (cases changed)
    case False
    then show ?thesis using rel h rd again by (auto simp: releaseHoldTx_def tx_LockHoldByID_Inr domain_ReleaseHold_Inr split: if_splits)
  next
    case True
    have "hold_Status h = HoldActive" "hold = h\<lparr>hold_Status := HoldReleased\<rparr>"
      using ledger_invD(7) [OF inv] hk True rd rel h
      by (auto simp: holds_ok_def domain_ReleaseHold_Inr releaseHoldTx_def tx_LockHoldByID_Inr Let_def split: if_splits)
    moreover have "holds s' = update_where (\<lambda>h. hold_ID h = holdID) (\<lambda>h. h\<lparr>hold_Status := HoldReleased\<rparr>) (holds s)"
      using rel h rd True hk
      by (auto simp: releaseHoldTx_def tx_LockHoldByID_Inr Let_def tx_UpdateBalance_Inr tx_SetHoldStatus_Inr split: if_splits)
    ultimately show ?thesis using released h by blast
  qed
qed

lemma postNew_holds:
  assumes "postNew env refType refID holdID accounts ps (map post_AccountID ps) s = Inr (view, s')" and "accounts_from s accounts"
  obtains (no_hold) "holdID = ''''" "holds s' = holds s"
  | (captured) h where "holdID \<noteq> ''''" "select_one (\<lambda>h. hold_ID h = holdID) (holds s) = Some h" "hold_Status h = HoldActive"
      "hold_ReferenceType h = refType" "hold_ReferenceID h = refID"
      "holds s' = update_where (\<lambda>h. hold_ID h = holdID) (\<lambda>h. h\<lparr>hold_Status := HoldCaptured\<rparr>) (holds s)"
proof (rule postNew_effect [OF assms])
  fix delta heldAdj s1 bs new
  assume cap: "captureHoldStep refType refID holdID delta s = Inr (heldAdj, s1)"
    and eff: "post_effect env refType refID accounts ps delta heldAdj bs view new s s1 s'"
  have "holds s' = holds s1" using eff by (simp add: post_effect_def)
  then show ?thesis
    by (cases rule: captureHoldStep_Inr [OF cap]) (use no_hold captured in auto)
qed

lemma WithinTx_evolves:
  assumes "WithinTx env fn s = (res, s')" and "\<And>x s'. fn s = Inr (x, s') \<Longrightarrow> holds_evolve s s'"
  shows "holds_evolve s s'"
  using WithTx_state [of check_entry_zero_sum env fn s res s'] assms by (auto simp: WithinTx_def intro: holds_evolve_same)

lemma placeNewHold_holds:
  assumes "placeNewHold env acct amount cur refType refID ttl s = Inr (h, s')"
  shows "holds s' = holds s @ [h\<lparr>hold_ExpiresAt := pg_timestamptz (hold_ExpiresAt h)\<rparr>]"
    and "hold_AccountID h = acct_ID acct" "hold_Amount h = amount" "hold_ReferenceType h = refType" "hold_ReferenceID h = refID"
      "hold_Status h = HoldActive" "hold_ID h \<notin> hold_ID ` set (holds s)"
      "(refType, refID) \<notin> (\<lambda>x. (hold_ReferenceType x, hold_ReferenceID x)) ` set (holds s)"
  using assms by (auto simp: placeNewHold_def Let_def tx_InsertHold_def q_InsertHold_def tx_UpdateBalance_Inr split: if_splits)

lemma placeHoldTx_evolves:
  "placeHoldTx env snap ref amount cur refType refID ttl s = Inr (h, s') \<Longrightarrow> holds_evolve s s'"
  by (auto simp: placeHoldTx_def holds_evolve_same split: sum.splits if_splits dest!: placeNewHold_holds(1) intro: holds_evolve_append)

lemma ledger_step_evolves:
  assumes "ledger_step s s'" and inv: "ledger_inv s"
  shows "holds_evolve s s'"
proof -
  have ids: "distinct (map hold_ID (holds s))" using ledger_invD(7) [OF inv] by (simp add: holds_ok_def)
  show ?thesis using assms(1)
  proof cases
    case (create env ext cur res)
    have "UpsertCustomerAccount env ext cur s = Inr (acc, s'') \<Longrightarrow> holds_evolve s s''" for acc s''
      by (erule UpsertCustomerAccount_Inr) (auto simp: q_InsertBalanceRow_def split: if_splits intro: holds_evolve_same)
    then show ?thesis using create
      by (auto simp: CreateAccount_def split: if_splits prod.splits sum.splits intro: WithinTx_evolves holds_evolve_same)
  next
    case (hold snap env ref amount cur refType refID ttl res)
    then show ?thesis by (auto intro: WithinTx_evolves placeHoldTx_evolves)
  next
    case (release env holdID res)
    have "releaseHoldTx env holdID s = Inr (h, s'') \<Longrightarrow> holds_evolve s s''" for h s''
      by (erule releaseHoldTx_cases [OF inv]) (auto intro: holds_evolve_same holds_evolve_status [OF ids])
    then show ?thesis using release
      by (auto simp: ReleaseHold_def split: prod.splits sum.splits intro: WithinTx_evolves)
  next
    case (post snap env refType refID holdID specs res)
    have tx: "holds_evolve s s''" if "postOnceTx env snap refType refID holdID specs s = Inr (v, s'')" for v s''
      using that post(1)
    proof (cases rule: postOnceTx_cases)
      case (fresh accounts ps)
      show ?thesis by (cases rule: postNew_holds [OF fresh(3,2)]) (auto intro: holds_evolve_same holds_evolve_status [OF ids])
    qed (simp add: holds_evolve_same)
    from post(2) show ?thesis
      by (cases rule: PostTransaction_cases) (auto simp: postOnce_def intro: WithinTx_evolves [OF _ tx] holds_evolve_same)
  next
    case (relay env locked produce log res t log')
    then show ?thesis by (auto intro: holds_evolve_same)
  qed
qed

lemma ledger_steps_evolve: "ledger_step\<^sup>*\<^sup>* s s' \<Longrightarrow> ledger_inv s \<Longrightarrow> holds_evolve s s'"
proof (induction rule: rtranclp_induct)
  case (step s1 s2)
  then show ?case using ledger_step_evolves ledger_steps_inv holds_evolve_trans by blast
qed (simp add: holds_evolve_same)

text \<open>
  C25. The life of a hold: whatever runs, no hold disappears, its account, amount, reference
  and expiry never change, and a hold that was captured or released stays exactly so; in
  particular a captured hold is never released and a released hold is never captured.
\<close>

theorem hold_lifecycle:
  assumes "ledger_reachable s" and "ledger_step\<^sup>*\<^sup>* s s'" and "h \<in> set (holds s)"
  shows "\<exists>h' \<in> set (holds s'). h'\<lparr>hold_Status := hold_Status h\<rparr> = h \<and> (hold_Status h \<noteq> HoldActive \<longrightarrow> h' = h)"
proof -
  obtain hs new where "holds s' = hs @ new" "list_all2 hold_evolves (holds s) hs"
    using ledger_steps_evolve [OF assms(2) reachable_inv [OF assms(1)]] by (auto simp: holds_evolve_def)
  then obtain h' where "h' \<in> set (holds s')" "hold_evolves h h'"
    using assms(3) by (metis UnCI in_set_conv_nth list_all2_conv_all_nth set_append)
  then show ?thesis by (auto simp: hold_evolves_def)
qed

section \<open>Placing\<close>

lemma holds_evolve_reference:
  assumes "holds_evolve s s'" and "(t, i) \<in> (\<lambda>h. (hold_ReferenceType h, hold_ReferenceID h)) ` set (holds s)"
  shows "(t, i) \<in> (\<lambda>h. (hold_ReferenceType h, hold_ReferenceID h)) ` set (holds s')"
proof -
  obtain hs new where hs: "holds s' = hs @ new" "list_all2 hold_evolves (holds s) hs"
    using assms(1) by (auto simp: holds_evolve_def)
  from hs(2) have "map (\<lambda>h. (hold_ReferenceType h, hold_ReferenceID h)) hs = map (\<lambda>h. (hold_ReferenceType h, hold_ReferenceID h)) (holds s)"
    by (induction rule: list_all2_induct) (simp_all add: hold_evolves_same)
  from arg_cong [OF this, of set] show ?thesis using assms(2) hs(1) by auto
qed

lemma getAccountByRef_no_conflict: "getAccountByRef s ref = Inl err \<Longrightarrow> \<not> errors_Is err ErrRefConflict"
  by (auto simp: getAccountByRef_def rawErr_def split: if_splits sum.splits pg_error.splits)

text \<open>The only conflict of a placement is the unique index on the hold id or on the reference.\<close>

lemma placeHoldTx_conflict:
  assumes "placeHoldTx env snap ref amount cur refType refID ttl s = Inl err" and "errors_Is err ErrRefConflict"
  shows "(\<exists>u. env_uuid env 0 = Some u \<and> u \<in> hold_ID ` set (holds s))
     \<or> (refType, refID) \<in> (\<lambda>h. (hold_ReferenceType h, hold_ReferenceID h)) ` set (holds s)"
  using assms getAccountByRef_no_conflict [of snap ref]
  by (auto simp: placeHoldTx_def placeNewHold_def Let_def sum_bind_Inl_iff tx_GetHoldByReference_def q_GetHoldByReference_def
      tx_LockBalance_def q_LockBalance_def map_left_Inl one_row_Inl mapErr_def rawErr_def CanPlaceHold_def uuid_NewV7_def
      tx_InsertHold_def q_InsertHold_def tx_UpdateBalance_def q_UpdateBalance_def
      split: if_splits sum.splits option.splits)

lemma placeHoldTx_recorded:
  assumes "ledger_inv s" and "h \<in> set (holds s)" and "hold_ReferenceType h = refType" and "hold_ReferenceID h = refID"
    and "getAccountByRef s ref = Inr acct"
  shows "placeHoldTx env s ref amount cur refType refID ttl s =
    (if hold_AccountID h = acct_ID acct \<and> hold_Amount h = amount then Inr (h, s) else Inl (Sentinel ErrDuplicateReference))"
proof -
  have dist: "distinct (map (\<lambda>h. (hold_ReferenceType h, hold_ReferenceID h)) (holds s))"
    using ledger_invD(7) [OF assms(1)] by (simp add: holds_ok_def)
  obtain x where x: "select_one (\<lambda>h. hold_ReferenceType h = refType \<and> hold_ReferenceID h = refID) (holds s) = Some x"
    using assms(2-4) by (metis (mono_tags, lifting) not_Some_eq select_one_None)
  then have "x \<in> set (holds s)" "hold_ReferenceType x = refType" "hold_ReferenceID x = refID" by (auto dest: select_one_Some)
  then have "x = h" using assms(2-4) dist by (metis (mono_tags, lifting) distinct_map inj_onD)
  then have "tx_GetHoldByReference s refType refID = Inr h" using x by (simp add: tx_GetHoldByReference_Inr)
  then show ?thesis using assms(5) by (auto simp: placeHoldTx_def)
qed

text \<open>
  Placing a hold is idempotent by reference: when the ledger has a hold for the reference, a
  request with the same account and amount returns that hold and changes nothing, and a
  request with another account or amount is refused as \<open>ALREADY_EXISTS\<close> and changes nothing.
\<close>

theorem PlaceHold_idempotent:
  assumes "ledger_reachable s" and "h \<in> set (holds s)" and "hold_ReferenceType h = refType" and "hold_ReferenceID h = refID"
    and "refType \<noteq> ''''" and "refID \<noteq> ''''" and "getAccountByRef s ref = Inr acct"
    and "at_others a s = s" and "at_snap a s = s" and "env_begin (at_env a) = None" and "env_commit (at_env a) = Committed"
  shows "PlaceHold dflt (a # as) ref amount cur refType refID ttl s =
    (Some (if hold_AccountID h = acct_ID acct \<and> hold_Amount h = amount then Inr h
           else Inl (app_Wrap CodeAlreadyExists ''reference already used with a different payload'' (Sentinel ErrDuplicateReference))), s)"
proof -
  note inv = reachable_inv [OF assms(1)]
  have "check_entry_zero_sum s" by (rule entries_ok_trigger [OF ledger_invD(4,3) [OF inv]])
  then show ?thesis
    using assms(5-11) placeHoldTx_recorded [OF inv assms(2-4,7)]
    by (simp add: WithinTx_def WithTx_def Let_def toAppErr_def)
qed

text \<open>
  C31. \<open>PlaceHold\<close>, which calls itself when it loses the race for a reference, returns after at most
  one repetition: given a fresh identifier, a lost race means that the reference is
  recorded, and the second attempt, reading after the conflict, finds it.
\<close>

theorem PlaceHold_returns:
  assumes "ledger_reachable (at_others a1 s)" and "ledger_step\<^sup>*\<^sup>* (at_others a1 s) (at_others a2 (at_others a1 s))"
    and "at_snap a2 (at_others a2 (at_others a1 s)) = at_others a2 (at_others a1 s)"
    and "\<And>u. env_uuid (at_env a1) 0 = Some u \<Longrightarrow> u \<notin> hold_ID ` set (holds (at_others a1 s))"
  shows "\<exists>res s'. PlaceHold dflt (a1 # a2 # as) ref amount cur refType refID ttl s = (Some res, s')"
proof (cases "refType = '''' \<or> refID = ''''")
  case False
  let ?s1 = "at_others a1 s" and ?s2 = "at_others a2 (at_others a1 s)" and ?ttl = "if ttl \<le>s 0 then dflt else ttl"
  obtain res1 t1 where r1: "WithinTx (at_env a1) (placeHoldTx (at_env a1) (at_snap a1 ?s1) ref amount cur refType refID ?ttl) ?s1 = (res1, t1)"
    by fastforce
  show ?thesis
  proof (cases "\<exists>err. res1 = Inl err \<and> errors_Is err ErrRefConflict")
    case False
    then show ?thesis using \<open>\<not> (refType = '''' \<or> refID = '''')\<close> r1 by (cases res1) (auto simp: Let_def)
  next
    case True
    then obtain err where err: "res1 = Inl err" "errors_Is err ErrRefConflict" by blast
    then have t1: "t1 = ?s1" and fn: "placeHoldTx (at_env a1) (at_snap a1 ?s1) ref amount cur refType refID ?ttl ?s1 = Inl err"
      using WithTx_Inl_sentinel r1 unfolding WithinTx_def by fastforce+
    have ref1: "(refType, refID) \<in> (\<lambda>h. (hold_ReferenceType h, hold_ReferenceID h)) ` set (holds ?s1)"
      using placeHoldTx_conflict [OF fn err(2)] assms(4) by blast
    have inv: "ledger_inv ?s1" "ledger_inv ?s2" using reachable_inv [OF assms(1)] ledger_steps_inv [OF assms(2)] by auto
    have "(refType, refID) \<in> (\<lambda>h. (hold_ReferenceType h, hold_ReferenceID h)) ` set (holds ?s2)"
      by (rule holds_evolve_reference [OF ledger_steps_evolve [OF assms(2) inv(1)] ref1])
    then obtain h where h: "h \<in> set (holds ?s2)" "hold_ReferenceType h = refType" "hold_ReferenceID h = refID" by auto
    let ?ttl2 = "if ?ttl \<le>s 0 then dflt else ?ttl"
    obtain res2 t2 where r2: "WithinTx (at_env a2) (placeHoldTx (at_env a2) ?s2 ref amount cur refType refID ?ttl2) ?s2 = (res2, t2)"
      by fastforce
    have "\<not> errors_Is e ErrRefConflict" if e: "res2 = Inl e" for e
    proof
      assume c: "errors_Is e ErrRefConflict"
      then have "placeHoldTx (at_env a2) ?s2 ref amount cur refType refID ?ttl2 ?s2 = Inl e"
        using WithTx_Inl_sentinel r2 e unfolding WithinTx_def by fastforce
      then show False using c getAccountByRef_no_conflict [of ?s2 ref] placeHoldTx_recorded [OF inv(2) h]
        by (cases "getAccountByRef ?s2 ref") (auto simp: placeHoldTx_def split: if_splits)
    qed
    then show ?thesis
      using \<open>\<not> (refType = '''' \<or> refID = '''')\<close> r1 r2 err t1 assms(3) by (cases res2) (auto simp: Let_def)
  qed
qed simp

section \<open>Releasing\<close>

lemma active_total_member:
  assumes "holds_ok s" and "h \<in> set (holds s)" and "hold_Status h = HoldActive"
  shows "sint (hold_Amount h) \<le> active_total (hold_AccountID h) (holds s)"
proof -
  have "\<forall>x \<in> set hs. 0 < sint (hold_Amount x) \<Longrightarrow> h \<in> set hs \<Longrightarrow> sint (hold_Amount h) \<le> active_total (hold_AccountID h) hs" for hs
  proof (induction hs)
    case (Cons x hs)
    have "0 \<le> active_total (hold_AccountID h) hs"
      using Cons.prems(1) unfolding active_total_def by (intro sum_list_nonneg) auto
    then show ?case using Cons assms(3) by (auto simp: active_total_def)
  qed simp
  then show ?thesis using assms by (auto simp: holds_ok_def)
qed

lemma releaseHoldTx_active:
  assumes inv: "ledger_inv s" and h: "h \<in> set (holds s)" and act: "hold_Status h = HoldActive"
  obtains r where "select_one (\<lambda>r. ab_AccountID r = hold_AccountID h) (account_balances s) = Some r"
    and "sint (ab_Held r - hold_Amount h) = sint (ab_Held r) - sint (hold_Amount h)"
    and "releaseHoldTx env (hold_ID h) s = Inr (h\<lparr>hold_Status := HoldReleased\<rparr>,
       s\<lparr>account_balances := update_where (\<lambda>r. ab_AccountID r = hold_AccountID h)
           (set_balance env (balanceFromRow r\<lparr>bal_Held := ab_Held r - hold_Amount h\<rparr>)) (account_balances s),
         holds := update_where (\<lambda>x. hold_ID x = hold_ID h) (\<lambda>h. h\<lparr>hold_Status := HoldReleased\<rparr>) (holds s)\<rparr>)"
proof -
  have "distinct (map hold_ID (holds s))" and amt: "0 < sint (hold_Amount h)"
    and own: "hold_AccountID h \<in> la_ID ` set (ledger_accounts s)"
    using ledger_invD(7) [OF inv] h by (auto simp: holds_ok_def)
  then have lock: "tx_LockHoldByID s (hold_ID h) = Inr h"
    using hold_table.lookup_unique h by (simp add: tx_LockHoldByID_Inr)
  have "set (map ab_AccountID (account_balances s)) = set (map la_ID (ledger_accounts s))"
    by (simp only: accounts_ok_keys(2) [OF ledger_invD(1) [OF inv]])
  then have "hold_AccountID h \<in> ab_AccountID ` set (account_balances s)" using own by simp
  then obtain r where r: "select_one (\<lambda>r. ab_AccountID r = hold_AccountID h) (account_balances s) = Some r"
    using bal_table.lookup_None by (metis not_Some_eq)
  then have rk: "r \<in> set (account_balances s)" "ab_AccountID r = hold_AccountID h" by (auto dest: select_one_Some)
  have "active_total (hold_AccountID h) (holds s) \<le> sint (ab_Held r)"
    using ledger_invD(6) [OF inv] rk by (auto simp: held_ok_def)
  then have ge: "sint (hold_Amount h) \<le> sint (ab_Held r)"
    using active_total_member [OF ledger_invD(7) [OF inv] h act] by simp
  then have exact: "sint (ab_Held r - hold_Amount h) = sint (ab_Held r) - sint (hold_Amount h)"
    using amt sint_int64_bounds [of "ab_Held r"] by (simp add: sint_diff_int64)
  have "tx_LockBalance s (hold_AccountID h) = Inr (balanceFromRow r)" using r by (simp add: tx_LockBalance_Inr)
  moreover have "domain_ReleaseHold h = Inr (h\<lparr>hold_Status := HoldReleased\<rparr>, True)" using act by (simp add: domain_ReleaseHold_def)
  moreover have "tx_UpdateBalance env (balanceFromRow r\<lparr>bal_Held := ab_Held r - hold_Amount h\<rparr>) s =
      Inr (s\<lparr>account_balances := update_where (\<lambda>r. ab_AccountID r = hold_AccountID h)
           (set_balance env (balanceFromRow r\<lparr>bal_Held := ab_Held r - hold_Amount h\<rparr>)) (account_balances s)\<rparr>)"
    using exact ge rk(2) by (simp add: tx_UpdateBalance_Inr)
  ultimately show ?thesis
    using that [OF r exact] lock exact ge
    by (simp add: releaseHoldTx_def Let_def int64_simps tx_SetHoldStatus_def q_SetHoldStatus_def map_left_def)
qed

text \<open>
  Releasing is total on every branch: an active hold of a reachable ledger can always be
  released, which lowers the held amount of its account by exactly the amount of the hold and
  leaves balance and version alone (the code's test for an underflow of \<open>held\<close> never fires);
  releasing it again returns it unchanged; a captured hold is refused as \<open>INVALID_ARGUMENT\<close>.
\<close>

theorem ReleaseHold_total:
  assumes "ledger_reachable s" and "h \<in> set (holds s)" and "env_begin env = None" and "env_commit env = Committed"
  shows "(hold_Status h = HoldActive \<longrightarrow> (\<exists>s' r r'. ReleaseHold env (hold_ID h) s = (Inr (h\<lparr>hold_Status := HoldReleased\<rparr>), s')
      \<and> select_one (\<lambda>r. ab_AccountID r = hold_AccountID h) (account_balances s) = Some r
      \<and> select_one (\<lambda>r. ab_AccountID r = hold_AccountID h) (account_balances s') = Some r'
      \<and> sint (ab_Held r') = sint (ab_Held r) - sint (hold_Amount h) \<and> ab_Balance r' = ab_Balance r \<and> ab_Version r' = ab_Version r))
    \<and> (hold_Status h = HoldReleased \<longrightarrow> ReleaseHold env (hold_ID h) s = (Inr h, s))
    \<and> (hold_Status h = HoldCaptured \<longrightarrow> (\<exists>err. ReleaseHold env (hold_ID h) s = (Inl err, s) \<and> CodeOf err = CodeInvalidArgument))"
proof -
  note inv = reachable_inv [OF assms(1)]
  have trig: "check_entry_zero_sum s" by (rule entries_ok_trigger [OF ledger_invD(4,3) [OF inv]])
  have "distinct (map hold_ID (holds s))" using ledger_invD(7) [OF inv] by (simp add: holds_ok_def)
  then have lock: "tx_LockHoldByID s (hold_ID h) = Inr h"
    using hold_table.lookup_unique assms(2) by (simp add: tx_LockHoldByID_Inr)
  have "\<exists>s' r r'. ReleaseHold env (hold_ID h) s = (Inr (h\<lparr>hold_Status := HoldReleased\<rparr>), s')
      \<and> select_one (\<lambda>r. ab_AccountID r = hold_AccountID h) (account_balances s) = Some r
      \<and> select_one (\<lambda>r. ab_AccountID r = hold_AccountID h) (account_balances s') = Some r'
      \<and> sint (ab_Held r') = sint (ab_Held r) - sint (hold_Amount h) \<and> ab_Balance r' = ab_Balance r \<and> ab_Version r' = ab_Version r"
    if act: "hold_Status h = HoldActive"
  proof (rule releaseHoldTx_active [OF inv assms(2) act, of env], goal_cases)
    case (1 r)
    let ?b = "balanceFromRow r\<lparr>bal_Held := ab_Held r - hold_Amount h\<rparr>"
    let ?s = "s\<lparr>account_balances := update_where (\<lambda>r. ab_AccountID r = hold_AccountID h) (set_balance env ?b) (account_balances s),
       holds := update_where (\<lambda>x. hold_ID x = hold_ID h) (\<lambda>h. h\<lparr>hold_Status := HoldReleased\<rparr>) (holds s)\<rparr>"
    have "check_entry_zero_sum ?s" using trig by (simp add: check_entry_zero_sum_def entry_total_def)
    then have "ReleaseHold env (hold_ID h) s = (Inr (h\<lparr>hold_Status := HoldReleased\<rparr>), ?s)"
      using 1(3) assms(3,4) by (simp add: ReleaseHold_def WithinTx_def WithTx_def)
    moreover have "select_one (\<lambda>r. ab_AccountID r = hold_AccountID h) (account_balances ?s) = Some (set_balance env ?b r)"
      using 1(1) bal_table.lookup_update [of "set_balance env ?b" "hold_AccountID h" "hold_AccountID h" "account_balances s"] by simp
    ultimately show ?case using 1(1,2) by (intro exI [of _ ?s] exI [of _ r] exI [of _ "set_balance env ?b r"]) simp
  qed
  moreover have "ReleaseHold env (hold_ID h) s = (Inr h, s)" if "hold_Status h = HoldReleased"
    using that lock trig assms(3,4) by (simp add: ReleaseHold_def WithinTx_def WithTx_def releaseHoldTx_def domain_ReleaseHold_def)
  moreover have "\<exists>err. ReleaseHold env (hold_ID h) s = (Inl err, s) \<and> CodeOf err = CodeInvalidArgument" if "hold_Status h = HoldCaptured"
    using that lock assms(3)
    by (simp add: ReleaseHold_def WithinTx_def WithTx_def releaseHoldTx_def domain_ReleaseHold_def toAppErr_def)
  ultimately show ?thesis by blast
qed

section \<open>The sweeper\<close>

lemma sweepOne_step: "ledger_step s (sweepOne envs h s)"
  unfolding sweepOne_def by (rule ledger_step.release [OF prod.collapse [symmetric]])

lemma sweep_steps: "ledger_step\<^sup>*\<^sup>* s (sweep env envs s)"
proof -
  have "ledger_step\<^sup>*\<^sup>* s (fold (sweepOne envs) hs s)" for hs
    by (induction hs arbitrary: s) (auto intro: converse_rtranclp_into_rtranclp sweepOne_step)
  then show ?thesis by (simp add: sweep_def)
qed

lemma sweepOne_holds:
  assumes "ledger_inv s"
  shows "holds (sweepOne envs h s) = holds s
    \<or> holds (sweepOne envs h s) = update_where (\<lambda>x. hold_ID x = hold_ID h) (\<lambda>h. h\<lparr>hold_Status := HoldReleased\<rparr>) (holds s)"
proof -
  obtain res s' where w: "WithinTx (envs (hold_ID h)) (releaseHoldTx (envs (hold_ID h)) (hold_ID h)) s = (res, s')" by fastforce
  then have "sweepOne envs h s = s'" by (simp add: sweepOne_def ReleaseHold_def split: sum.splits)
  moreover have "s' = s \<or> (\<exists>x. releaseHoldTx (envs (hold_ID h)) (hold_ID h) s = Inr (x, s'))"
    using WithTx_state w unfolding WithinTx_def by fastforce
  ultimately show ?thesis by (auto elim!: releaseHoldTx_cases [OF assms])
qed

lemma sweep_untouched:
  assumes "ledger_inv s" and "x \<in> set (holds s)" and "hold_ID x \<notin> hold_ID ` set hs"
  shows "x \<in> set (holds (fold (sweepOne envs) hs s))"
  using assms
proof (induction hs arbitrary: s)
  case (Cons h hs)
  have "x \<in> set (holds (sweepOne envs h s))"
    using sweepOne_holds [OF Cons.prems(1), of envs h] Cons.prems(2,3) by (auto simp: set_update_where image_iff)
  then show ?case using Cons ledger_step_inv [OF sweepOne_step Cons.prems(1)] by auto
qed simp

definition none_active :: "string \<Rightarrow> ledger_db \<Rightarrow> bool" where
  "none_active i s \<longleftrightarrow> (\<forall>x \<in> set (holds s). hold_ID x = i \<longrightarrow> hold_Status x \<noteq> HoldActive)"

lemma sweepOne_keeps: "ledger_inv s \<Longrightarrow> none_active i s \<Longrightarrow> none_active i (sweepOne envs h s)"
  using sweepOne_holds [of s envs h] by (auto simp: none_active_def set_update_where)

lemma sweepOne_releases:
  assumes inv: "ledger_inv s" and env: "env_begin (envs (hold_ID h)) = None" "env_commit (envs (hold_ID h)) = Committed"
  shows "none_active (hold_ID h) (sweepOne envs h s)"
  unfolding none_active_def
proof (intro ballI impI notI)
  fix y assume y: "y \<in> set (holds (sweepOne envs h s))" "hold_ID y = hold_ID h" and act: "hold_Status y = HoldActive"
  from sweepOne_holds [OF inv, of envs h] y act have same: "y \<in> set (holds s)"
    by (auto simp: set_update_where split: if_splits)
  have trig: "check_entry_zero_sum s" by (rule entries_ok_trigger [OF ledger_invD(4,3) [OF inv]])
  show False
  proof (rule releaseHoldTx_active [OF inv same act, of "envs (hold_ID y)"], goal_cases)
    case (1 r)
    then have "holds (sweepOne envs h s) = update_where (\<lambda>x. hold_ID x = hold_ID y) (\<lambda>h. h\<lparr>hold_Status := HoldReleased\<rparr>) (holds s)"
      using env y(2) trig by (simp add: sweepOne_def ReleaseHold_def WithinTx_def WithTx_def check_entry_zero_sum_def entry_total_def)
    then show False using y act by (auto simp: set_update_where)
  qed
qed

lemma sweep_releases:
  assumes "ledger_inv s" and "h \<in> set hs" and "\<And>i. env_begin (envs i) = None \<and> env_commit (envs i) = Committed"
  shows "none_active (hold_ID h) (fold (sweepOne envs) hs s)"
proof -
  have keep: "ledger_inv s \<Longrightarrow> none_active (hold_ID h) s \<Longrightarrow> none_active (hold_ID h) (fold (sweepOne envs) hs s)" for hs s
    by (induction hs arbitrary: s) (auto intro: sweepOne_keeps ledger_step_inv [OF sweepOne_step])
  show ?thesis using assms(1,2)
  proof (induction hs arbitrary: s)
    case (Cons g hs)
    note inv = ledger_step_inv [OF sweepOne_step Cons.prems(1), of envs g]
    show ?case
    proof (cases "h \<in> set hs")
      case False
      then have "none_active (hold_ID h) (sweepOne envs g s)"
        using Cons.prems(2) sweepOne_releases [OF Cons.prems(1), of envs h] assms(3) by simp
      then show ?thesis using keep [OF inv] by simp
    qed (use Cons inv in simp)
  qed simp
qed

text \<open>
  A sweep releases what is expired and nothing else: every hold that is not both active and
  expired is untouched, and when its transactions commit and at most one hundred active holds
  are expired, none of them is active afterwards.
\<close>

theorem sweep_exact:
  assumes "ledger_reachable s" and "h \<in> set (holds s)"
  shows "(\<not> (hold_Status h = HoldActive \<and> hold_ExpiresAt h < env_now env) \<longrightarrow> h \<in> set (holds (sweep env envs s)))
    \<and> (hold_Status h = HoldActive \<and> hold_ExpiresAt h < env_now env
        \<and> length (filter (\<lambda>h. hold_Status h = HoldActive \<and> hold_ExpiresAt h < env_now env) (holds s)) \<le> 100
        \<and> (\<forall>i. env_begin (envs i) = None \<and> env_commit (envs i) = Committed)
      \<longrightarrow> (\<forall>h' \<in> set (holds (sweep env envs s)). hold_ID h' = hold_ID h \<longrightarrow> hold_Status h' \<noteq> HoldActive))"
proof -
  note inv = reachable_inv [OF assms(1)]
  let ?expired = "filter (\<lambda>h. hold_Status h = HoldActive \<and> hold_ExpiresAt h < env_now env) (holds s)"
  have list: "store_ListExpiredHolds env s 100 = take 100 (sort_key hold_ExpiresAt ?expired)"
    by (simp add: store_ListExpiredHolds_def q_ListExpiredHolds_def limit_rows_def)
  have dist: "distinct (map hold_ID (holds s))" using ledger_invD(7) [OF inv] by (simp add: holds_ok_def)
  have "hold_ID h \<notin> hold_ID ` set (store_ListExpiredHolds env s 100)" if out: "h \<notin> set ?expired"
  proof
    assume "hold_ID h \<in> hold_ID ` set (store_ListExpiredHolds env s 100)"
    then obtain g where g: "g \<in> set ?expired" "hold_ID h = hold_ID g" unfolding list by (auto dest: in_set_takeD)
    then have "g \<in> set (holds s)" by simp
    then have "g = h" using dist assms(2) g(2) unfolding distinct_map inj_on_def by blast
    then show False using g(1) out by blast
  qed

  then have "h \<in> set (holds (sweep env envs s))" if "h \<notin> set ?expired"
    using that sweep_untouched [OF inv assms(2)] by (simp add: sweep_def)
  moreover have "none_active (hold_ID h) (sweep env envs s)"
    if "h \<in> set ?expired" "length ?expired \<le> 100" "\<forall>i. env_begin (envs i) = None \<and> env_commit (envs i) = Committed"
    unfolding sweep_def by (rule sweep_releases [OF inv]) (use that list in auto)
  moreover have "h \<in> set ?expired \<longleftrightarrow> hold_Status h = HoldActive \<and> hold_ExpiresAt h < env_now env" using assms(2) by simp
  ultimately show ?thesis unfolding none_active_def by blast
qed


end
