(* ===== verification/Ledger_Server.thy ===== *)
theory Ledger_Server
  imports Ledger_Holds
begin

text \<open>
  The gRPC surface of the ledger, \<open>src/services/ledger/internal/adapters/grpc/server.go\<close>, and
  the properties of its read side: the cursor codec and cursor pagination of postings.
\<close>

section \<open>server.go\<close>

datatype AccountRefMsg = ExternalAccountId string | InternalCodeRef string | LedgerAccountId string | NoRef

datatype LedgerAccountType = LEDGER_ACCOUNT_TYPE_UNSPECIFIED | LEDGER_ACCOUNT_TYPE_CUSTOMER | LEDGER_ACCOUNT_TYPE_INTERNAL

datatype HoldStatus = HOLD_STATUS_UNSPECIFIED | HOLD_STATUS_ACTIVE | HOLD_STATUS_CAPTURED | HOLD_STATUS_RELEASED

record LedgerAccountMsg =
  lm_Id :: string
  lm_ExternalAccountId :: string
  lm_InternalCode :: string
  lm_Type :: LedgerAccountType
  lm_Currency :: string
  lm_Status :: string

record HoldMsg =
  hm_Id :: string
  hm_AccountId :: string
  hm_Amount :: Money
  hm_ReferenceType :: string
  hm_ReferenceId :: string
  hm_Status :: HoldStatus
  hm_ExpiresAt :: time

record AccountBalanceMsg =
  bm_AccountId :: string
  bm_ExternalAccountId :: string
  bm_Currency :: string
  bm_Balance :: int64
  bm_Held :: int64
  bm_Available :: int64
  bm_Version :: int64
  bm_AsOf :: time

definition refFromProto :: "AccountRefMsg \<Rightarrow> AccountRef" where
  "refFromProto r = (case r of
      ExternalAccountId x \<Rightarrow> \<lparr>ref_ExternalID = x, ref_InternalCode = '''', ref_LedgerID = ''''\<rparr>
    | InternalCodeRef x \<Rightarrow> \<lparr>ref_ExternalID = '''', ref_InternalCode = x, ref_LedgerID = ''''\<rparr>
    | LedgerAccountId x \<Rightarrow> \<lparr>ref_ExternalID = '''', ref_InternalCode = '''', ref_LedgerID = x\<rparr>
    | NoRef \<Rightarrow> \<lparr>ref_ExternalID = '''', ref_InternalCode = '''', ref_LedgerID = ''''\<rparr>)"

definition accountToProto :: "Account \<Rightarrow> LedgerAccountMsg" where
  "accountToProto a = \<lparr>lm_Id = acct_ID a, lm_ExternalAccountId = acct_ExternalID a, lm_InternalCode = acct_InternalCode a,
     lm_Type = (if acct_Type a = TypeInternal then LEDGER_ACCOUNT_TYPE_INTERNAL else LEDGER_ACCOUNT_TYPE_CUSTOMER),
     lm_Currency = acct_Currency a, lm_Status = acct_Status a\<rparr>"

definition holdToProto :: "Hold \<Rightarrow> HoldMsg" where
  "holdToProto h = \<lparr>hm_Id = hold_ID h, hm_AccountId = hold_AccountID h,
     hm_Amount = \<lparr>MinorUnits = hold_Amount h, MoneyCurrency = hold_Currency h\<rparr>,
     hm_ReferenceType = hold_ReferenceType h, hm_ReferenceId = hold_ReferenceID h,
     hm_Status = (if hold_Status h = HoldActive then HOLD_STATUS_ACTIVE
       else if hold_Status h = HoldCaptured then HOLD_STATUS_CAPTURED
       else if hold_Status h = HoldReleased then HOLD_STATUS_RELEASED else HOLD_STATUS_UNSPECIFIED),
     hm_ExpiresAt = hold_ExpiresAt h\<rparr>"

definition postingToProto :: "PostingView \<Rightarrow> PostingMsg" where
  "postingToProto p = \<lparr>pm_Id = pv_ID p, pm_EntryId = pv_EntryID p, pm_AccountId = pv_AccountID p,
     pm_ExternalAccountId = pv_ExternalAccountID p, pm_Amount = \<lparr>MinorUnits = pv_Amount p, MoneyCurrency = pv_Currency p\<rparr>,
     pm_OccurredAt = pv_OccurredAt p\<rparr>"

definition server_entryToProto :: "EntryView \<Rightarrow> JournalEntryMsg" where
  "server_entryToProto v = \<lparr>jm_Id = evw_ID v, jm_ReferenceType = evw_ReferenceType v, jm_ReferenceId = evw_ReferenceID v,
     jm_OccurredAt = evw_OccurredAt v, jm_Postings = map postingToProto (evw_Postings v)\<rparr>"

text \<open>The edge: a service error becomes a gRPC status.\<close>

definition grpc_edge :: "('a \<Rightarrow> 'b) \<Rightarrow> ledger_err + 'a \<Rightarrow> ledger_err + 'b" where
  "grpc_edge f res = (case res of Inl err \<Rightarrow> Inl (ToGRPC err) | Inr x \<Rightarrow> Inr (f x))"

definition server_CreateAccount ::
  "tx_env \<Rightarrow> string \<Rightarrow> string \<Rightarrow> ledger_db \<Rightarrow> (ledger_err + LedgerAccountMsg) \<times> ledger_db" where
  "server_CreateAccount env ext cur s = (case CreateAccount env ext cur s of (res, s') \<Rightarrow> (grpc_edge accountToProto res, s'))"

text \<open>The requested lifetime in seconds is multiplied up to nanoseconds in \<open>int64\<close>.\<close>

definition server_PlaceHold :: "duration \<Rightarrow> hold_attempt list \<Rightarrow> AccountRefMsg \<Rightarrow> Money \<Rightarrow> string \<Rightarrow> string \<Rightarrow> int64
     \<Rightarrow> ledger_db \<Rightarrow> (ledger_err + HoldMsg) option \<times> ledger_db" where
  "server_PlaceHold dflt as ref amount refType refID expiresInSeconds s =
    (case PlaceHold dflt as (refFromProto ref) (MinorUnits amount) (MoneyCurrency amount) refType refID
        (expiresInSeconds * time_Second) s of
       (res, s') \<Rightarrow> (map_option (grpc_edge holdToProto) res, s'))"

definition server_ReleaseHold :: "tx_env \<Rightarrow> string \<Rightarrow> ledger_db \<Rightarrow> (ledger_err + HoldMsg) \<times> ledger_db" where
  "server_ReleaseHold env holdID s = (case ReleaseHold env holdID s of (res, s') \<Rightarrow> (grpc_edge holdToProto res, s'))"

definition server_PostTransaction :: "tx_env \<Rightarrow> ledger_db \<Rightarrow> string \<Rightarrow> string \<Rightarrow> string \<Rightarrow> (AccountRefMsg \<times> Money) list
     \<Rightarrow> ledger_db \<Rightarrow> (ledger_err + JournalEntryMsg) \<times> ledger_db" where
  "server_PostTransaction env snap refType refID holdID ps s =
    (let specs = map (\<lambda>(ref, amount). \<lparr>spec_Ref = refFromProto ref, spec_Amount = MinorUnits amount,
           spec_Currency = MoneyCurrency amount\<rparr>) ps
     in case PostTransaction env snap refType refID holdID specs s of (res, s') \<Rightarrow> (grpc_edge server_entryToProto res, s'))"

definition server_GetTransactionByReference :: "ledger_db \<Rightarrow> string \<Rightarrow> string \<Rightarrow> ledger_err + JournalEntryMsg" where
  "server_GetTransactionByReference s refType refID =
     grpc_edge server_entryToProto (GetTransactionByReference s refType refID)"

definition server_GetBalances :: "ledger_db \<Rightarrow> AccountRefMsg list \<Rightarrow> ledger_err + AccountBalanceMsg list" where
  "server_GetBalances s refs = grpc_edge (map (\<lambda>b. \<lparr>bm_AccountId = br_AccountID b, bm_ExternalAccountId = br_ExternalID b,
       bm_Currency = br_Currency b, bm_Balance = br_Balance b, bm_Held = br_Held b, bm_Available = br_Balance b - br_Held b,
       bm_Version = br_Version b, bm_AsOf = br_AsOf b\<rparr>)) (GetBalances s (map refFromProto refs))"

definition server_ListPostings :: "ledger_db \<Rightarrow> AccountRefMsg \<Rightarrow> time option \<Rightarrow> time option \<Rightarrow> int32 \<Rightarrow> string
     \<Rightarrow> ledger_err + PostingMsg list \<times> string" where
  "server_ListPostings s ref from to pageSize cursor =
    grpc_edge (\<lambda>(rows, next). (map postingToProto rows, next))
      (ListPostings s (refFromProto ref) (case from of Some t \<Rightarrow> t | None \<Rightarrow> zeroTime)
         (case to of Some t \<Rightarrow> t | None \<Rightarrow> zeroTime) pageSize cursor)"

section \<open>What callers see\<close>

text \<open>
  The available balance a caller is shown is exact: for every customer account of a
  reachable ledger the 64-bit difference of balance and held amount is their difference over
  the integers, is not negative, and is what a new hold may take.
\<close>

theorem server_available_exact:
  assumes "ledger_reachable s" and "server_GetBalances s refs = Inr rows" and "b \<in> set rows"
    and "is_customer s (bm_AccountId b)"
  shows "sint (bm_Available b) = sint (bm_Balance b) - sint (bm_Held b) \<and> 0 \<le> sint (bm_Available b)"
proof -
  obtain r where r: "r \<in> set (account_balances s)" "bm_AccountId b = ab_AccountID r" "bm_Balance b = ab_Balance r"
    "bm_Held b = ab_Held r" "bm_Available b = ab_Balance r - ab_Held r"
    using assms(2,3) by (auto simp: server_GetBalances_def grpc_edge_def GetBalances_def store_GetBalances_def
        q_GetBalancesByIDs_def Let_def split: sum.splits if_splits)
  have "0 \<le> sint (ab_Held r)" "sint (ab_Held r) \<le> sint (ab_Balance r)"
    using ledger_invD(6) [OF reachable_inv [OF assms(1)]] r assms(4) by (auto simp: held_ok_def)
  then show ?thesis using r sint_int64_bounds [of "ab_Balance r"] by (simp add: sint_diff_int64)
qed

text \<open>
  A refusal is definitive: whatever rule of the ledger refuses a request (every sentinel but
  the internal conflict on a reference, which is replayed), its gRPC status is never one the
  client must treat as an unknown outcome.
\<close>

lemma server_refusal_definitive:
  assumes "errors_Is err x" and "x \<noteq> ErrRefConflict" and "errors_As_app err = None"
  shows "\<not> Ambiguous (ToGRPC (toAppErr err) :: ledger_err)"
proof -
  define wrapped where "wrapped e \<longleftrightarrow> (\<exists>c m. e = app_Wrap c m err \<and> c \<noteq> CodeUpstreamUnavailable)" for e
  have w: "c \<noteq> CodeUpstreamUnavailable \<Longrightarrow> wrapped (app_Wrap c m err)" for c m by (auto simp: wrapped_def)
  have "wrapped (toAppErr err)" using assms(1,2) by (cases x) (simp_all add: toAppErr_def Let_def w)
  then show ?thesis by (auto simp: wrapped_def Ambiguous_ToGRPC)
qed

end
