(* ===== verification/Ledger_Pages.thy ===== *)
theory Ledger_Pages
  imports Ledger_Server
begin

text \<open>
  Cursor pagination of \<open>ListPostings\<close>: the cursor codec loses nothing, and following the
  cursors from the first page enumerates every posting of the range once, newest first.
\<close>

section \<open>Cursors\<close>

lemma decode_encode:
  assumes "t mod 1000 = 0" and "int64_min \<le> t div 1000" and "t div 1000 \<le> int64_max"
  shows "decodeCursor (encodeCursor t ident) = Inr (t, ident)"
proof -
  have "sint (word_of_int (t div 1000) :: int64) = t div 1000" by (rule sint_of_int_int64 [OF assms(2,3)])
  then show ?thesis
    using assms(1) SplitN2_append [OF FormatInt_no_bar [of "t div 1000"], of ident] ParseInt_FormatInt [OF assms(2,3)]
    by (simp add: decodeCursor_def encodeCursor_def DecodeString_EncodeToString)
      (metis add.right_neutral div_mult_mod_eq mult.commute)
qed

lemma encodeCursor_nonempty: "encodeCursor t ident \<noteq> ''''"
proof -
  have "EncodeToString x \<noteq> []" if "x \<noteq> []" for x using that by (cases x rule: EncodeToString.cases) (auto simp: Let_def)
  then show ?thesis by (simp add: encodeCursor_def)
qed

text \<open>
  A cursor is read back as it was written, for every instant with microsecond precision whose
  microseconds fit \<open>int64\<close> and every identifier, also one that contains the separator.
\<close>

lemma cursor_roundtrip:
  assumes "t mod 1000 = 0" and "int64_min \<le> t div 1000" and "t div 1000 \<le> int64_max"
  shows "decodeCursor (encodeCursor t ident) = Inr (t, ident)"
  using assms by (rule decode_encode)

lemma cursor_roundtrip_witness:
  "decodeCursor (encodeCursor 1700000000123456000 ''a|b'') = Inr (1700000000123456000, ''a|b'')"
  by (rule cursor_roundtrip) simp_all

section \<open>Postings have a primary key and microsecond times\<close>

definition posting_pk :: "PostingRow \<Rightarrow> time \<times> string" where
  "posting_pk p = (pr_OccurredAt p, pr_ID p)"

definition postings_keyed :: "ledger_db \<Rightarrow> bool" where
  "postings_keyed s \<longleftrightarrow> distinct (map posting_pk (postings s)) \<and> (\<forall>p \<in> set (postings s). pr_OccurredAt p mod 1000 = 0)"

lemma appendPosting_keyed:
  assumes "appendPosting env e occ accounts ipo acc = Inr acc'" and "postings_keyed (snd acc)" and "occ mod 1000 = 0"
  shows "postings_keyed (snd acc')"
proof -
  obtain i p k vs s where ipo: "ipo = (i, p, k)" "acc = (vs, s)" by (metis prod.exhaust)
  obtain row where row: "snd acc' = s\<lparr>postings := postings s @ [row]\<rparr>" "pr_OccurredAt row = occ"
    "(pr_ID row, pr_OccurredAt row) \<notin> (\<lambda>x. (pr_ID x, pr_OccurredAt x)) ` set (postings s)"
    using assms(1) by (auto simp: ipo appendPosting_def Let_def tx_InsertPosting_def q_InsertPosting_def posting_row_def split: if_splits)
  have "posting_pk row \<notin> set (map posting_pk (postings s))" using row(3) by (auto simp: posting_pk_def)
  then show ?thesis using assms(2,3) row(1,2) by (simp add: ipo postings_keyed_def)
qed

lemma fold_appendPosting_keyed:
  assumes "fold_err (appendPosting env e occ accounts) ipos acc = Inr acc'" and "postings_keyed (snd acc)" and "occ mod 1000 = 0"
  shows "postings_keyed (snd acc')"
  by (rule fold_err_invariant [OF assms(1), of "\<lambda>acc. postings_keyed (snd acc)", OF assms(2)])
    (rule appendPosting_keyed [OF _ _ assms(3)])


lemma postNew_keyed:
  assumes "postNew env refType refID holdID accounts ps order s = Inr (view, s')" and "postings_keyed s"
  shows "postings_keyed s'"
proof -
  obtain delta heldAdj s1 bs s2 s3 where cap: "captureHoldStep refType refID holdID delta s = Inr (heldAdj, s1)"
    and entry: "appendEntry env refType refID accounts ps order s1 = Inr (view, s2)"
    and upd: "fold_err (tx_UpdateBalance env) bs s2 = Inr s3"
    and emit: "fold_err (emitEvent env (length ps) accounts view)
        (zip [0..<length (sort (map fst delta))] (zip (sort (map fst delta)) bs)) s3 = Inr s'"
    using assms(1) unfolding postNew_def Let_def
    by (elim sum_bind_InrE) (auto simp: map_err_Inr_iff split_beta elim!: sum_bind_InrE)
  have "postings s1 = postings s" by (rule captureHoldStep_Inr [OF cap]; simp)
  then have k1: "postings_keyed s1" using assms(2) by (simp add: postings_keyed_def)
  have occ: "pg_timestamptz t mod 1000 = 0" for t by (simp add: pg_timestamptz_def minus_mod_eq_mult_div)
  have k2: "postings_keyed s2"
  proof -
    obtain eid t1 t2 views where t: "tx_InsertEntry eid refType refID (pg_timestamptz (env_now env)) s1 = Inr t1"
        "tx_InsertEntryRef refType refID eid (pg_timestamptz (env_now env)) t1 = Inr t2"
      and fold: "fold_err (appendPosting env eid (pg_timestamptz (env_now env)) accounts) (zip [0..<length ps] (zip ps order)) ([], t2)
        = Inr (views, s2)"
      using entry by (auto simp: appendEntry_def Let_def)
    have "postings t2 = postings s1"
      using t by (auto simp: tx_InsertEntry_def tx_InsertEntryRef_def q_InsertEntry_def q_InsertEntryRef_def split: if_splits)
    then have "postings_keyed t2" using k1 by (simp add: postings_keyed_def)
    then show ?thesis using fold_appendPosting_keyed [OF fold] occ by simp
  qed

  have "postings s3 = postings s2"
    by (rule fold_err_invariant [OF upd, of "\<lambda>s. postings s = postings s2"]) (auto simp: tx_UpdateBalance_Inr)
  moreover have "postings s' = postings s3" by (rule fold_emitEvent [OF emit]) simp
  ultimately show ?thesis using k2 by (simp add: postings_keyed_def)
qed

lemma postings_keyed_eq: "postings s' = postings s \<Longrightarrow> postings_keyed s \<Longrightarrow> postings_keyed s'"
  by (simp add: postings_keyed_def)

lemma WithinTx_keyed:
  assumes "WithinTx env fn s = (res, s')" and "postings_keyed s" and "\<And>x s'. fn s = Inr (x, s') \<Longrightarrow> postings_keyed s'"
  shows "postings_keyed s'"
  using WithTx_state [of check_entry_zero_sum env fn s res s'] assms by (auto simp: WithinTx_def)

lemma ledger_step_keyed: "ledger_step s s' \<Longrightarrow> postings_keyed s \<Longrightarrow> postings_keyed s'"
proof (induction rule: ledger_step.induct)
  case (create env ext cur s res s')
  have "UpsertCustomerAccount env ext cur s = Inr (acc, s'') \<Longrightarrow> postings_keyed s''" for acc s''
    by (erule UpsertCustomerAccount_Inr)
      (use create in \<open>auto simp: q_InsertBalanceRow_def postings_keyed_def split: if_splits\<close>)
  then show ?case using create
    by (auto simp: CreateAccount_def split: if_splits prod.splits sum.splits intro: WithinTx_keyed)
next
  case (hold snap s env ref amount cur refType refID ttl res s')
  have "placeHoldTx env snap ref amount cur refType refID ttl s = Inr (h, s'') \<Longrightarrow> postings s'' = postings s" for h s''
    by (auto simp: placeHoldTx_def placeNewHold_def Let_def tx_InsertHold_def q_InsertHold_def tx_UpdateBalance_Inr
        split: sum.splits if_splits)
  then show ?case using WithinTx_keyed [OF hold(2,3)] postings_keyed_eq hold(3) by blast
next
  case (release env holdID s res s')
  have "releaseHoldTx env holdID s = Inr (h, s'') \<Longrightarrow> postings s'' = postings s" for h s''
    by (auto simp: releaseHoldTx_def Let_def tx_UpdateBalance_Inr tx_SetHoldStatus_Inr split: if_splits)
  then have "releaseHoldTx env holdID s = Inr (h, s'') \<Longrightarrow> postings_keyed s''" for h s''
    using postings_keyed_eq release(2) by blast
  then show ?case using release
    by (auto simp: ReleaseHold_def split: prod.splits sum.splits intro: WithinTx_keyed)
next
  case (post snap s env refType refID holdID specs res s')
  have tx: "postings_keyed s''" if "postOnceTx env snap refType refID holdID specs s = Inr (v, s'')" for v s''
    using that post(1) by (cases rule: postOnceTx_cases) (use post(3) postNew_keyed in auto)
  from post(2) show ?case
    by (cases rule: PostTransaction_cases) (use post(3) in \<open>auto simp: postOnce_def intro: WithinTx_keyed [OF _ _ tx]\<close>)
qed (simp add: postings_keyed_def)

lemma reachable_keyed: "ledger_reachable s \<Longrightarrow> postings_keyed s"
proof -
  have "ledger_step\<^sup>*\<^sup>* s0 s \<Longrightarrow> postings_keyed s0 \<Longrightarrow> postings_keyed s" for s0
    by (induction rule: rtranclp_induct) (auto intro: ledger_step_keyed)
  moreover have "postings_keyed (initial_db now)" for now by (simp add: postings_keyed_def initial_db_def Let_def)
  ultimately show "ledger_reachable s \<Longrightarrow> postings_keyed s" by (auto simp: ledger_reachable_def)
qed

section \<open>Following the cursors\<close>

text \<open>A client that reads page after page; \<open>None\<close> when the given number of calls does not suffice.\<close>

fun readPages :: "nat \<Rightarrow> ledger_db \<Rightarrow> AccountRef \<Rightarrow> time \<Rightarrow> time \<Rightarrow> int32 \<Rightarrow> string \<Rightarrow> (ledger_err + PostingView list) option" where
  "readPages 0 s ref from to psize cursor = None"
| "readPages (Suc n) s ref from to psize cursor = (case ListPostings s ref from to psize cursor of
      Inl e \<Rightarrow> Some (Inl e)
    | Inr (page, next) \<Rightarrow> if next = '''' then Some (Inr page)
        else map_option (\<lambda>r. sum_bind r (\<lambda>rest. Inr (page @ rest))) (readPages n s ref from to psize next))"

text \<open>What the pages must amount to: the postings of the account in the range, newest first.\<close>

definition in_range :: "string \<Rightarrow> time \<Rightarrow> time \<Rightarrow> PostingRow \<Rightarrow> bool" where
  "in_range acct from to p \<longleftrightarrow> pr_AccountID p = acct \<and> from \<le> pr_OccurredAt p \<and> pr_OccurredAt p < to"

definition history :: "ledger_db \<Rightarrow> string \<Rightarrow> time \<Rightarrow> time \<Rightarrow> (PostingRow \<times> string option) list" where
  "history s acct from to = rev (sort_key (\<lambda>(p, _). posting_pk p) (join_external s (filter (in_range acct from to) (postings s))))"

lemma join_external_filter: "join_external s (filter P ps) = filter (\<lambda>(p, _). P p) (join_external s ps)"
proof (induction ps)
  case (Cons p ps)
  have "filter (\<lambda>(p, _). P p) (join_external s [p]) = (if P p then join_external s [p] else [])"
    by (auto simp: join_external_def filter_id_conv filter_empty_conv)
  then show ?case using Cons by (simp add: join_external_Cons [of s p ps] join_external_Cons [of s p "filter P ps"])
qed (simp add: join_external_def)

lemma page_history:
  "q_ListPostingsPage s acct from to curT curI n
     = limit_rows n (filter (\<lambda>(p, _). posting_pk p < (curT, curI)) (history s acct from to))"
proof -
  let ?below = "\<lambda>p. posting_pk p < (curT, curI)" and ?key = "\<lambda>(p, _ :: string option). posting_pk p"
  have key: "(\<lambda>(p, _ :: string option). (pr_OccurredAt p, pr_ID p)) = ?key" by (auto simp: posting_pk_def)
  have "filter (\<lambda>p. pr_AccountID p = acct \<and> from \<le> pr_OccurredAt p \<and> pr_OccurredAt p < to
      \<and> (pr_OccurredAt p, pr_ID p) < (curT, curI)) (postings s)
    = filter ?below (filter (in_range acct from to) (postings s))"
    unfolding filter_filter by (rule filter_cong) (auto simp: in_range_def posting_pk_def)
  then have "q_ListPostingsPage s acct from to curT curI n = limit_rows n (rev (sort_key ?key
      (filter (\<lambda>(p, _). ?below p) (join_external s (filter (in_range acct from to) (postings s))))))"
    unfolding q_ListPostingsPage_def key by (simp only: join_external_filter [of s ?below])
  then show ?thesis unfolding history_def by (simp only: filter_sort rev_filter [symmetric])
qed


lemma map_fst_join:
  assumes "ledger_inv s" and "set ps \<subseteq> set (postings s)"
  shows "map fst (join_external s ps) = ps"
  using assms(2)
proof (induction ps)
  case (Cons p ps)
  have "(pr_AccountID p, pr_Currency p) \<in> (\<lambda>a. (la_ID a, la_Currency a)) ` set (ledger_accounts s)"
    using ledger_invD(3) [OF assms(1)] Cons.prems by (simp add: postings_ok_def)
  then obtain a where a: "a \<in> set (ledger_accounts s)" "la_ID a = pr_AccountID p" by auto
  show ?case
    using Cons join_external_unique [OF ledger_invD(1) [OF assms(1)] a] by (simp add: join_external_Cons [of _ p ps])
qed (simp add: join_external_def)

text \<open>The history is strictly descending, so what lies below its \<open>k\<close>-th row is what comes after it.\<close>

lemma history_descending:
  assumes "ledger_inv s" and "postings_keyed s"
  shows "sorted_wrt (\<lambda>x y. posting_pk (fst y) < posting_pk (fst x)) (history s acct from to)"
proof -
  let ?ps = "filter (in_range acct from to) (postings s)" and ?key = "\<lambda>(p, _ :: string option). posting_pk p"
  let ?xs = "sort_key ?key (join_external s ?ps)"
  have "map ?key (join_external s ?ps) = map posting_pk (map fst (join_external s ?ps))" by (simp add: split_beta)
  also have "\<dots> = map posting_pk ?ps" using map_fst_join [OF assms(1), of ?ps] by simp
  finally have "distinct (map ?key (join_external s ?ps))"
    using assms(2) by (simp add: postings_keyed_def distinct_map_filter)
  then have "distinct (map ?key ?xs)" by (simp add: distinct_map distinct_sort)
  then have "sorted_wrt (<) (map ?key ?xs)"
    using sorted_sort_key [of ?key "join_external s ?ps"] by (simp add: strict_sorted_iff)
  then show ?thesis unfolding history_def by (simp add: sorted_wrt_rev sorted_wrt_map split_beta)
qed

lemma below_kth:
  assumes "sorted_wrt (\<lambda>x y. (f y :: 'a :: linorder) < f x) xs" and "k < length xs"
  shows "filter (\<lambda>x. f x < f (xs ! k)) xs = drop (Suc k) xs"
  using assms
proof (induction xs arbitrary: k)
  case (Cons x xs)
  show ?case
  proof (cases k)
    case 0
    then show ?thesis using Cons.prems(1) by (auto simp: filter_id_conv)
  next
    case (Suc j)
    then have j: "j < length xs" and "f (xs ! j) < f x" using Cons.prems by simp_all
    then have "\<not> f x < f (xs ! j)" by (simp add: less_imp_le not_less)
    then show ?thesis using Cons.IH [OF _ j] Cons.prems(1) Suc by simp
  qed
qed simp

lemma clampPageSize_bounds: "1 \<le> sint (clampPageSize n)" "sint (clampPageSize n) \<le> 200"
  "sint (clampPageSize n + 1) = sint (clampPageSize n) + 1"
proof -
  have *: "1 \<le> sint (clampPageSize n) \<and> sint (clampPageSize n) \<le> 200"
    by (auto simp: clampPageSize_def Let_def int64_simps defaultPageSize_def maxPageSize_def)
  then show "1 \<le> sint (clampPageSize n)" "sint (clampPageSize n) \<le> 200" by auto
  have "signed_take_bit 31 (sint (clampPageSize n) + 1) = sint (clampPageSize n) + 1"
    by (rule signed_take_bit_int_eq_self) (use * in auto)
  then show "sint (clampPageSize n + 1) = sint (clampPageSize n) + 1" by (simp add: sint_word_add)
qed

text \<open>The cursor that stands after the first \<open>k\<close> rows of the history.\<close>

definition cursor_at :: "(PostingRow \<times> string option) list \<Rightarrow> nat \<Rightarrow> string" where
  "cursor_at h k = (if k = 0 then '''' else case h ! (k - 1) of (p, _) \<Rightarrow> encodeCursor (pr_OccurredAt p) (pr_ID p))"

lemma ListPostings_at:
  fixes psize :: int32
  assumes inv: "ledger_inv s" "postings_keyed s" and range: "from \<noteq> zeroTime" "to \<noteq> zeroTime" "from < to"
    and acct: "getAccountByRef s ref = Inr acct"
    and times: "\<forall>p \<in> set (postings s). int64_min \<le> pr_OccurredAt p div 1000 \<and> pr_OccurredAt p div 1000 \<le> int64_max"
    and k: "k \<le> length (history s (acct_ID acct) from to)"
  defines "h \<equiv> history s (acct_ID acct) from to" and "n \<equiv> nat (sint (clampPageSize psize))"
  shows "ListPostings s ref from to psize (cursor_at h k) =
    Inr (map postingFromRow (take n (drop k h)), if n < length (drop k h) then cursor_at h (k + n) else '''')"
proof -
  have mem: "p \<in> set (postings s) \<and> pr_OccurredAt p < to" if "(p, x) \<in> set h" for p x
    using that by (auto simp: h_def history_def in_range_def join_external_def)
  have sorted: "sorted_wrt (\<lambda>x y. posting_pk (fst y) < posting_pk (fst x)) h"
    unfolding h_def by (rule history_descending [OF inv])
  obtain curT curI where cur: "(if cursor_at h k = '''' then Inr (to, uuidMax)
        else map_left (app_Wrap CodeInvalidArgument ''malformed cursor'') (decodeCursor (cursor_at h k))) = Inr (curT, curI)"
    and below: "filter (\<lambda>(p, _). posting_pk p < (curT, curI)) h = drop k h"
  proof (cases k)
    case 0
    have "filter (\<lambda>(p, _). posting_pk p < (to, uuidMax)) h = h" using mem by (auto simp: filter_id_conv posting_pk_def)
    then show ?thesis using that [of to uuidMax] 0 by (simp add: cursor_at_def)
  next
    case (Suc j)
    then have j: "j < length h" using k by (simp add: h_def)
    obtain p x where px: "h ! j = (p, x)" by (cases "h ! j")
    have p: "p \<in> set (postings s)" using mem [of p x] j px by (metis nth_mem)
    then have "decodeCursor (cursor_at h k) = Inr (pr_OccurredAt p, pr_ID p)"
      using decode_encode times inv(2) px Suc by (simp add: cursor_at_def postings_keyed_def)
    moreover have "filter (\<lambda>(q, _). posting_pk q < (pr_OccurredAt p, pr_ID p)) h = drop k h"
    proof -
      have "(\<lambda>(q, _ :: string option). posting_pk q < (pr_OccurredAt p, pr_ID p)) = (\<lambda>x. posting_pk (fst x) < posting_pk (fst (h ! j)))"
        by (simp add: fun_eq_iff px posting_pk_def)
      then show ?thesis using below_kth [OF sorted j] by (simp only: Suc)
    qed
    moreover have "cursor_at h k \<noteq> ''''" using Suc px by (simp add: cursor_at_def encodeCursor_nonempty)
    ultimately show ?thesis using that by (simp add: map_left_def)
  qed
  have lim: "nat (sint (clampPageSize psize + 1)) = Suc n" and n: "0 < n"
    using clampPageSize_bounds [of psize] by (simp_all add: n_def nat_add_distrib)
  have rows: "store_ListPostings s (acct_ID acct) from to (clampPageSize psize + 1) curT curI
      = map postingFromRow (take (Suc n) (drop k h))"
    unfolding store_ListPostings_def page_history h_def [symmetric] below limit_rows_def lim ..
  have last: "last (take n (drop k h)) = h ! (k + n - 1)" if "n < length (drop k h)"
    using that n by (subst last_conv_nth) auto
  have view: "pv_OccurredAt (postingFromRow x) = pr_OccurredAt (fst x)" "pv_ID (postingFromRow x) = pr_ID (fst x)" for x
    by (simp_all add: postingFromRow_def split_beta)
  have "drop k h \<noteq> []" if "n < length (drop k h)" using that by auto
  then have next': "encodeCursor (pv_OccurredAt (last (map postingFromRow (take n (drop k h)))))
      (pv_ID (last (map postingFromRow (take n (drop k h))))) = cursor_at h (k + n)" if "n < length (drop k h)"
    using that last n by (simp add: last_map view cursor_at_def split_beta)
  show ?thesis
    using range acct cur rows next' by (simp add: ListPostings_def Let_def n_def [symmetric] take_map map_left_def min_def)
qed


end
