(* ===== verification/Ledger_Examples.thy ===== *)
theory Ledger_Examples
  imports Ledger_Pages
begin

text \<open>
  A worked run of the ledger from the initial database: two customers, a top-up, a hold and
  the transfer that captures it. It shows that the hypotheses of the ledger theorems are
  met by real runs, and it exhibits two behaviours of the code that its documentation
  does not intend.
\<close>

definition demo_env :: "nat \<Rightarrow> tx_env" where
  "demo_env n = \<lparr>env_now = int n * 1000000, env_uuid = (\<lambda>i. Some (''u'' @ fmt_d (int (100 * n + i)))),
     env_gen_uuid = ''acc'' @ fmt_d (int n), env_request_id = ''req'', env_begin = None, env_commit = Committed\<rparr>"

definition customer :: "string \<Rightarrow> AccountRef" where
  "customer x = \<lparr>ref_ExternalID = x, ref_InternalCode = '''', ref_LedgerID = ''''\<rparr>"

definition internal :: "string \<Rightarrow> AccountRef" where
  "internal x = \<lparr>ref_ExternalID = '''', ref_InternalCode = x, ref_LedgerID = ''''\<rparr>"

definition kzt_leg :: "AccountRef \<Rightarrow> int64 \<Rightarrow> PostingSpec" where
  "kzt_leg ref amount = \<lparr>spec_Ref = ref, spec_Amount = amount, spec_Currency = ''KZT''\<rparr>"

definition demo_transfer :: "PostingSpec list" where
  "demo_transfer = [kzt_leg (customer ''alice'') (- 200), kzt_leg (customer ''bob'') 200]"

definition demo_alice :: ledger_db where
  "demo_alice = snd (CreateAccount (demo_env 1) ''alice'' ''KZT'' (initial_db 0))"

definition demo_bob :: ledger_db where
  "demo_bob = snd (CreateAccount (demo_env 2) ''bob'' ''KZT'' demo_alice)"

definition demo_funded :: ledger_db where
  "demo_funded = snd (PostTransaction (demo_env 3) demo_bob ''topup'' ''t1'' ''''
     [kzt_leg (internal ''cash_in_kzt'') (- 500), kzt_leg (customer ''alice'') 500] demo_bob)"

definition demo_held :: ledger_db where
  "demo_held = snd (WithinTx (demo_env 4)
     (placeHoldTx (demo_env 4) demo_funded (customer ''alice'') 200 ''KZT'' ''transfer'' ''x1'' 1000000000) demo_funded)"

definition demo_posted :: ledger_db where
  "demo_posted = snd (PostTransaction (demo_env 5) demo_held ''transfer'' ''x1'' ''u400'' demo_transfer demo_held)"

definition demo_leak :: ledger_db where
  "demo_leak = snd (PostTransaction (demo_env 5) demo_held ''transfer'' ''x1'' ''u400''
     [kzt_leg (internal ''cash_in_kzt'') (- 1), kzt_leg (customer ''bob'') 1] demo_held)"

lemma demo_steps:
  "ledger_step (initial_db 0) demo_alice" "ledger_step demo_alice demo_bob" "ledger_step demo_bob demo_funded"
  "ledger_step demo_funded demo_held" "ledger_step demo_held demo_posted" "ledger_step demo_held demo_leak"
  unfolding demo_alice_def demo_bob_def demo_funded_def demo_held_def demo_posted_def demo_leak_def
  by (rule ledger_step.create ledger_step.post [OF snapshot_of_refl] ledger_step.hold [OF snapshot_of_refl], rule prod.collapse [symmetric])+

lemma demo_reachable:
  "ledger_reachable demo_bob" "ledger_reachable demo_funded" "ledger_reachable demo_held" "ledger_reachable demo_posted"
  "ledger_reachable demo_leak"
  using demo_steps unfolding ledger_reachable_def by (meson rtranclp.rtrancl_into_rtrancl rtranclp.rtrancl_refl)+

text \<open>The balances of the run: account, balance, held, version.\<close>

definition sheet :: "ledger_db \<Rightarrow> (string \<times> int64 \<times> int64 \<times> int64) list" where
  "sheet s = map (\<lambda>r. (ab_AccountID r, ab_Balance r, ab_Held r, ab_Version r)) (account_balances s)"

lemma demo_held_facts:
  "let s = demo_held in drop 4 (sheet s) = [(''acc1'', 500, 200, 1), (''acc2'', 0, 0, 0)]
     \<and> length (postings s) = 2 \<and> length (account_balances s) = 6 \<and> ab_AccountID (account_balances s ! 4) = ''acc1''
     \<and> is_customer s ''acc1'' \<and> active_total ''acc1'' (holds s) = 200"
  by code_simp

lemma demo_posted_facts:
  "let s = demo_posted in drop 4 (sheet s) = [(''acc1'', 300, 0, 2), (''acc2'', 200, 0, 1)]
     \<and> length (postings s) = 4 \<and> length (journal_entries s) = 2 \<and> length (account_balances s) = 6
     \<and> ab_AccountID (account_balances s ! 4) = ''acc1'' \<and> length (account_events s ''acc1'') = 2
     \<and> (''transfer'', ''x1'') \<in> (\<lambda>e. (je_ReferenceType e, je_ReferenceID e)) ` set (journal_entries s)
     \<and> fst (PostTransaction (demo_env 6) demo_held ''transfer'' ''x1'' ''u400'' demo_transfer s)
         = Inl (toAppErr (Sentinel ErrHoldNotActive))"
  by code_simp

lemma demo_leak_facts:
  "let s = demo_leak in drop 4 (sheet s) = [(''acc1'', 500, 200, 1), (''acc2'', 1, 0, 1)] \<and> length (account_balances s) = 6
     \<and> ab_AccountID (account_balances s ! 4) = ''acc1'' \<and> is_customer s ''acc1'' \<and> active_total ''acc1'' (holds s) = 0
     \<and> ab_Held (account_balances s ! 4) = 200"
  by code_simp

lemmas demo_facts = demo_held_facts [unfolded Let_def] demo_posted_facts [unfolded Let_def] demo_leak_facts [unfolded Let_def]


section \<open>The theorems on the run\<close>

theorem ledger_conservation_witness:
  "ledger_reachable demo_posted \<and> length (postings demo_posted) = 4
   \<and> (\<Sum>r\<leftarrow>account_balances demo_posted. if ab_Currency r = ''KZT'' then sint (ab_Balance r) else 0) = 0"
  using ledger_conservation [OF demo_reachable(4)] demo_reachable(4) demo_facts by blast


theorem ledger_books_witness:
  "ledger_reachable demo_posted \<and> length (journal_entries demo_posted) = 2 \<and> check_entry_zero_sum demo_posted
   \<and> list_all (\<lambda>e. 2 \<le> length (legs demo_posted (entry_key e))) (journal_entries demo_posted)"
  using ledger_books [OF demo_reachable(4)] demo_reachable(4) demo_facts unfolding list_all_iff by blast


definition demo_row :: AccountBalance where
  "demo_row = account_balances demo_posted ! 4"

definition held_row :: AccountBalance where
  "held_row = account_balances demo_held ! 4"

lemma demo_rows:
  "demo_row \<in> set (account_balances demo_posted)" "ab_AccountID demo_row = ''acc1''"
  "held_row \<in> set (account_balances demo_held)" "ab_AccountID held_row = ''acc1''"
  using demo_facts unfolding demo_row_def held_row_def by simp_all


theorem ledger_no_overdraft_witness:
  "ledger_reachable demo_held \<and> held_row \<in> set (account_balances demo_held) \<and> is_customer demo_held (ab_AccountID held_row)
   \<and> 200 \<le> sint (ab_Held held_row) \<and> sint (ab_Held held_row) \<le> sint (ab_Balance held_row)"
  using ledger_no_overdraft [OF demo_reachable(3) demo_rows(3)] demo_reachable(3) demo_rows demo_facts by simp

theorem ledger_event_stream_witness:
  "ledger_reachable demo_posted \<and> demo_row \<in> set (account_balances demo_posted)
   \<and> map tp_Version (account_events demo_posted ''acc1'') = [1, 2]
   \<and> tp_BalanceAfter (last (account_events demo_posted ''acc1'')) = ab_Balance demo_row"
proof -
  have ne: "account_events demo_posted ''acc1'' \<noteq> []" and len: "length (account_events demo_posted ''acc1'') = 2"
    using demo_facts by auto
  show ?thesis
    using ledger_event_stream [OF demo_reachable(4) demo_rows(1)] demo_rows(1,2) ne len demo_reachable(4)
    by (simp add: eval_nat_numeral)
qed

theorem journal_append_only_witness:
  "ledger_step\<^sup>*\<^sup>* demo_held demo_posted \<and> length (postings demo_held) = 2
   \<and> (\<exists>p. postings demo_posted = postings demo_held @ p)"
proof -
  have steps: "ledger_step\<^sup>*\<^sup>* demo_held demo_posted" using demo_steps(5) by blast
  then show ?thesis using journal_append_only [OF steps] demo_facts by blast
qed

lemma demo_success:
  "fst (PostTransaction (demo_env 5) demo_held ''transfer'' ''x1'' ''u400'' demo_transfer demo_held)
     = Inr \<lparr>evw_ID = ''u500'', evw_ReferenceType = ''transfer'', evw_ReferenceID = ''x1'', evw_OccurredAt = 5000000,
         evw_Postings = [\<lparr>pv_ID = ''u501'', pv_EntryID = ''u500'', pv_AccountID = ''acc1'', pv_ExternalAccountID = ''alice'',
            pv_Amount = - 200, pv_Currency = ''KZT'', pv_OccurredAt = 5000000\<rparr>,
           \<lparr>pv_ID = ''u502'', pv_EntryID = ''u500'', pv_AccountID = ''acc2'', pv_ExternalAccountID = ''bob'',
            pv_Amount = 200, pv_Currency = ''KZT'', pv_OccurredAt = 5000000\<rparr>]\<rparr>"
  by code_simp

theorem PostTransaction_idempotent_witness:
  "\<exists>v. PostTransaction (demo_env 9) demo_posted ''transfer'' ''x1'' '''' demo_transfer demo_posted = (Inr v, demo_posted)
     \<and> evw_ID v = ''u500''"
proof -
  let ?call = "PostTransaction (demo_env 5) demo_held ''transfer'' ''x1'' ''u400'' demo_transfer demo_held"
  obtain view where view: "?call = (Inr view, demo_posted)" "evw_ID view = ''u500''"
    using demo_success by (metis EntryView.select_convs(1) demo_posted_def prod.collapse)
  have env: "env_begin (demo_env 9) = None" "env_commit (demo_env 9) = Committed" by (simp_all add: demo_env_def)
  show ?thesis
    using PostTransaction_idempotent [OF demo_reachable(3) rtranclp.rtrancl_refl view(1) rtranclp.rtrancl_refl env] view(2) by metis
qed

lemma demo_recorded: "(''transfer'', ''x1'') \<in> (\<lambda>e. (je_ReferenceType e, je_ReferenceID e)) ` set (journal_entries demo_posted)"
  using demo_facts by blast

lemma demo_snapshot: "snapshot_of demo_held demo_posted"
  using ledger_step_grows [OF demo_steps(5)] by (auto simp: grows_def snapshot_of_def)

theorem no_double_posting_witness:
  "snapshot_of demo_held demo_posted \<and>
   snd (PostTransaction (demo_env 6) demo_held ''transfer'' ''x1'' '''' demo_transfer demo_posted) = demo_posted"
  using no_double_posting [OF demo_reachable(4) demo_snapshot demo_recorded, of "demo_env 6" "''''" demo_transfer] demo_snapshot
  by (metis prod.collapse)

definition demo_hold :: Hold where
  "demo_hold = holds demo_held ! 0"

definition demo_attempt :: hold_attempt where
  "demo_attempt = \<lparr>at_env = demo_env 7, at_others = (\<lambda>s. s), at_snap = (\<lambda>s. s)\<rparr>"

lemma demo_hold_facts:
  "let s = demo_held in length (holds s) = 1 \<and>
     holds s ! 0 = \<lparr>hold_ID = ''u400'', hold_AccountID = ''acc1'', hold_Amount = 200, hold_Currency = ''KZT'',
       hold_ReferenceType = ''transfer'', hold_ReferenceID = ''x1'', hold_Status = HoldActive, hold_ExpiresAt = 1004000000\<rparr> \<and>
     getAccountByRef s (customer ''alice'') = Inr \<lparr>acct_ID = ''acc1'', acct_ExternalID = ''alice'', acct_InternalCode = '''',
       acct_Type = TypeCustomer, acct_Currency = ''KZT'', acct_Status = StatusActive\<rparr> \<and>
     env_uuid (demo_env 7) 0 = Some ''u700'' \<and>
     server_GetBalances s [ExternalAccountId ''alice''] = Inr [\<lparr>bm_AccountId = ''acc1'', bm_ExternalAccountId = ''alice'',
       bm_Currency = ''KZT'', bm_Balance = 500, bm_Held = 200, bm_Available = 300, bm_Version = 1, bm_AsOf = 4000000\<rparr>]"
  by code_simp

lemma demo_hold_in: "demo_hold \<in> set (holds demo_held)"
  unfolding demo_hold_def by (rule nth_mem) (use demo_hold_facts in \<open>simp add: Let_def\<close>)

lemma demo_hold_eq:
  "hold_ID demo_hold = ''u400''" "hold_AccountID demo_hold = ''acc1''" "hold_Amount demo_hold = 200"
  "hold_ReferenceType demo_hold = ''transfer''" "hold_ReferenceID demo_hold = ''x1''" "hold_Status demo_hold = HoldActive"
  "hold_ExpiresAt demo_hold = 1004000000" "holds demo_held = [demo_hold]"
  using demo_hold_facts by (simp_all add: demo_hold_def Let_def) (metis One_nat_def Suc_length_conv length_0_conv nth_Cons_0)

lemma demo_env_simps: "env_begin (demo_env n) = None" "env_commit (demo_env n) = Committed" "env_now (demo_env n) = int n * 1000000"
  by (simp_all add: demo_env_def)

theorem hold_lifecycle_witness:
  "ledger_step\<^sup>*\<^sup>* demo_held demo_posted \<and> demo_hold \<in> set (holds demo_held)
   \<and> (\<exists>h' \<in> set (holds demo_posted). h'\<lparr>hold_Status := HoldActive\<rparr> = demo_hold)"
proof -
  have steps: "ledger_step\<^sup>*\<^sup>* demo_held demo_posted" using demo_steps(5) by blast
  then show ?thesis using hold_lifecycle [OF demo_reachable(3) steps demo_hold_in] demo_hold_in demo_hold_eq by auto
qed

theorem PlaceHold_idempotent_witness:
  "PlaceHold 600 [demo_attempt] (customer ''alice'') 200 ''KZT'' ''transfer'' ''x1'' 1000000000 demo_held = (Some (Inr demo_hold), demo_held)
   \<and> (\<exists>err. PlaceHold 600 [demo_attempt] (customer ''alice'') 201 ''KZT'' ''transfer'' ''x1'' 1000000000 demo_held = (Some (Inl err), demo_held)
        \<and> CodeOf err = CodeAlreadyExists)"
proof -
  have a: "at_others demo_attempt demo_held = demo_held" "at_snap demo_attempt demo_held = demo_held"
    "env_begin (at_env demo_attempt) = None" "env_commit (at_env demo_attempt) = Committed"
    by (simp_all add: demo_attempt_def demo_env_simps)
  have acct: "getAccountByRef demo_held (customer ''alice'') = Inr \<lparr>acct_ID = ''acc1'', acct_ExternalID = ''alice'',
      acct_InternalCode = '''', acct_Type = TypeCustomer, acct_Currency = ''KZT'', acct_Status = StatusActive\<rparr>"
    using demo_hold_facts by (simp add: Let_def)
  note place = PlaceHold_idempotent [OF demo_reachable(3) demo_hold_in demo_hold_eq(4,5) _ _ acct a, of 600 "[]"]
  show ?thesis
    using place [of 200 "''KZT''" 1000000000] place [of 201 "''KZT''" 1000000000] demo_hold_eq(2,3) by simp
qed

theorem PlaceHold_returns_witness:
  "\<exists>res s'. PlaceHold 600 [demo_attempt, demo_attempt] (customer ''alice'') 100 ''KZT'' ''transfer'' ''x2'' 0 demo_held = (Some res, s')"
proof -
  have fresh: "u \<notin> hold_ID ` set (holds (at_others demo_attempt demo_held))" if "env_uuid (at_env demo_attempt) 0 = Some u" for u
    using that demo_hold_facts demo_hold_eq by (simp add: demo_attempt_def Let_def)
  show ?thesis
    by (rule PlaceHold_returns [OF _ _ _ fresh]) (use demo_reachable(3) in \<open>simp_all add: demo_attempt_def\<close>)
qed

theorem ReleaseHold_total_witness:
  "\<exists>s'. ReleaseHold (demo_env 7) ''u400'' demo_held = (Inr (demo_hold\<lparr>hold_Status := HoldReleased\<rparr>), s')"
  using ReleaseHold_total [OF demo_reachable(3) demo_hold_in demo_env_simps(1,2), of 7] demo_hold_eq by auto

theorem sweep_exact_witness:
  "demo_hold \<in> set (holds (sweep (demo_env 1000) (\<lambda>_. demo_env 1000) demo_held))
   \<and> list_all (\<lambda>h'. hold_ID h' = ''u400'' \<longrightarrow> hold_Status h' \<noteq> HoldActive)
          (holds (sweep (demo_env 2000) (\<lambda>_. demo_env 2000) demo_held))"
proof
  have "\<not> (hold_Status demo_hold = HoldActive \<and> hold_ExpiresAt demo_hold < env_now (demo_env 1000))"
    by (simp add: demo_hold_eq(7) demo_env_simps)
  then show "demo_hold \<in> set (holds (sweep (demo_env 1000) (\<lambda>_. demo_env 1000) demo_held))"
    using sweep_exact [OF demo_reachable(3) demo_hold_in] by blast
  have now: "hold_ExpiresAt demo_hold < env_now (demo_env 2000)" by (simp add: demo_hold_eq(7) demo_env_simps)
  have "length (filter (\<lambda>h. hold_Status h = HoldActive \<and> hold_ExpiresAt h < env_now (demo_env 2000)) (holds demo_held)) \<le> 100"
    by (rule order_trans [OF length_filter_le]) (simp add: demo_hold_eq(8))
  then show "list_all (\<lambda>h'. hold_ID h' = ''u400'' \<longrightarrow> hold_Status h' \<noteq> HoldActive)
      (holds (sweep (demo_env 2000) (\<lambda>_. demo_env 2000) demo_held))"
    unfolding list_all_iff using sweep_exact [OF demo_reachable(3) demo_hold_in, of "demo_env 2000" "\<lambda>_. demo_env 2000"] now demo_hold_eq(6)
      demo_env_simps unfolding demo_hold_eq(1) by blast
qed

theorem server_available_exact_witness:
  "\<exists>b. server_GetBalances demo_held [ExternalAccountId ''alice''] = Inr [b] \<and> sint (bm_Available b) = 300
     \<and> sint (bm_Available b) = sint (bm_Balance b) - sint (bm_Held b) \<and> 0 \<le> sint (bm_Available b)"
proof -
  obtain b where b: "server_GetBalances demo_held [ExternalAccountId ''alice''] = Inr [b]" "bm_AccountId b = ''acc1''" "bm_Available b = 300"
    using demo_hold_facts by (simp add: Let_def)
  have "is_customer demo_held (bm_AccountId b)" using demo_facts b(2) by simp
  then show ?thesis using server_available_exact [OF demo_reachable(3) b(1)] b by simp
qed

theorem server_refusal_definitive_witness:
  "\<not> Ambiguous (ToGRPC (toAppErr (Sentinel ErrInsufficientFunds)) :: ledger_err)"
  by (rule server_refusal_definitive [of _ ErrInsufficientFunds]) simp_all

lemma demo_pages_facts:
  "let s = demo_posted in getAccountByRef s (customer ''alice'') = Inr \<lparr>acct_ID = ''acc1'', acct_ExternalID = ''alice'',
      acct_InternalCode = '''', acct_Type = TypeCustomer, acct_Currency = ''KZT'', acct_Status = StatusActive\<rparr>
   \<and> (\<forall>p \<in> set (postings s). int64_min \<le> pr_OccurredAt p div 1000 \<and> pr_OccurredAt p div 1000 \<le> int64_max)
   \<and> map (\<lambda>(p, _). pr_ID p) (history s ''acc1'' 1000 10000000) = [''u501'', ''u302'']"
  by code_simp


section \<open>Two unintended behaviours\<close>

text \<open>
  A duplicate that loses the race for a reference is not always replayed: from a reachable
  ledger, a posting that captures its hold succeeds, and a concurrent duplicate of the very
  same request, whose unlocked reads preceded the first one's commit, is answered
  \<open>INVALID_ARGUMENT\<close>, because it waits for the lock on the hold and then finds it captured; the
  conflict on the reference, which would replay the entry, is only detected later.
\<close>

theorem post_race_misreports:
  "\<exists>snap s env env2 refType refID holdID specs view err. ledger_reachable snap
     \<and> PostTransaction env snap refType refID holdID specs snap = (Inr view, s)
     \<and> PostTransaction env2 snap refType refID holdID specs s = (Inl err, s) \<and> CodeOf err = CodeInvalidArgument"
proof -
  let ?first = "PostTransaction (demo_env 5) demo_held ''transfer'' ''x1'' ''u400'' demo_transfer demo_held"
  let ?second = "PostTransaction (demo_env 6) demo_held ''transfer'' ''x1'' ''u400'' demo_transfer demo_posted"
  obtain view where view: "?first = (Inr view, demo_posted)"
    using demo_success by (metis demo_posted_def prod.collapse)
  have "fst ?second = Inl (toAppErr (Sentinel ErrHoldNotActive))" using demo_facts by blast
  moreover have "snd ?second = demo_posted"
    by (rule recorded_unchanged [OF reachable_inv [OF demo_reachable(4)] demo_snapshot demo_recorded prod.collapse [symmetric]])
  ultimately have "?second = (Inl (toAppErr (Sentinel ErrHoldNotActive)), demo_posted)" by (metis prod.collapse)
  moreover have "CodeOf (toAppErr (Sentinel ErrHoldNotActive)) = CodeInvalidArgument" by code_simp
  ultimately show ?thesis using view demo_reachable(3) by blast
qed

text \<open>
  A hold can be captured without its amount leaving \<open>held\<close>: when the entry that captures the
  hold does not touch the hold's account, the hold becomes captured but the account keeps the
  amount reserved, with no active hold left that could ever free it.
\<close>

theorem captured_hold_leaks:
  "\<exists>s r. ledger_reachable s \<and> r \<in> set (account_balances s) \<and> is_customer s (ab_AccountID r)
     \<and> active_total (ab_AccountID r) (holds s) = 0 \<and> 0 < sint (ab_Held r)"
proof -
  let ?r = "account_balances demo_leak ! 4"
  have "?r \<in> set (account_balances demo_leak)" "is_customer demo_leak (ab_AccountID ?r)"
    "active_total (ab_AccountID ?r) (holds demo_leak) = 0" "0 < sint (ab_Held ?r)"
    using demo_facts by simp_all
  then show ?thesis using demo_reachable(5) by blast
qed


end
