(* ===== verification/Transfer_Domain.thy ===== *)
theory Transfer_Domain
  imports Apperr
begin

text \<open>
  \<open>src/services/transfer/internal/domain/state.go\<close>: the pure transfer saga state machine, the shape
  check of a request and the limit check.
\<close>

datatype transfer_sentinel =
    ErrIllegalTransition | ErrInvalidSpec | ErrSameAccount | ErrLimitExceeded | ErrAmountTooSmall
  | ErrTransferNotFound | ErrStateRaced

type_synonym transfer_err = "transfer_sentinel goerr"

definition transfer_text :: "transfer_sentinel \<Rightarrow> string" where
  "transfer_text s = (case s of
      ErrIllegalTransition \<Rightarrow> ''illegal state transition'' | ErrInvalidSpec \<Rightarrow> ''invalid transfer specification''
    | ErrSameAccount \<Rightarrow> ''source and destination are the same account'' | ErrLimitExceeded \<Rightarrow> ''limit exceeded''
    | ErrAmountTooSmall \<Rightarrow> ''amount too small to convert'' | ErrTransferNotFound \<Rightarrow> ''not found''
    | ErrStateRaced \<Rightarrow> ''transfer state raced'')"

text \<open>The string types of the source; a value outside the named constants is possible in Go.\<close>

datatype State = StateCreated | StateValidating | StateHeld | StatePosting | StateCompleted | StateReleasing | StateFailed
  | OtherState string

definition AllStates :: "State list" where
  "AllStates = [StateCreated, StateValidating, StateHeld, StatePosting, StateCompleted, StateReleasing, StateFailed]"

definition state_text :: "State \<Rightarrow> string" where
  "state_text s = (case s of StateCreated \<Rightarrow> ''CREATED'' | StateValidating \<Rightarrow> ''VALIDATING'' | StateHeld \<Rightarrow> ''HELD''
    | StatePosting \<Rightarrow> ''POSTING'' | StateCompleted \<Rightarrow> ''COMPLETED'' | StateReleasing \<Rightarrow> ''RELEASING''
    | StateFailed \<Rightarrow> ''FAILED'' | OtherState x \<Rightarrow> x)"

datatype SagaEvent = EvStart | EvValidated | EvValidationFailed | EvHoldFailed | EvPostingStarted | EvPosted | EvPostFailed
  | EvRecoveryExhausted | EvReleased

definition AllEvents :: "SagaEvent list" where
  "AllEvents = [EvStart, EvValidated, EvValidationFailed, EvHoldFailed, EvPostingStarted, EvPosted, EvPostFailed,
     EvRecoveryExhausted, EvReleased]"

definition event_text :: "SagaEvent \<Rightarrow> string" where
  "event_text e = (case e of EvStart \<Rightarrow> ''START'' | EvValidated \<Rightarrow> ''VALIDATED''
    | EvValidationFailed \<Rightarrow> ''VALIDATION_FAILED'' | EvHoldFailed \<Rightarrow> ''HOLD_FAILED''
    | EvPostingStarted \<Rightarrow> ''POSTING_STARTED'' | EvPosted \<Rightarrow> ''POSTED'' | EvPostFailed \<Rightarrow> ''POST_FAILED''
    | EvRecoveryExhausted \<Rightarrow> ''RECOVERY_EXHAUSTED'' | EvReleased \<Rightarrow> ''RELEASED'')"

definition transitions :: "State \<Rightarrow> (SagaEvent \<times> State) list" where
  "transitions s = (case s of
      StateCreated \<Rightarrow> [(EvStart, StateValidating)]
    | StateValidating \<Rightarrow> [(EvValidated, StateHeld), (EvValidationFailed, StateFailed)]
    | StateHeld \<Rightarrow> [(EvPostingStarted, StatePosting), (EvHoldFailed, StateReleasing), (EvRecoveryExhausted, StateReleasing)]
    | StatePosting \<Rightarrow> [(EvPosted, StateCompleted), (EvPostFailed, StateReleasing), (EvRecoveryExhausted, StateReleasing)]
    | StateReleasing \<Rightarrow> [(EvReleased, StateFailed)]
    | _ \<Rightarrow> [])"

definition Next :: "State \<Rightarrow> SagaEvent \<Rightarrow> transfer_err + State" where
  "Next s e = (case map_of (transitions s) e of Some to \<Rightarrow> Inr to | None \<Rightarrow> Inl (Sentinel ErrIllegalTransition))"

definition IsTerminal :: "State \<Rightarrow> bool" where
  "IsTerminal s \<longleftrightarrow> s = StateCompleted \<or> s = StateFailed"

datatype Type = TypeTopup | TypeInternalTransfer | TypeP2P | OtherType string

definition type_text :: "Type \<Rightarrow> string" where
  "type_text t = (case t of TypeTopup \<Rightarrow> ''TOPUP'' | TypeInternalTransfer \<Rightarrow> ''INTERNAL'' | TypeP2P \<Rightarrow> ''P2P'' | OtherType x \<Rightarrow> x)"

definition ValidateSpec :: "Type \<Rightarrow> string \<Rightarrow> string \<Rightarrow> string \<Rightarrow> int64 \<Rightarrow> string \<Rightarrow> transfer_err + unit" where
  "ValidateSpec t fromAccountID toAccountID toAccountNumber amount currency =
    (if amount \<le>s 0 then Inl (Sentinel ErrInvalidSpec)
     else if currency \<noteq> ''KZT'' \<and> currency \<noteq> ''USD'' then Inl (Sentinel ErrInvalidSpec)
     else case t of
         TypeTopup \<Rightarrow> if toAccountID = '''' \<or> fromAccountID \<noteq> '''' then Inl (Sentinel ErrInvalidSpec) else Inr ()
       | TypeInternalTransfer \<Rightarrow>
           if fromAccountID = '''' \<or> toAccountID = '''' then Inl (Sentinel ErrInvalidSpec)
           else if fromAccountID = toAccountID then Inl (Sentinel ErrSameAccount) else Inr ()
       | TypeP2P \<Rightarrow> if fromAccountID = '''' \<or> toAccountNumber = '''' then Inl (Sentinel ErrInvalidSpec) else Inr ()
       | OtherType _ \<Rightarrow> Inl (Sentinel ErrInvalidSpec))"

definition CheckLimits :: "int64 \<Rightarrow> int64 \<Rightarrow> int64 \<Rightarrow> int64 \<Rightarrow> transfer_err + unit" where
  "CheckLimits amount perTx dailyUsed dailyLimit =
    (if perTx <s amount then Inl (Sentinel ErrLimitExceeded)
     else if dailyLimit - amount <s dailyUsed then Inl (Sentinel ErrLimitExceeded)
     else Inr ())"

section \<open>The state machine\<close>

text \<open>How far a saga is; every transition increases it, so a saga has at most five of them.\<close>

definition rank :: "State \<Rightarrow> nat" where
  "rank s = (case s of StateCreated \<Rightarrow> 0 | StateValidating \<Rightarrow> 1 | StateHeld \<Rightarrow> 2 | StatePosting \<Rightarrow> 3 | StateReleasing \<Rightarrow> 4
    | StateCompleted \<Rightarrow> 5 | StateFailed \<Rightarrow> 5 | OtherState _ \<Rightarrow> 0)"

lemma Next_Inr_iff:
  "Next s e = Inr s' \<longleftrightarrow> (s, e, s') \<in> {(StateCreated, EvStart, StateValidating), (StateValidating, EvValidated, StateHeld),
     (StateValidating, EvValidationFailed, StateFailed), (StateHeld, EvPostingStarted, StatePosting),
     (StateHeld, EvHoldFailed, StateReleasing), (StateHeld, EvRecoveryExhausted, StateReleasing),
     (StatePosting, EvPosted, StateCompleted), (StatePosting, EvPostFailed, StateReleasing),
     (StatePosting, EvRecoveryExhausted, StateReleasing), (StateReleasing, EvReleased, StateFailed)}"
  by (cases s; cases e; auto simp: Next_def transitions_def)

lemma Next_rank: "Next s e = Inr s' \<Longrightarrow> rank s < rank s'"
  by (auto simp: Next_Inr_iff rank_def)

lemma Next_not_terminal: "Next s e = Inr s' \<Longrightarrow> \<not> IsTerminal s"
  by (auto simp: Next_Inr_iff IsTerminal_def)

lemma rank_le: "rank s \<le> 5"
  by (cases s) (simp_all add: rank_def)

lemma Next_error: "Next s e = Inl err \<Longrightarrow> err = Sentinel ErrIllegalTransition"
  by (auto simp: Next_def split: option.splits)

text \<open>One step of the machine, whatever the event.\<close>

definition next_step :: "State \<Rightarrow> State \<Rightarrow> bool" where
  "next_step s s' \<longleftrightarrow> (\<exists>e. Next s e = Inr s')"



text \<open>
  The limit check is exact over the integers: for a positive amount and a non-negative daily limit,
  a transfer is let through exactly when the amount is within the per-transfer limit and, with
  what was used before, within the daily limit; the subtraction never wraps.
\<close>

lemma CheckLimits_exact:
  assumes "0 <s amount" and "0 \<le>s dailyLimit"
  shows "CheckLimits amount perTx dailyUsed dailyLimit = Inr () \<longleftrightarrow>
    sint amount \<le> sint perTx \<and> sint dailyUsed + sint amount \<le> sint dailyLimit"
  using assms sint_int64_bounds [of amount] sint_int64_bounds [of dailyLimit]
  by (auto simp: CheckLimits_def int64_simps sint_diff_int64)

lemma CheckLimits_exact_witness:
  "CheckLimits 100 1000 4900 5000 = Inr () \<and> CheckLimits 100 1000 4901 5000 \<noteq> Inr ()"
  using CheckLimits_exact [of 100 5000 1000 4900] CheckLimits_exact [of 100 5000 1000 4901] by (simp add: int64_simps)

end
