(* ===== verification/Transfer_Store.thy ===== *)
theory Transfer_Store
  imports Transfer_Domain Outbox Money
begin

text \<open>
  The transfer database: its tables (\<open>src/services/transfer/migrations\<close>, \<open>adapters/postgres/db/models.go\<close>),
  the statements of \<open>adapters/postgres/db/queries.sql.go\<close> with the constraints of the schema, and the store
  adapter \<open>adapters/postgres/store.go\<close>. Identifiers are canonical uuid texts, whose order is the
  order of the \<open>uuid\<close> type.
\<close>

section \<open>Rows\<close>

record TransferRow =
  tr_ID :: string
  tr_Type :: Type
  tr_State :: State
  tr_CustomerID :: string
  tr_FromAccountID :: "string option"
  tr_ToAccountID :: "string option"
  tr_ToAccountNumber :: "string option"
  tr_Amount :: int64
  tr_Currency :: string
  tr_CounterAmount :: "int64 option"
  tr_CounterCurrency :: "string option"
  tr_AppliedRateMicros :: "int64 option"
  tr_RatePair :: "string option"
  tr_Reason :: "string option"
  tr_HoldID :: "string option"
  tr_RecoveryAttempts :: int32
  tr_CreatedAt :: time
  tr_UpdatedAt :: time

datatype detail_value = DText string | DInt int

record TransferEventRow =
  te_TransferID :: string
  te_FromState :: State
  te_ToState :: State
  te_Detail :: "(string \<times> detail_value) list option"
  te_At :: time

record IdempotencyKey =
  ik_CustomerID :: string
  ik_Key :: string
  ik_TransferID :: string
  ik_RequestHash :: string
  ik_CreatedAt :: time

record Rate =
  rate_Pair :: string
  rate_BuyMicros :: int64
  rate_SellMicros :: int64
  rate_ValidFrom :: time

record Limit =
  lim_Tier :: string
  lim_Currency :: string
  lim_PerTx :: int64
  lim_Daily :: int64

record transfer_db =
  transfers :: "TransferRow list"
  transfer_events :: "TransferEventRow list"
  idempotency_keys :: "IdempotencyKey list"
  rates :: "Rate list"
  limits :: "Limit list"
  t_outbox :: "OutboxRow list"

section \<open>queries.sql.go\<close>

definition q_AppendTransferEvent :: "tx_env \<Rightarrow> string \<Rightarrow> State \<Rightarrow> State \<Rightarrow> (string \<times> detail_value) list option
     \<Rightarrow> transfer_db \<Rightarrow> pg_error + transfer_db" where
  "q_AppendTransferEvent env ident from to detail s =
    (if ident \<notin> tr_ID ` set (transfers s) then Inl ForeignKeyViolation
     else Inr (s\<lparr>transfer_events := transfer_events s @
       [\<lparr>te_TransferID = ident, te_FromState = from, te_ToState = to, te_Detail = detail, te_At = env_now env\<rparr>]\<rparr>))"

text \<open>
  The claim of stuck transfers; \<open>locked\<close> are the rows other workers hold (\<open>SKIP LOCKED\<close>). SQL leaves the
  order of \<open>RETURNING\<close> open; the model returns the rows in table order.
\<close>

definition q_ClaimStuck :: "tx_env \<Rightarrow> string list \<Rightarrow> State list \<Rightarrow> int \<Rightarrow> int32 \<Rightarrow> transfer_db
     \<Rightarrow> pg_error + string list \<times> transfer_db" where
  "q_ClaimStuck env locked states staleMicros n s =
    (let stuck = map tr_ID (limit_rows n (sort_key tr_UpdatedAt
           (filter (\<lambda>t. tr_State t \<in> set states \<and> tr_UpdatedAt t < env_now env - staleMicros * 1000 \<and> tr_ID t \<notin> set locked)
             (transfers s))));
         hit = (\<lambda>t. tr_ID t \<in> set stuck)
     in if \<exists>t \<in> set (transfers s). hit t \<and> tr_RecoveryAttempts t = 2147483647 then Inl NumericOutOfRange
        else Inr (map tr_ID (filter hit (transfers s)),
          s\<lparr>transfers := update_where hit (\<lambda>t. t\<lparr>tr_RecoveryAttempts := tr_RecoveryAttempts t + 1, tr_UpdatedAt := env_now env\<rparr>)
            (transfers s)\<rparr>))"

definition q_DeleteExpiredIdempotencyKeys :: "time \<Rightarrow> transfer_db \<Rightarrow> nat \<times> transfer_db" where
  "q_DeleteExpiredIdempotencyKeys before s =
    (length (filter (\<lambda>k. ik_CreatedAt k < before) (idempotency_keys s)),
     s\<lparr>idempotency_keys := filter (\<lambda>k. \<not> ik_CreatedAt k < before) (idempotency_keys s)\<rparr>)"

definition q_GetIdempotencyKey :: "transfer_db \<Rightarrow> string \<Rightarrow> string \<Rightarrow> pg_error + IdempotencyKey" where
  "q_GetIdempotencyKey s customerID key =
    one_row (select_one (\<lambda>k. ik_CustomerID k = customerID \<and> ik_Key k = key) (idempotency_keys s))"

definition q_GetLatestRate :: "transfer_db \<Rightarrow> string \<Rightarrow> time \<Rightarrow> pg_error + Rate" where
  "q_GetLatestRate s pair at = one_row (select_one (\<lambda>_. True)
     (rev (sort_key rate_ValidFrom (filter (\<lambda>r. rate_Pair r = pair \<and> rate_ValidFrom r \<le> at) (rates s)))))"

definition q_GetLimit :: "transfer_db \<Rightarrow> string \<Rightarrow> string \<Rightarrow> pg_error + Limit" where
  "q_GetLimit s tier currency = one_row (select_one (\<lambda>l. lim_Tier l = tier \<and> lim_Currency l = currency) (limits s))"

definition q_GetTransfer :: "transfer_db \<Rightarrow> string \<Rightarrow> pg_error + TransferRow" where
  "q_GetTransfer s ident = one_row (select_one (\<lambda>t. tr_ID t = ident) (transfers s))"

text \<open>The named states and types are those the \<open>CHECK\<close> constraints admit.\<close>

definition known_state :: "State \<Rightarrow> bool" where
  "known_state s \<longleftrightarrow> s \<in> set AllStates"

definition known_type :: "Type \<Rightarrow> bool" where
  "known_type t \<longleftrightarrow> t \<in> {TypeTopup, TypeInternalTransfer, TypeP2P}"

definition q_InsertTransfer :: "tx_env \<Rightarrow> string \<Rightarrow> Type \<Rightarrow> State \<Rightarrow> string \<Rightarrow> string option \<Rightarrow> string option \<Rightarrow> string option
     \<Rightarrow> int64 \<Rightarrow> string \<Rightarrow> transfer_db \<Rightarrow> pg_error + transfer_db" where
  "q_InsertTransfer env ident t st customerID from to number amount currency s =
    (if \<not> known_type t \<or> \<not> known_state st \<or> amount \<le>s 0 \<or> currency \<notin> {''KZT'', ''USD''} then Inl CheckViolation
     else if ident \<in> tr_ID ` set (transfers s) then Inl UniqueViolation
     else Inr (s\<lparr>transfers := transfers s @ [\<lparr>tr_ID = ident, tr_Type = t, tr_State = st, tr_CustomerID = customerID,
       tr_FromAccountID = from, tr_ToAccountID = to, tr_ToAccountNumber = number, tr_Amount = amount, tr_Currency = currency,
       tr_CounterAmount = None, tr_CounterCurrency = None, tr_AppliedRateMicros = None, tr_RatePair = None, tr_Reason = None,
       tr_HoldID = None, tr_RecoveryAttempts = 0, tr_CreatedAt = env_now env, tr_UpdatedAt = env_now env\<rparr>]\<rparr>))"

text \<open>\<open>DISTINCT ON (pair)\<close> after \<open>ORDER BY pair, valid_from DESC\<close>: the first row of each pair.\<close>

fun distinct_on :: "('r \<Rightarrow> 'k) \<Rightarrow> 'r list \<Rightarrow> 'r list" where
  "distinct_on k [] = []"
| "distinct_on k (r # rs) = r # distinct_on k (filter (\<lambda>x. k x \<noteq> k r) rs)"

definition q_ListLatestRates :: "transfer_db \<Rightarrow> time \<Rightarrow> Rate list" where
  "q_ListLatestRates s at = distinct_on rate_Pair (sort_key (\<lambda>r. (rate_Pair r, - rate_ValidFrom r))
     (filter (\<lambda>r. rate_ValidFrom r \<le> at) (rates s)))"

definition q_ListTransfersByCustomer :: "transfer_db \<Rightarrow> string \<Rightarrow> time \<Rightarrow> string \<Rightarrow> int32 \<Rightarrow> TransferRow list" where
  "q_ListTransfersByCustomer s customerID curTime curID n = limit_rows n
    (rev (sort_key (\<lambda>t. (tr_CreatedAt t, tr_ID t))
      (filter (\<lambda>t. tr_CustomerID t = customerID \<and> (tr_CreatedAt t, tr_ID t) < (curTime, curID)) (transfers s))))"

definition q_SumDailyOutgoing :: "transfer_db \<Rightarrow> string \<Rightarrow> string \<Rightarrow> time \<Rightarrow> pg_error + int64" where
  "q_SumDailyOutgoing s customerID currency since =
    (let total = (\<Sum>t\<leftarrow>filter (\<lambda>t. tr_CustomerID t = customerID \<and> tr_Currency t = currency \<and> tr_Type t \<in> {TypeInternalTransfer, TypeP2P}
           \<and> tr_State t \<noteq> StateFailed \<and> since \<le> tr_CreatedAt t) (transfers s). sint (tr_Amount t))
     in if int64_min \<le> total \<and> total \<le> int64_max then Inr (word_of_int total) else Inl NumericOutOfRange)"

definition q_TryInsertIdempotencyKey :: "tx_env \<Rightarrow> string \<Rightarrow> string \<Rightarrow> string \<Rightarrow> string \<Rightarrow> transfer_db \<Rightarrow> nat \<times> transfer_db" where
  "q_TryInsertIdempotencyKey env customerID key transferID requestHash s =
    (if (customerID, key) \<in> (\<lambda>k. (ik_CustomerID k, ik_Key k)) ` set (idempotency_keys s) then (0, s)
     else (1, s\<lparr>idempotency_keys := idempotency_keys s @ [\<lparr>ik_CustomerID = customerID, ik_Key = key, ik_TransferID = transferID,
       ik_RequestHash = requestHash, ik_CreatedAt = env_now env\<rparr>]\<rparr>))"

definition q_UpdateTransferGuarded :: "tx_env \<Rightarrow> TransferRow \<Rightarrow> State \<Rightarrow> transfer_db \<Rightarrow> pg_error + nat \<times> transfer_db" where
  "q_UpdateTransferGuarded env arg expected s =
    (let hit = (\<lambda>t. tr_ID t = tr_ID arg \<and> tr_State t = expected);
         n = length (filter hit (transfers s))
     in if n \<noteq> 0 \<and> \<not> known_state (tr_State arg) then Inl CheckViolation
        else Inr (n, s\<lparr>transfers := update_where hit (\<lambda>t. t\<lparr>tr_State := tr_State arg, tr_ToAccountID := tr_ToAccountID arg,
          tr_CounterAmount := tr_CounterAmount arg, tr_CounterCurrency := tr_CounterCurrency arg,
          tr_AppliedRateMicros := tr_AppliedRateMicros arg, tr_RatePair := tr_RatePair arg, tr_Reason := tr_Reason arg,
          tr_HoldID := tr_HoldID arg, tr_UpdatedAt := env_now env\<rparr>) (transfers s)\<rparr>))"

text \<open>The foreign key of the idempotency keys is checked at commit.\<close>

definition keys_resolve :: "transfer_db \<Rightarrow> bool" where
  "keys_resolve s \<longleftrightarrow> (\<forall>k \<in> set (idempotency_keys s). ik_TransferID k \<in> tr_ID ` set (transfers s))"

section \<open>ports.go and store.go\<close>

record Transfer =
  t_ID :: string
  t_Type :: Type
  t_State :: State
  t_CustomerID :: string
  t_FromAccountID :: string
  t_ToAccountID :: string
  t_ToAccountNumber :: string
  t_Amount :: int64
  t_Currency :: string
  t_CounterAmount :: "int64 option"
  t_CounterCurrency :: "string option"
  t_RateMicros :: "int64 option"
  t_RatePair :: "string option"
  t_Reason :: "string option"
  t_HoldID :: "string option"
  t_RecoveryAttempts :: int32
  t_CreatedAt :: time
  t_UpdatedAt :: time

definition nilIfEmpty :: "string \<Rightarrow> string option" where
  "nilIfEmpty x = (if x = '''' then None else Some x)"

definition transferFromRow :: "TransferRow \<Rightarrow> Transfer" where
  "transferFromRow r = \<lparr>t_ID = tr_ID r, t_Type = tr_Type r, t_State = tr_State r, t_CustomerID = tr_CustomerID r,
     t_FromAccountID = text_or_empty (tr_FromAccountID r), t_ToAccountID = text_or_empty (tr_ToAccountID r),
     t_ToAccountNumber = text_or_empty (tr_ToAccountNumber r), t_Amount = tr_Amount r, t_Currency = tr_Currency r,
     t_CounterAmount = tr_CounterAmount r, t_CounterCurrency = tr_CounterCurrency r, t_RateMicros = tr_AppliedRateMicros r,
     t_RatePair = tr_RatePair r, t_Reason = tr_Reason r, t_HoldID = tr_HoldID r, t_RecoveryAttempts = tr_RecoveryAttempts r,
     t_CreatedAt = tr_CreatedAt r, t_UpdatedAt = tr_UpdatedAt r\<rparr>"

text \<open>\<open>pgx.ErrNoRows\<close> becomes \<open>app.ErrNotFound\<close>; other errors pass through.\<close>

definition notFoundErr :: "pg_error \<Rightarrow> transfer_err" where
  "notFoundErr e = (if e = ErrNoRows then Sentinel ErrTransferNotFound else rawErr e)"

definition transfer_WithinTx :: "tx_env \<Rightarrow> (transfer_db \<Rightarrow> transfer_err + 'a \<times> transfer_db) \<Rightarrow> transfer_db
     \<Rightarrow> (transfer_err + 'a) \<times> transfer_db" where
  "transfer_WithinTx env fn s = WithTx keys_resolve env fn s"

definition store_GetTransfer :: "transfer_db \<Rightarrow> string \<Rightarrow> transfer_err + Transfer" where
  "store_GetTransfer s ident = sum_bind (map_left notFoundErr (q_GetTransfer s ident)) (\<lambda>r. Inr (transferFromRow r))"

definition store_ListTransfersByCustomer :: "transfer_db \<Rightarrow> string \<Rightarrow> int32 \<Rightarrow> time \<Rightarrow> string \<Rightarrow> Transfer list" where
  "store_ListTransfersByCustomer s customerID n curTime curID =
    map transferFromRow (q_ListTransfersByCustomer s customerID curTime curID n)"

definition store_GetLatestRate :: "transfer_db \<Rightarrow> string \<Rightarrow> time \<Rightarrow> transfer_err + Rate" where
  "store_GetLatestRate s pair at = map_left notFoundErr (q_GetLatestRate s pair at)"

definition store_GetLimit :: "transfer_db \<Rightarrow> string \<Rightarrow> string \<Rightarrow> transfer_err + int64 \<times> int64" where
  "store_GetLimit s tier currency =
    sum_bind (map_left notFoundErr (q_GetLimit s tier currency)) (\<lambda>l. Inr (lim_PerTx l, lim_Daily l))"

definition store_SumDailyOutgoing :: "transfer_db \<Rightarrow> string \<Rightarrow> string \<Rightarrow> time \<Rightarrow> transfer_err + int64" where
  "store_SumDailyOutgoing s customerID currency since = map_left rawErr (q_SumDailyOutgoing s customerID currency since)"

definition store_ClaimStuck :: "tx_env \<Rightarrow> string list \<Rightarrow> State list \<Rightarrow> duration \<Rightarrow> int32 \<Rightarrow> transfer_db
     \<Rightarrow> (transfer_err + string list) \<times> transfer_db" where
  "store_ClaimStuck env locked states staleAfter n s = WithTx keys_resolve env
    (\<lambda>s. map_left rawErr (q_ClaimStuck env locked states (sint staleAfter sdiv 1000) n s)) s"

definition tx_TryInsertIdempotencyKey :: "tx_env \<Rightarrow> string \<Rightarrow> string \<Rightarrow> string \<Rightarrow> string \<Rightarrow> transfer_db \<Rightarrow> bool \<times> transfer_db" where
  "tx_TryInsertIdempotencyKey env customerID key transferID requestHash s =
    (case q_TryInsertIdempotencyKey env customerID key transferID requestHash s of (n, s') \<Rightarrow> (n = 1, s'))"

definition tx_GetIdempotencyKey :: "transfer_db \<Rightarrow> string \<Rightarrow> string \<Rightarrow> transfer_err + string \<times> string" where
  "tx_GetIdempotencyKey s customerID key =
    sum_bind (map_left notFoundErr (q_GetIdempotencyKey s customerID key)) (\<lambda>k. Inr (ik_TransferID k, ik_RequestHash k))"

definition tx_InsertTransfer :: "tx_env \<Rightarrow> Transfer \<Rightarrow> transfer_db \<Rightarrow> transfer_err + transfer_db" where
  "tx_InsertTransfer env t s = map_left rawErr (q_InsertTransfer env (t_ID t) (t_Type t) (t_State t) (t_CustomerID t)
     (nilIfEmpty (t_FromAccountID t)) (nilIfEmpty (t_ToAccountID t)) (nilIfEmpty (t_ToAccountNumber t)) (t_Amount t)
     (t_Currency t) s)"

text \<open>The parameters of the guarded update; the columns it does not set are not read.\<close>

definition updateArgs :: "Transfer \<Rightarrow> TransferRow" where
  "updateArgs t = \<lparr>tr_ID = t_ID t, tr_Type = t_Type t, tr_State = t_State t, tr_CustomerID = t_CustomerID t,
     tr_FromAccountID = nilIfEmpty (t_FromAccountID t), tr_ToAccountID = nilIfEmpty (t_ToAccountID t),
     tr_ToAccountNumber = nilIfEmpty (t_ToAccountNumber t), tr_Amount = t_Amount t, tr_Currency = t_Currency t,
     tr_CounterAmount = t_CounterAmount t, tr_CounterCurrency = t_CounterCurrency t, tr_AppliedRateMicros = t_RateMicros t,
     tr_RatePair = t_RatePair t, tr_Reason = t_Reason t, tr_HoldID = t_HoldID t, tr_RecoveryAttempts = t_RecoveryAttempts t,
     tr_CreatedAt = t_CreatedAt t, tr_UpdatedAt = t_UpdatedAt t\<rparr>"

definition tx_UpdateTransferGuarded :: "tx_env \<Rightarrow> Transfer \<Rightarrow> State \<Rightarrow> transfer_db \<Rightarrow> transfer_err + transfer_db" where
  "tx_UpdateTransferGuarded env t expectedState s =
    sum_bind (map_left rawErr (q_UpdateTransferGuarded env (updateArgs t) expectedState s)) (\<lambda>(n, s').
      if n = 0 then Inl (Sentinel ErrStateRaced) else Inr s')"

definition tx_AppendEvent :: "tx_env \<Rightarrow> string \<Rightarrow> State \<Rightarrow> State \<Rightarrow> (string \<times> detail_value) list option \<Rightarrow> transfer_db
     \<Rightarrow> transfer_err + transfer_db" where
  "tx_AppendEvent env ident from to detail s = map_left rawErr (q_AppendTransferEvent env ident from to detail s)"

definition transfer_InsertOutbox :: "tx_env \<Rightarrow> Message \<Rightarrow> transfer_db \<Rightarrow> transfer_err + transfer_db" where
  "transfer_InsertOutbox env m s = sum_bind (outbox_Insert env m (t_outbox s)) (\<lambda>t. Inr (s\<lparr>t_outbox := t\<rparr>))"

section \<open>Effects\<close>

interpretation transfer_table: keyed_table tr_ID "\<lambda>k t. select_one (\<lambda>r. tr_ID r = k) t"
    "\<lambda>k f t. update_where (\<lambda>r. tr_ID r = k) f t"
  by unfold_locales simp_all

lemma store_GetTransfer_Inr:
  "store_GetTransfer s k = Inr t \<longleftrightarrow> (\<exists>r. select_one (\<lambda>r. tr_ID r = k) (transfers s) = Some r \<and> t = transferFromRow r)"
  by (auto simp: store_GetTransfer_def q_GetTransfer_def sum_bind_Inr_iff)

lemma transferFromRow_simps [simp]:
  "t_ID (transferFromRow r) = tr_ID r" "t_Type (transferFromRow r) = tr_Type r" "t_State (transferFromRow r) = tr_State r"
  "t_Amount (transferFromRow r) = tr_Amount r" "t_Currency (transferFromRow r) = tr_Currency r"
  "t_HoldID (transferFromRow r) = tr_HoldID r" "t_CounterAmount (transferFromRow r) = tr_CounterAmount r"
  "t_CounterCurrency (transferFromRow r) = tr_CounterCurrency r" "t_CustomerID (transferFromRow r) = tr_CustomerID r"
  "t_RecoveryAttempts (transferFromRow r) = tr_RecoveryAttempts r" "t_Reason (transferFromRow r) = tr_Reason r"
  by (simp_all add: transferFromRow_def)

text \<open>\<open>nilIfEmpty\<close> undoes reading an optional text column, unless it holds the empty text.\<close>

lemma nilIfEmpty_text: "x \<noteq> Some '''' \<Longrightarrow> nilIfEmpty (text_or_empty x) = x"
  by (cases x) (auto simp: nilIfEmpty_def text_or_empty_def)

end
