(* ===== verification/Grpcx.thy ===== *)
theory Grpcx
  imports Outbox
begin

text \<open>
  \<open>src/pkg/grpcx\<close>: what every internal gRPC call goes through. \<open>claims.go\<close> and the metadata
  interceptors carry the caller's identity from hop to hop; \<open>client.go\<close> wraps each call in
  retry, circuit breaker and timeout. The gRPC library and the breaker implementation are
  third-party: what they do to one attempt is an input (\<open>fate\<close>).
\<close>

section \<open>claims.go\<close>

abbreviation MDRequestID :: string where "MDRequestID \<equiv> ''x-request-id''"
abbreviation MDCustomerID :: string where "MDCustomerID \<equiv> ''x-customer-id''"
abbreviation MDRoles :: string where "MDRoles \<equiv> ''x-roles''"
abbreviation MDIdempotencyKey :: string where "MDIdempotencyKey \<equiv> ''x-idempotency-key''"

abbreviation RoleCustomer :: string where "RoleCustomer \<equiv> ''customer''"
abbreviation RoleSupport :: string where "RoleSupport \<equiv> ''support''"
abbreviation RoleAdmin :: string where "RoleAdmin \<equiv> ''admin''"

record Claims =
  cl_CustomerID :: string
  cl_Roles :: "string list"

definition HasRole :: "Claims \<Rightarrow> string \<Rightarrow> bool" where
  "HasRole c role \<longleftrightarrow> role \<in> set (cl_Roles c)"

definition IsStaff :: "Claims \<Rightarrow> bool" where
  "IsStaff c \<longleftrightarrow> HasRole c RoleSupport \<or> HasRole c RoleAdmin"

text \<open>gRPC metadata: key and value pairs in order; \<open>Get\<close> returns the values of a key.\<close>

type_synonym metadata = "(string \<times> string) list"

definition mdFirst :: "metadata \<Rightarrow> string \<Rightarrow> string" where
  "mdFirst md key = (case map_of md key of Some v \<Rightarrow> v | None \<Rightarrow> '''')"

text \<open>
  \<open>strings.Split\<close> at a one-byte separator and \<open>strings.TrimSpace\<close>. Metadata values are printable
  ASCII, so only the ASCII spaces matter.
\<close>

fun Split :: "char \<Rightarrow> string \<Rightarrow> string list" where
  "Split sep [] = [[]]"
| "Split sep (c # s) = (if c = sep then [] # Split sep s
     else case Split sep s of p # ps \<Rightarrow> (c # p) # ps | [] \<Rightarrow> [[c]])"

definition is_space :: "char \<Rightarrow> bool" where
  "is_space c \<longleftrightarrow> of_char c \<in> {9, 10, 11, 12, 13, 32 :: nat}"

definition TrimSpace :: "string \<Rightarrow> string" where
  "TrimSpace s = rev (dropWhile is_space (rev (dropWhile is_space s)))"

definition parseRoles :: "string \<Rightarrow> string list" where
  "parseRoles raw = (if raw = '''' then [] else filter (\<lambda>p. p \<noteq> '''') (map TrimSpace (Split CHR '','' raw)))"

section \<open>client.go: propagation, and server.go: claims\<close>

fun joinRoles :: "string list \<Rightarrow> string" where
  "joinRoles [] = ''''"
| "joinRoles [r] = r"
| "joinRoles (r # rs) = r @ '','' @ joinRoles rs"

text \<open>What a request context carries between services.\<close>

record call_ctx =
  ctx_RequestID :: string
  ctx_Claims :: Claims
  ctx_IdempotencyKey :: string

definition propagationInterceptor :: "call_ctx \<Rightarrow> metadata \<Rightarrow> metadata" where
  "propagationInterceptor ctx md =
    md @ (if ctx_RequestID ctx \<noteq> '''' then [(MDRequestID, ctx_RequestID ctx)] else [])
       @ (if cl_CustomerID (ctx_Claims ctx) \<noteq> ''''
          then (MDCustomerID, cl_CustomerID (ctx_Claims ctx))
            # (if cl_Roles (ctx_Claims ctx) \<noteq> [] then [(MDRoles, joinRoles (cl_Roles (ctx_Claims ctx)))] else [])
          else [])
       @ (if ctx_IdempotencyKey ctx \<noteq> '''' then [(MDIdempotencyKey, ctx_IdempotencyKey ctx)] else [])"

text \<open>The server side; the request id is set by the logging interceptor.\<close>

definition claimsInterceptor :: "metadata \<Rightarrow> call_ctx" where
  "claimsInterceptor md = \<lparr>ctx_RequestID = mdFirst md MDRequestID,
     ctx_Claims = \<lparr>cl_CustomerID = mdFirst md MDCustomerID, cl_Roles = parseRoles (mdFirst md MDRoles)\<rparr>,
     ctx_IdempotencyKey = mdFirst md MDIdempotencyKey\<rparr>"

section \<open>client.go: the resilience chain\<close>

text \<open>
  One attempt: it is delivered and answered; the server executes it but the answer is lost;
  it never reaches the server; or the breaker refuses the method. A lost call ends with a status the
  gRPC library generates itself. The gRPC specification lists the codes it never generates.
\<close>

datatype fate = Delivered | ReplyLost grpc_code string | NotSent grpc_code string | BreakerOpen string

definition library_code :: "grpc_code \<Rightarrow> bool" where
  "library_code c \<longleftrightarrow> c \<notin> {OK, InvalidArgument, NotFound, AlreadyExists, FailedPrecondition, Aborted, OutOfRange, DataLoss}"

definition fate_ok :: "fate \<Rightarrow> bool" where
  "fate_ok f = (case f of ReplyLost c _ \<Rightarrow> library_code c | NotSent c _ \<Rightarrow> library_code c | _ \<Rightarrow> True)"

definition transport_error :: "grpc_code \<Rightarrow> string \<Rightarrow> 'e goerr" where
  "transport_error c m = StatusErr \<lparr>st_Code = c, st_Message = m, st_Details = []\<rparr>"

text \<open>A handler's error as the client receives it: its status, \<open>Unknown\<close> when it has none.\<close>

definition wire_err :: "'f goerr \<Rightarrow> 'e goerr" where
  "wire_err e = (case status_FromError e of Some st \<Rightarrow> StatusErr st | None \<Rightarrow> transport_error Unknown ''unknown'')"

definition rpc_Ambiguous :: "'e goerr \<Rightarrow> bool" where
  "rpc_Ambiguous err \<longleftrightarrow> status_Code err = Unavailable \<or> status_Code err = DeadlineExceeded"

definition invoke :: "fate \<Rightarrow> ('s \<Rightarrow> ('f goerr + 'a) \<times> 's) \<Rightarrow> 's \<Rightarrow> ('e goerr + 'a) \<times> 's" where
  "invoke f handler s = (case f of
      Delivered \<Rightarrow> (case handler s of (res, s') \<Rightarrow> (map_left wire_err res, s'))
    | ReplyLost c m \<Rightarrow> (Inl (transport_error c m), snd (handler s))
    | NotSent c m \<Rightarrow> (Inl (transport_error c m), s)
    | BreakerOpen meth \<Rightarrow> (Inl (transport_error Unavailable (''circuit breaker open: '' @ meth)), s))"

text \<open>
  The retry loop over a call whose attempts are given in order; when no further attempt is
  listed, the context was done during the backoff. \<open>n\<close> is the number of attempts left.
\<close>

fun retryInterceptor :: "nat \<Rightarrow> ('c \<Rightarrow> 's \<Rightarrow> ('e goerr + 'a) \<times> 's) \<Rightarrow> 'c \<Rightarrow> 'c list \<Rightarrow> 's \<Rightarrow> ('e goerr + 'a) \<times> 's" where
  "retryInterceptor n invoker c cs s = (case invoker c s of
      (Inr x, s') \<Rightarrow> (Inr x, s')
    | (Inl err, s') \<Rightarrow>
        if \<not> rpc_Ambiguous err \<or> n \<le> 1 then (Inl err, s')
        else (case cs of [] \<Rightarrow> (Inl err, s') | c' # cs' \<Rightarrow> retryInterceptor (n - 1) invoker c' cs' s'))"

declare retryInterceptor.simps [simp del]

definition maxAttempts :: nat where "maxAttempts = 3"

section \<open>Properties\<close>

lemma rpc_Ambiguous_wire [simp]: "rpc_Ambiguous (transport_error c m) \<longleftrightarrow> c = Unavailable \<or> c = DeadlineExceeded"
  by (simp add: rpc_Ambiguous_def status_Code_def transport_error_def)

text \<open>Whatever the fates, a call is a sequence of executions of its handler, and a success is an answer of the last one.\<close>

lemma retryInterceptor_invariant:
  assumes "retryInterceptor n invoker c cs s = (res, s')" and "P s"
    and "\<And>c' s s' res. c' \<in> set (c # cs) \<Longrightarrow> P s \<Longrightarrow> invoker c' s = (res, s') \<Longrightarrow> P s'"
    and "\<And>c' s s' res. c' \<in> set (c # cs) \<Longrightarrow> P s \<Longrightarrow> invoker c' s = (res, s') \<Longrightarrow> Q res s'"
  shows "P s' \<and> Q res s'"
  using assms
proof (induction cs arbitrary: n c s)
  case Nil
  obtain res1 s1 where inv: "invoker c s = (res1, s1)" by fastforce
  then have "res = res1 \<and> s' = s1"
    using Nil.prems(1) by (simp add: retryInterceptor.simps split: sum.splits if_splits)
  then show ?case using Nil.prems(3) [OF _ Nil.prems(2) inv] Nil.prems(4) [OF _ Nil.prems(2) inv] by simp
next
  case (Cons c' cs)
  obtain res1 s1 where inv: "invoker c s = (res1, s1)" by fastforce
  have step: "P s1" "Q res1 s1"
    using Cons.prems(3) [OF _ Cons.prems(2) inv] Cons.prems(4) [OF _ Cons.prems(2) inv] by simp_all
  show ?case
  proof (cases "(\<exists>err. res1 = Inl err \<and> rpc_Ambiguous err) \<and> 1 < n")
    case True
    then have "retryInterceptor (n - 1) invoker c' cs s1 = (res, s')"
      using Cons.prems(1) inv by (auto simp: retryInterceptor.simps [of n])
    then show ?thesis by (rule Cons.IH) (use step(1) Cons.prems(3,4) in \<open>simp_all, blast+\<close>)
  next
    case False
    then have "res = res1 \<and> s' = s1"
      using Cons.prems(1) inv by (auto simp: retryInterceptor.simps [of n] split: sum.splits if_splits)
    then show ?thesis using step by blast
  qed
qed

text \<open>A role name as the identity service issues them.\<close>

definition role_ok :: "string \<Rightarrow> bool" where
  "role_ok r \<longleftrightarrow> r \<noteq> '''' \<and> CHR '','' \<notin> set r \<and> (\<forall>c \<in> set r. \<not> is_space c)"

lemma Split_nonempty [simp]: "Split sep s \<noteq> []"
  by (induction s) (auto split: list.splits)

lemma Split_none: "sep \<notin> set r \<Longrightarrow> Split sep r = [r]"
  by (induction r) auto

lemma Split_append: "sep \<notin> set r \<Longrightarrow> Split sep (r @ sep # s) = r # Split sep s"
  by (induction r) auto

lemma TrimSpace_role: "role_ok r \<Longrightarrow> TrimSpace r = r"
  unfolding role_ok_def TrimSpace_def
  by (metis dropWhile_eq_self_iff hd_in_set rev_is_Nil_conv rev_rev_ident set_rev)

lemma parse_joinRoles:
  assumes "\<forall>r \<in> set rs. role_ok r"
  shows "parseRoles (joinRoles rs) = rs"
proof (cases "rs = []")
  case False
  have "joinRoles rs \<noteq> '''' \<and> Split CHR '','' (joinRoles rs) = rs"
    using False assms by (induction rs rule: joinRoles.induct) (auto simp: role_ok_def Split_none Split_append)
  moreover have "map TrimSpace rs = rs" using assms by (simp add: TrimSpace_role map_idI)
  ultimately show ?thesis using assms by (simp add: parseRoles_def role_ok_def filter_id_conv)
qed (simp add: parseRoles_def)

text \<open>
  The caller's identity survives a hop: the claims, request id and idempotency key a client puts
  into the metadata are exactly those the server's interceptors read back, and a caller without a
  customer id arrives with no roles at all.
\<close>

theorem claims_propagated:
  assumes "\<forall>r \<in> set (cl_Roles (ctx_Claims ctx)). role_ok r"
  shows "claimsInterceptor (propagationInterceptor ctx []) =
    (if cl_CustomerID (ctx_Claims ctx) = '''' then ctx\<lparr>ctx_Claims := \<lparr>cl_CustomerID = '''', cl_Roles = []\<rparr>\<rparr> else ctx)"
  using assms
  by (cases ctx, cases "ctx_Claims ctx")
    (auto simp: claimsInterceptor_def propagationInterceptor_def mdFirst_def parse_joinRoles parseRoles_def [of "''''"])

theorem claims_propagated_witness:
  "claimsInterceptor (propagationInterceptor \<lparr>ctx_RequestID = ''r1'', ctx_Claims = \<lparr>cl_CustomerID = ''c1'',
     cl_Roles = [''customer'', ''admin'']\<rparr>, ctx_IdempotencyKey = ''k''\<rparr> []) =
   \<lparr>ctx_RequestID = ''r1'', ctx_Claims = \<lparr>cl_CustomerID = ''c1'', cl_Roles = [''customer'', ''admin'']\<rparr>, ctx_IdempotencyKey = ''k''\<rparr>"
proof -
  have "role_ok ''customer''" "role_ok ''admin''" by (simp_all add: role_ok_def is_space_def)
  then show ?thesis
    using claims_propagated [of "\<lparr>ctx_RequestID = ''r1'', ctx_Claims = \<lparr>cl_CustomerID = ''c1'',
      cl_Roles = [''customer'', ''admin'']\<rparr>, ctx_IdempotencyKey = ''k''\<rparr>"] by simp
qed

end
