(* ===== verification/Ledger_Client.thy ===== *)
theory Ledger_Client
  imports Grpcx Ledger_Server
begin

text \<open>
  How a service calls the ledger: the ledger's own handlers behind the resilience chain that
  \<open>grpcx.Dial\<close> builds. The clients of the account and transfer services share it.
\<close>

text \<open>
  One attempt of a call: what the network does to it, and, where the ledger executes it, the
  inputs of the execution: other clients' commits before it, the snapshot of its unlocked
  reads, its clock and identifiers (\<open>lc_more\<close>: the further rounds of \<open>PlaceHold\<close>). \<open>ttl\<close> is the
  ledger's configured hold lifetime.
\<close>

record ledger_call =
  lc_fate :: fate
  lc_first :: hold_attempt
  lc_more :: "hold_attempt list"

text \<open>A call through the chain of \<open>grpcx.Dial\<close>: every method of the ledger is retryable.\<close>

definition ledger_rpc :: "(ledger_call \<Rightarrow> ledger_db \<Rightarrow> (ledger_err + 'a) \<times> ledger_db) \<Rightarrow> ledger_call \<Rightarrow> ledger_call list
     \<Rightarrow> ledger_db \<Rightarrow> ('e goerr + 'a) \<times> ledger_db" where
  "ledger_rpc handler c cs s = retryInterceptor maxAttempts (\<lambda>c. invoke (lc_fate c) (handler c)) c cs s"

end
