(* ===== verification/Transfer_Client.thy ===== *)
theory Transfer_Client
  imports Transfer_Store Ledger_Client
begin

text \<open>
  The transfer service's ports to its neighbours: \<open>src/services/transfer/internal/adapters/ledgerclient\<close>,
  which runs the ledger's own gRPC handlers behind the resilience chain of \<open>grpcx\<close>, and
  \<open>adapters/accountclient\<close>.
\<close>

section \<open>ledgerclient\<close>

abbreviation referenceType :: string where "referenceType \<equiv> ''transfer''"

record LedgerAccountRef =
  lar_ExternalID :: string
  lar_InternalCode :: string

record LedgerPosting =
  lp_Ref :: LedgerAccountRef
  lp_Amount :: int64
  lp_Currency :: string

definition toProtoRef :: "LedgerAccountRef \<Rightarrow> AccountRefMsg" where
  "toProtoRef ref = (if lar_InternalCode ref \<noteq> '''' then InternalCodeRef (lar_InternalCode ref)
     else ExternalAccountId (lar_ExternalID ref))"

text \<open>The handlers as the server runs them; a \<open>PlaceHold\<close> that is still retrying meets its deadline.\<close>

definition exec_PlaceHold :: "duration \<Rightarrow> LedgerAccountRef \<Rightarrow> int64 \<Rightarrow> string \<Rightarrow> string \<Rightarrow> ledger_call \<Rightarrow> ledger_db
     \<Rightarrow> (ledger_err + HoldMsg) \<times> ledger_db" where
  "exec_PlaceHold ttl ref amount currency refID c s =
    (case server_PlaceHold ttl (lc_first c # lc_more c) (toProtoRef ref) \<lparr>MinorUnits = amount, MoneyCurrency = currency\<rparr>
        referenceType refID 0 s of
       (None, s') \<Rightarrow> (Inl (transport_error DeadlineExceeded ''deadline exceeded''), s')
     | (Some res, s') \<Rightarrow> (res, s'))"

definition exec_ReleaseHold :: "string \<Rightarrow> ledger_call \<Rightarrow> ledger_db \<Rightarrow> (ledger_err + HoldMsg) \<times> ledger_db" where
  "exec_ReleaseHold holdID c s = server_ReleaseHold (at_env (lc_first c)) holdID (at_others (lc_first c) s)"

definition exec_PostTransaction :: "string \<Rightarrow> string \<Rightarrow> LedgerPosting list \<Rightarrow> ledger_call \<Rightarrow> ledger_db
     \<Rightarrow> (ledger_err + JournalEntryMsg) \<times> ledger_db" where
  "exec_PostTransaction refID holdID ps c s =
    (let s0 = at_others (lc_first c) s in
     server_PostTransaction (at_env (lc_first c)) (at_snap (lc_first c) s0) referenceType refID holdID
       (map (\<lambda>p. (toProtoRef (lp_Ref p), \<lparr>MinorUnits = lp_Amount p, MoneyCurrency = lp_Currency p\<rparr>)) ps) s0)"

definition exec_GetTransactionByReference :: "string \<Rightarrow> ledger_call \<Rightarrow> ledger_db
     \<Rightarrow> (ledger_err + JournalEntryMsg) \<times> ledger_db" where
  "exec_GetTransactionByReference refID c s =
    (let s0 = at_others (lc_first c) s in (server_GetTransactionByReference s0 referenceType refID, s0))"

definition client_PlaceHold :: "duration \<Rightarrow> ledger_call \<Rightarrow> ledger_call list \<Rightarrow> LedgerAccountRef \<Rightarrow> int64 \<Rightarrow> string \<Rightarrow> string
     \<Rightarrow> ledger_db \<Rightarrow> (transfer_err + string) \<times> ledger_db" where
  "client_PlaceHold ttl c cs ref amount currency refID s =
    (case ledger_rpc (exec_PlaceHold ttl ref amount currency refID) c cs s of
       (Inl err, s') \<Rightarrow> (Inl err, s') | (Inr h, s') \<Rightarrow> (Inr (hm_Id h), s'))"

definition client_ReleaseHold :: "ledger_call \<Rightarrow> ledger_call list \<Rightarrow> string \<Rightarrow> ledger_db \<Rightarrow> (transfer_err + unit) \<times> ledger_db" where
  "client_ReleaseHold c cs holdID s = (case ledger_rpc (exec_ReleaseHold holdID) c cs s of
       (Inl err, s') \<Rightarrow> (Inl err, s') | (Inr _, s') \<Rightarrow> (Inr (), s'))"

definition client_PostTransaction :: "ledger_call \<Rightarrow> ledger_call list \<Rightarrow> string \<Rightarrow> string \<Rightarrow> LedgerPosting list \<Rightarrow> ledger_db
     \<Rightarrow> (transfer_err + unit) \<times> ledger_db" where
  "client_PostTransaction c cs refID holdID ps s = (case ledger_rpc (exec_PostTransaction refID holdID ps) c cs s of
       (Inl err, s') \<Rightarrow> (Inl err, s') | (Inr _, s') \<Rightarrow> (Inr (), s'))"

definition is_NotFound :: "transfer_err \<Rightarrow> bool" where
  "is_NotFound err \<longleftrightarrow> status_Code err = NotFound \<or> CodeOf (FromGRPC err) = CodeNotFound"

definition client_TransactionExists :: "ledger_call \<Rightarrow> ledger_call list \<Rightarrow> string \<Rightarrow> ledger_db \<Rightarrow> (transfer_err + bool) \<times> ledger_db" where
  "client_TransactionExists c cs refID s = (case ledger_rpc (exec_GetTransactionByReference refID) c cs s of
       (Inr _, s') \<Rightarrow> (Inr True, s')
     | (Inl err, s') \<Rightarrow> (if is_NotFound err then Inr False else Inl err, s'))"

section \<open>accountclient\<close>

record AccountInfo =
  ai_ID :: string
  ai_UserID :: string
  ai_Number :: string
  ai_Currency :: string
  ai_Status :: string

definition account_fromProto :: "AccountMsg \<Rightarrow> AccountInfo" where
  "account_fromProto a = \<lparr>ai_ID = am_Id a, ai_UserID = am_UserId a, ai_Number = am_Number a, ai_Currency = am_Currency a,
     ai_Status = am_Status a\<rparr>"

text \<open>
  The account service as the saga meets it: what its two reads answer at the moment they are
  asked. Its state is not the saga's.
\<close>

record account_answers =
  ans_GetAccount :: "string \<Rightarrow> transfer_err + AccountMsg"
  ans_ResolveByNumber :: "string \<Rightarrow> transfer_err + AccountMsg"

definition client_GetAccount :: "account_answers \<Rightarrow> string \<Rightarrow> transfer_err + AccountInfo" where
  "client_GetAccount api accountID = sum_bind (ans_GetAccount api accountID) (\<lambda>a. Inr (account_fromProto a))"

definition client_ResolveByNumber :: "account_answers \<Rightarrow> string \<Rightarrow> transfer_err + AccountInfo" where
  "client_ResolveByNumber api number = sum_bind (ans_ResolveByNumber api number) (\<lambda>a. Inr (account_fromProto a))"

end
