(* ===== verification/Transfer_Service.thy ===== *)
theory Transfer_Service
  imports Transfer_Client
begin

text \<open>
  The transfer saga, \<open>src/services/transfer/internal/app\<close>: \<open>service.go\<close>, \<open>recovery.go\<close> and \<open>cursor.go\<close>, on the
  pair of the transfer database and the ledger database. The functions that call the ledger
  are written in two halves, the call with the decision taken on its answer, and the
  guarded database transition that carries the decision out, because other workers may run
  between the two; their effect there is an input. Metrics and log lines are left out.
\<close>

record bank =
  sagas :: transfer_db
  ledger :: ledger_db

section \<open>service.go: views and messages\<close>

abbreviation TopicTransfersStatus :: string where "TopicTransfersStatus \<equiv> ''transfers.status''"
abbreviation ratePairUSDKZT :: string where "ratePairUSDKZT \<equiv> ''USDKZT''"
abbreviation defaultTier :: string where "defaultTier \<equiv> ''default''"

definition typeToProto :: "Type \<Rightarrow> TransferType" where
  "typeToProto t = (case t of TypeTopup \<Rightarrow> TRANSFER_TYPE_TOPUP | TypeInternalTransfer \<Rightarrow> TRANSFER_TYPE_INTERNAL
    | TypeP2P \<Rightarrow> TRANSFER_TYPE_P2P | OtherType _ \<Rightarrow> TRANSFER_TYPE_UNSPECIFIED)"

definition stateToProto :: "State \<Rightarrow> TransferState" where
  "stateToProto s = (case s of StateCreated \<Rightarrow> TRANSFER_STATE_CREATED | StateValidating \<Rightarrow> TRANSFER_STATE_VALIDATING
    | StateHeld \<Rightarrow> TRANSFER_STATE_HELD | StatePosting \<Rightarrow> TRANSFER_STATE_POSTING | StateCompleted \<Rightarrow> TRANSFER_STATE_COMPLETED
    | StateReleasing \<Rightarrow> TRANSFER_STATE_RELEASING | StateFailed \<Rightarrow> TRANSFER_STATE_FAILED
    | OtherState _ \<Rightarrow> TRANSFER_STATE_UNSPECIFIED)"

definition ToProto :: "Transfer \<Rightarrow> TransferView" where
  "ToProto t = \<lparr>tv_Id = t_ID t, tv_Type = typeToProto (t_Type t), tv_State = stateToProto (t_State t),
     tv_CustomerId = t_CustomerID t, tv_FromAccountId = t_FromAccountID t, tv_ToAccountId = t_ToAccountID t,
     tv_Amount = \<lparr>MinorUnits = t_Amount t, MoneyCurrency = t_Currency t\<rparr>,
     tv_CounterAmount = (case (t_CounterAmount t, t_CounterCurrency t) of
         (Some a, Some c) \<Rightarrow> Some \<lparr>MinorUnits = a, MoneyCurrency = c\<rparr> | _ \<Rightarrow> None),
     tv_AppliedRate = (case t_RateMicros t of Some r \<Rightarrow> FormatRate r | None \<Rightarrow> ''''),
     tv_Reason = text_or_empty (t_Reason t), tv_CreatedAt = t_CreatedAt t, tv_UpdatedAt = t_UpdatedAt t\<rparr>"

definition insertStatusEvent :: "tx_env \<Rightarrow> Transfer \<Rightarrow> transfer_db \<Rightarrow> transfer_err + transfer_db" where
  "insertStatusEvent env t s =
    (let view = ToProto t;
         payload = (if t_State t = StateCompleted then TransferCompleted view (tv_AppliedRate view)
                    else TransferFailed view (text_or_empty (t_Reason t)))
     in sum_bind (NewProtoMessage env 0 TopicTransfersStatus (t_ID t) (env_request_id env) payload) (\<lambda>msg.
          transfer_InsertOutbox env msg s))"

section \<open>service.go: transition\<close>

type_synonym detail = "(string \<times> detail_value) list option"

definition transitionTx :: "tx_env \<Rightarrow> Transfer \<Rightarrow> State \<Rightarrow> detail \<Rightarrow> transfer_db \<Rightarrow> transfer_err + unit \<times> transfer_db" where
  "transitionTx env t prev detail s =
    sum_bind (tx_UpdateTransferGuarded env t prev s) (\<lambda>s1.
    sum_bind (tx_AppendEvent env (t_ID t) prev (t_State t) detail s1) (\<lambda>s2.
      if IsTerminal (t_State t) then sum_bind (insertStatusEvent env t s2) (\<lambda>s3. Inr ((), s3))
      else Inr ((), s2)))"

definition transition :: "tx_env \<Rightarrow> Transfer \<Rightarrow> SagaEvent \<Rightarrow> (Transfer \<Rightarrow> Transfer) \<Rightarrow> detail \<Rightarrow> transfer_db
     \<Rightarrow> (transfer_err + unit) \<times> transfer_db" where
  "transition env t event mutate detail s = (case Next (t_State t) event of
      Inl err \<Rightarrow> (Inl (app_Wrap CodeInternal
        (''illegal transition '' @ state_text (t_State t) @ '' + '' @ event_text event) err), s)
    | Inr nxt \<Rightarrow> transfer_WithinTx env (transitionTx env ((mutate t)\<lparr>t_State := nxt\<rparr>) (t_State t) detail) s)"

section \<open>service.go: postings\<close>

definition cashInCode :: "string \<Rightarrow> string" where
  "cashInCode currency = (if currency = USD then ''cash_in_usd'' else ''cash_in_kzt'')"

definition fxPositionCode :: "string \<Rightarrow> string" where
  "fxPositionCode currency = (if currency = USD then ''fx_position_usd'' else ''fx_position_kzt'')"

definition internalRef :: "string \<Rightarrow> LedgerAccountRef" where
  "internalRef code = \<lparr>lar_ExternalID = '''', lar_InternalCode = code\<rparr>"

definition externalRef :: "string \<Rightarrow> LedgerAccountRef" where
  "externalRef ident = \<lparr>lar_ExternalID = ident, lar_InternalCode = ''''\<rparr>"

definition sourceRef :: "Transfer \<Rightarrow> LedgerAccountRef" where
  "sourceRef t = (if t_Type t = TypeTopup then internalRef (cashInCode (t_Currency t)) else externalRef (t_FromAccountID t))"

text \<open>
  A cross-currency transfer dereferences \<open>CounterCurrency\<close>, which \<open>validate\<close> sets together with
  \<open>CounterAmount\<close>; a nil pointer there would panic.
\<close>

definition buildPostings :: "Transfer \<Rightarrow> LedgerPosting list" where
  "buildPostings t =
    (let src = sourceRef t; dst = externalRef (t_ToAccountID t) in
     case t_CounterAmount t of
       None \<Rightarrow> [\<lparr>lp_Ref = src, lp_Amount = - t_Amount t, lp_Currency = t_Currency t\<rparr>,
                \<lparr>lp_Ref = dst, lp_Amount = t_Amount t, lp_Currency = t_Currency t\<rparr>]
     | Some counter \<Rightarrow>
         let cc = text_or_empty (t_CounterCurrency t) in
         [\<lparr>lp_Ref = src, lp_Amount = - t_Amount t, lp_Currency = t_Currency t\<rparr>,
          \<lparr>lp_Ref = internalRef (fxPositionCode (t_Currency t)), lp_Amount = t_Amount t, lp_Currency = t_Currency t\<rparr>,
          \<lparr>lp_Ref = internalRef (fxPositionCode cc), lp_Amount = - counter, lp_Currency = cc\<rparr>,
          \<lparr>lp_Ref = dst, lp_Amount = counter, lp_Currency = cc\<rparr>])"

section \<open>service.go: decisions\<close>

text \<open>
  What a handler does next: fire an event (the flag says whether \<open>ErrStateRaced\<close> is swallowed),
  park, or return an error.
\<close>

datatype decision =
    Fire SagaEvent "Transfer \<Rightarrow> Transfer" detail bool
  | Park
  | Quit transfer_err

definition failWith :: "string \<Rightarrow> decision" where
  "failWith reason = Fire EvValidationFailed (\<lambda>t. t\<lparr>t_Reason := Some reason\<rparr>) (Some [(''reason'', DText reason)]) False"

definition loadAccounts :: "account_answers \<Rightarrow> Transfer \<Rightarrow> transfer_err + AccountInfo \<times> AccountInfo" where
  "loadAccounts api t =
    (let none = \<lparr>ai_ID = '''', ai_UserID = '''', ai_Number = '''', ai_Currency = '''', ai_Status = ''''\<rparr> in
     case t_Type t of
       TypeTopup \<Rightarrow> sum_bind (client_GetAccount api (t_ToAccountID t)) (\<lambda>to. Inr (none, to))
     | TypeInternalTransfer \<Rightarrow> sum_bind (client_GetAccount api (t_FromAccountID t)) (\<lambda>from.
         sum_bind (client_GetAccount api (t_ToAccountID t)) (\<lambda>to. Inr (from, to)))
     | TypeP2P \<Rightarrow> sum_bind (client_GetAccount api (t_FromAccountID t)) (\<lambda>from.
         sum_bind (client_ResolveByNumber api (t_ToAccountNumber t)) (\<lambda>to. Inr (from, to)))
     | OtherType _ \<Rightarrow> Inr (none, none))"

text \<open>The currency pair and rate of a cross-currency transfer: counter amount and applied rate.\<close>

definition lockRate :: "Transfer \<Rightarrow> AccountInfo \<Rightarrow> AccountInfo \<Rightarrow> Rate \<Rightarrow> decision + int64 \<times> int64" where
  "lockRate t from to rate =
    (let finish = (\<lambda>counter applied. case counter of
           Inl _ \<Rightarrow> Inl (failWith ''CONVERSION_FAILED'')
         | Inr c \<Rightarrow> if c \<le>s 0 then Inl (failWith ''AMOUNT_TOO_SMALL'') else Inr (c, applied))
     in if ai_Currency from = USD \<and> ai_Currency to = KZT
        then finish (Convert (t_Amount t) (rate_BuyMicros rate)) (rate_BuyMicros rate)
        else if ai_Currency from = KZT \<and> ai_Currency to = USD
        then finish (ConvertInverse (t_Amount t) (rate_SellMicros rate)) (rate_SellMicros rate)
        else Inl (failWith ''UNSUPPORTED_CURRENCY_PAIR''))"

definition lockFX :: "time \<Rightarrow> Transfer \<Rightarrow> AccountInfo \<Rightarrow> AccountInfo \<Rightarrow> transfer_db
     \<Rightarrow> decision + (int64 \<times> string \<times> string \<times> int64) option" where
  "lockFX now t from to db =
    (if t_Type t \<noteq> TypeTopup \<and> ai_Currency from \<noteq> ai_Currency to
     then case store_GetLatestRate db ratePairUSDKZT now of
         Inl err \<Rightarrow> Inl (if errors_Is err ErrTransferNotFound then failWith ''RATE_UNAVAILABLE'' else Quit err)
       | Inr rate \<Rightarrow> sum_bind (lockRate t from to rate) (\<lambda>(counter, applied).
           Inr (Some (counter, ai_Currency to, rate_Pair rate, applied)))
     else Inr None)"

definition startOfDay :: "time \<Rightarrow> time" where
  "startOfDay now = now - now mod (24 * 60 * 60 * 1000000000)"

definition checkDailyLimits :: "time \<Rightarrow> Transfer \<Rightarrow> transfer_db \<Rightarrow> decision + unit" where
  "checkDailyLimits now t db =
    (if t_Type t = TypeTopup then Inr ()
     else case store_GetLimit db defaultTier (t_Currency t) of
         Inl err \<Rightarrow> Inl (Quit err)
       | Inr (perTx, daily) \<Rightarrow> (case store_SumDailyOutgoing db (t_CustomerID t) (t_Currency t) (startOfDay now) of
           Inl err \<Rightarrow> Inl (Quit err)
         | Inr used \<Rightarrow> (case CheckLimits (t_Amount t) perTx (used - t_Amount t) daily of
             Inl _ \<Rightarrow> Inl (failWith ''LIMIT_EXCEEDED'') | Inr _ \<Rightarrow> Inr ())))"

definition validated :: "string \<Rightarrow> (int64 \<times> string \<times> string \<times> int64) option \<Rightarrow> decision" where
  "validated resolvedTo fx = Fire EvValidated (\<lambda>t. t\<lparr>t_ToAccountID := resolvedTo,
       t_CounterAmount := map_option (\<lambda>(c, _, _, _). c) fx, t_CounterCurrency := map_option (\<lambda>(_, cc, _, _). cc) fx,
       t_RateMicros := map_option (\<lambda>(_, _, _, r). r) fx, t_RatePair := map_option (\<lambda>(_, _, p, _). p) fx\<rparr>)
     (Some [(''to_account_id'', DText resolvedTo)]) True"

definition decided :: "decision + decision \<Rightarrow> decision" where
  "decided r = (case r of Inl d \<Rightarrow> d | Inr d \<Rightarrow> d)"

definition validate :: "time \<Rightarrow> account_answers \<Rightarrow> Transfer \<Rightarrow> transfer_db \<Rightarrow> decision" where
  "validate now api t db = (case loadAccounts api t of
      Inl err \<Rightarrow>
        (let code = CodeOf (FromGRPC err) in
         if code = CodeUpstreamUnavailable then Park
         else if code = CodeNotFound then failWith ''ACCOUNT_NOT_FOUND''
         else if code = CodeForbidden then failWith ''NOT_ACCOUNT_OWNER''
         else Quit err)
    | Inr (from, to) \<Rightarrow>
        if t_Type t \<noteq> TypeTopup \<and> ai_UserID from \<noteq> t_CustomerID t then failWith ''NOT_ACCOUNT_OWNER''
        else if (t_Type t = TypeTopup \<or> t_Type t = TypeInternalTransfer) \<and> ai_UserID to \<noteq> t_CustomerID t
        then failWith ''NOT_ACCOUNT_OWNER''
        else if t_Type t \<noteq> TypeTopup \<and> ai_Status from \<noteq> ''ACTIVE'' then failWith ''ACCOUNT_FROZEN''
        else if ai_Status to \<noteq> ''ACTIVE'' then failWith ''ACCOUNT_FROZEN''
        else if t_Type t = TypeP2P \<and> ai_ID from = ai_ID to then failWith ''SAME_ACCOUNT''
        else if t_Currency t \<noteq> (if t_Type t = TypeTopup then ai_Currency to else ai_Currency from)
        then failWith ''CURRENCY_MISMATCH''
        else decided (sum_bind (lockFX now t from to db) (\<lambda>fx.
          sum_bind (checkDailyLimits now t db) (\<lambda>_. Inr (validated (ai_ID to) fx)))))"

text \<open>The ledger calls. A definitive refusal is recorded with its code as the reason.\<close>

definition refused :: "SagaEvent \<Rightarrow> transfer_err \<Rightarrow> decision" where
  "refused event err = (let reason = CodeOf (FromGRPC err) in
     Fire event (\<lambda>t. t\<lparr>t_Reason := Some reason\<rparr>) (Some [(''reason'', DText reason)]) True)"

definition holdCall :: "duration \<Rightarrow> ledger_call \<Rightarrow> ledger_call list \<Rightarrow> Transfer \<Rightarrow> ledger_db \<Rightarrow> decision \<times> ledger_db" where
  "holdCall ttl c cs t l = (case t_HoldID t of
      Some _ \<Rightarrow> (Fire EvPostingStarted (\<lambda>t. t) None True, l)
    | None \<Rightarrow> (case client_PlaceHold ttl c cs (sourceRef t) (t_Amount t) (t_Currency t) (t_ID t) l of
        (Inl err, l') \<Rightarrow> (if Ambiguous err then Park else refused EvHoldFailed err, l')
      | (Inr holdID, l') \<Rightarrow>
          (Fire EvPostingStarted (\<lambda>t. t\<lparr>t_HoldID := Some holdID\<rparr>) (Some [(''hold_id'', DText holdID)]) True, l')))"

definition postCall :: "ledger_call \<Rightarrow> ledger_call list \<Rightarrow> Transfer \<Rightarrow> ledger_db \<Rightarrow> decision \<times> ledger_db" where
  "postCall c cs t l = (case client_PostTransaction c cs (t_ID t) (text_or_empty (t_HoldID t)) (buildPostings t) l of
      (Inl err, l') \<Rightarrow> (if Ambiguous err then Park else refused EvPostFailed err, l')
    | (Inr _, l') \<Rightarrow> (Fire EvPosted (\<lambda>t. t) None True, l'))"

definition releaseCall :: "ledger_call \<Rightarrow> ledger_call list \<Rightarrow> Transfer \<Rightarrow> ledger_db \<Rightarrow> decision \<times> ledger_db" where
  "releaseCall c cs t l = (case t_HoldID t of
      None \<Rightarrow> (Fire EvReleased (\<lambda>t. t) None True, l)
    | Some holdID \<Rightarrow> (case client_ReleaseHold c cs holdID l of
        (Inr _, l') \<Rightarrow> (Fire EvReleased (\<lambda>t. t) None True, l')
      | (Inl err, l') \<Rightarrow>
          (if Ambiguous err then Park
           else if CodeOf (FromGRPC err) \<noteq> CodeNotFound then Quit err
           else Fire EvReleased (\<lambda>t. t) None True, l')))"

section \<open>service.go: Drive\<close>

text \<open>
  The inputs of one turn of the loop: what other workers do before the load, between the load
  and the call, and between the call and the transition; whether the two plain reads reach
  the database; the clock, the account service's answers, the ledger call and the
  transaction.
\<close>

record drive_env =
  de_before :: "bank \<Rightarrow> bank"
  de_load :: "infra_err option"
  de_between :: "bank \<Rightarrow> bank"
  de_now :: time
  de_accounts :: account_answers
  de_call :: ledger_call
  de_retries :: "ledger_call list"
  de_after :: "bank \<Rightarrow> bank"
  de_tx :: tx_env
  de_reload :: "infra_err option"

definition decide :: "duration \<Rightarrow> drive_env \<Rightarrow> Transfer \<Rightarrow> bank \<Rightarrow> decision \<times> bank" where
  "decide ttl env t w =
    (let onLedger = (\<lambda>(d, l). (d, w\<lparr>ledger := l\<rparr>)) in
     case t_State t of
       StateCreated \<Rightarrow> (Fire EvStart (\<lambda>t. t) None True, w)
     | StateValidating \<Rightarrow> (validate (de_now env) (de_accounts env) t (sagas w), w)
     | StateHeld \<Rightarrow> onLedger (holdCall ttl (de_call env) (de_retries env) t (ledger w))
     | StatePosting \<Rightarrow> onLedger (postCall (de_call env) (de_retries env) t (ledger w))
     | StateReleasing \<Rightarrow> onLedger (releaseCall (de_call env) (de_retries env) t (ledger w))
     | st \<Rightarrow> (Quit (app_New CodeInternal (''unknown state '' @ state_text st)), w))"

text \<open>The second half of a handler: \<open>Inr True\<close> is parked, \<open>Inr False\<close> goes round the loop again.\<close>

definition settle :: "tx_env \<Rightarrow> Transfer \<Rightarrow> decision \<Rightarrow> bank \<Rightarrow> (transfer_err + bool) \<times> bank" where
  "settle env t d w = (case d of
      Park \<Rightarrow> (Inr True, w)
    | Quit err \<Rightarrow> (Inl err, w)
    | Fire event mutate detail swallow \<Rightarrow> (case transition env t event mutate detail (sagas w) of
        (Inr _, db) \<Rightarrow> (Inr False, w\<lparr>sagas := db\<rparr>)
      | (Inl err, db) \<Rightarrow> (if swallow \<and> errors_Is err ErrStateRaced then Inr False else Inl err, w\<lparr>sagas := db\<rparr>)))"

definition plainRead :: "infra_err option \<Rightarrow> transfer_err + 'a \<Rightarrow> transfer_err + 'a" where
  "plainRead failure res = (case failure of Some err \<Rightarrow> Inl (infra_goerr err) | None \<Rightarrow> res)"

text \<open>The loop; \<open>None\<close> is a run that is not over when the listed turns are used up.\<close>

fun Drive :: "duration \<Rightarrow> drive_env list \<Rightarrow> string \<Rightarrow> bank \<Rightarrow> (transfer_err + Transfer) option \<times> bank" where
  "Drive ttl [] transferID w = (None, w)"
| "Drive ttl (env # envs) transferID w =
    (let w0 = de_before env w in
     case plainRead (de_load env) (store_GetTransfer (sagas w0) transferID) of
       Inl err \<Rightarrow> (Some (Inl err), w0)
     | Inr t \<Rightarrow>
         if IsTerminal (t_State t) then (Some (Inr t), w0)
         else (case decide ttl env t (de_between env w0) of
           (d, w1) \<Rightarrow> (case settle (de_tx env) t d (de_after env w1) of
             (Inl err, w2) \<Rightarrow> (Some (Inl err), w2)
           | (Inr True, w2) \<Rightarrow> (Some (plainRead (de_reload env) (store_GetTransfer (sagas w2) transferID)), w2)
           | (Inr False, w2) \<Rightarrow> Drive ttl envs transferID w2)))"

section \<open>service.go: CreateTransfer\<close>

record CreateCmd =
  cmd_CustomerID :: string
  cmd_IdempotencyKey :: string
  cmd_Type :: Type
  cmd_FromAccountID :: string
  cmd_ToAccountID :: string
  cmd_ToAccountNumber :: string
  cmd_Amount :: int64
  cmd_Currency :: string

definition requestText :: "CreateCmd \<Rightarrow> string" where
  "requestText c = type_text (cmd_Type c) @ ''|'' @ cmd_FromAccountID c @ ''|'' @ cmd_ToAccountID c @ ''|''
     @ cmd_ToAccountNumber c @ ''|'' @ fmt_d (sint (cmd_Amount c)) @ ''|'' @ cmd_Currency c"

text \<open>\<open>sha256hex\<close> is the hex digest of the standard library, a function of its input.\<close>

definition createTx :: "(string \<Rightarrow> string) \<Rightarrow> tx_env \<Rightarrow> string \<Rightarrow> CreateCmd \<Rightarrow> transfer_db
     \<Rightarrow> transfer_err + string \<times> transfer_db" where
  "createTx sha256hex env transferID cmd s =
    (let requestHash = sha256hex (requestText cmd) in
     case tx_TryInsertIdempotencyKey env (cmd_CustomerID cmd) (cmd_IdempotencyKey cmd) transferID requestHash s of
       (False, s1) \<Rightarrow> sum_bind (tx_GetIdempotencyKey s1 (cmd_CustomerID cmd) (cmd_IdempotencyKey cmd)) (\<lambda>(prevID, prevHash).
         if prevHash \<noteq> requestHash
         then Inl (app_New CodeIdempotencyConflict ''idempotency key was already used with a different request'')
         else Inr (prevID, s1))
     | (True, s1) \<Rightarrow>
         let t = \<lparr>t_ID = transferID, t_Type = cmd_Type cmd, t_State = StateCreated, t_CustomerID = cmd_CustomerID cmd,
               t_FromAccountID = cmd_FromAccountID cmd, t_ToAccountID = cmd_ToAccountID cmd,
               t_ToAccountNumber = cmd_ToAccountNumber cmd, t_Amount = cmd_Amount cmd, t_Currency = cmd_Currency cmd,
               t_CounterAmount = None, t_CounterCurrency = None, t_RateMicros = None, t_RatePair = None, t_Reason = None,
               t_HoldID = None, t_RecoveryAttempts = 0, t_CreatedAt = zeroTime, t_UpdatedAt = zeroTime\<rparr>
         in sum_bind (tx_InsertTransfer env t s1) (\<lambda>s2.
            sum_bind (tx_AppendEvent env transferID StateCreated StateCreated
                (Some [(''idempotency_key'', DText (cmd_IdempotencyKey cmd))]) s2) (\<lambda>s3. Inr ('''', s3))))"

text \<open>The checks and the transaction; the result is the id of the transfer to drive and whether it existed.\<close>

definition createOrFind :: "(string \<Rightarrow> string) \<Rightarrow> tx_env \<Rightarrow> CreateCmd \<Rightarrow> transfer_db
     \<Rightarrow> (transfer_err + string \<times> bool) \<times> transfer_db" where
  "createOrFind sha256hex env cmd s =
    (if cmd_CustomerID cmd = '''' then (Inl (app_New CodeUnauthenticated ''no caller identity''), s)
     else if cmd_IdempotencyKey cmd = '''' then (Inl (app_New CodeIdempotencyKeyRequired ''Idempotency-Key is required''), s)
     else case ValidateSpec (cmd_Type cmd) (cmd_FromAccountID cmd) (cmd_ToAccountID cmd) (cmd_ToAccountNumber cmd)
         (cmd_Amount cmd) (cmd_Currency cmd) of
         Inl err \<Rightarrow> (Inl (app_Wrap CodeInvalidArgument (err_Error transfer_text err) err), s)
       | Inr _ \<Rightarrow> (case uuid_NewV7 env 0 of
           Inl err \<Rightarrow> (Inl (app_Wrap CodeInternal ''uuid'' err), s)
         | Inr transferID \<Rightarrow> (case transfer_WithinTx env (createTx sha256hex env transferID cmd) s of
             (Inl err, s') \<Rightarrow> (Inl err, s')
           | (Inr existingID, s') \<Rightarrow>
               (Inr (if existingID \<noteq> '''' then (existingID, True) else (transferID, False)), s'))))"

definition CreateTransfer :: "(string \<Rightarrow> string) \<Rightarrow> duration \<Rightarrow> tx_env \<Rightarrow> infra_err option \<Rightarrow> drive_env list \<Rightarrow> CreateCmd \<Rightarrow> bank
     \<Rightarrow> (transfer_err + Transfer) option \<times> bank" where
  "CreateTransfer sha256hex ttl env load envs cmd w = (case createOrFind sha256hex env cmd (sagas w) of
      (Inl err, db) \<Rightarrow> (Some (Inl err), w\<lparr>sagas := db\<rparr>)
    | (Inr (ident, existed), db) \<Rightarrow>
        let w1 = w\<lparr>sagas := db\<rparr> in
        if existed then (case plainRead load (store_GetTransfer db ident) of
            Inl err \<Rightarrow> (Some (Inl err), w1)
          | Inr t \<Rightarrow> if IsTerminal (t_State t) then (Some (Inr t), w1) else Drive ttl envs ident w1)
        else Drive ttl envs ident w1)"

section \<open>service.go and cursor.go: reads and cleanup\<close>

definition GetTransfer :: "Claims \<Rightarrow> transfer_db \<Rightarrow> string \<Rightarrow> transfer_err + Transfer" where
  "GetTransfer caller s ident = (case store_GetTransfer s ident of
      Inl err \<Rightarrow> Inl (if errors_Is err ErrTransferNotFound then app_New CodeNotFound ''transfer not found'' else err)
    | Inr t \<Rightarrow> if \<not> IsStaff caller \<and> t_CustomerID t \<noteq> cl_CustomerID caller
        then Inl (app_New CodeForbidden ''not your transfer'') else Inr t)"

definition transfer_encodeCursor :: "time \<Rightarrow> string \<Rightarrow> string" where
  "transfer_encodeCursor t ident = EncodeToString (FormatInt (sint (word_of_int (t div 1000) :: int64)) @ ''|'' @ ident)"

definition transfer_decodeCursor :: "string \<Rightarrow> transfer_err + time \<times> string" where
  "transfer_decodeCursor cur = (case DecodeString cur of
      None \<Rightarrow> Inl (Opaque ''illegal base64 data'')
    | Some raw \<Rightarrow> (case SplitN2 CHR ''|'' raw of
        [micros, ident] \<Rightarrow> (case ParseInt micros of
            Inl _ \<Rightarrow> Inl (Opaque ''strconv.ParseInt'')
          | Inr m \<Rightarrow> Inr (m * 1000, ident))
      | _ \<Rightarrow> Inl (Opaque ''bad cursor'')))"

definition transferPageSize :: "int32 \<Rightarrow> int32" where
  "transferPageSize pageSize = (let p = (if pageSize \<le>s 0 then 20 else pageSize) in if 100 <s p then 100 else p)"

definition ListTransfers :: "time \<Rightarrow> Claims \<Rightarrow> transfer_db \<Rightarrow> int32 \<Rightarrow> string \<Rightarrow> transfer_err + Transfer list \<times> string" where
  "ListTransfers now caller s pageSize cursor =
    (if cl_CustomerID caller = '''' then Inl (app_New CodeUnauthenticated ''no caller identity'')
     else
       let size = transferPageSize pageSize in
       sum_bind (if cursor = '''' then Inr (now + 60 * 60 * 1000000000, uuidMax)
           else map_left (app_Wrap CodeInvalidArgument ''malformed cursor'') (transfer_decodeCursor cursor)) (\<lambda>(curTime, curID).
         let rows = store_ListTransfersByCustomer s (cl_CustomerID caller) (size + 1) curTime curID
         in if nat (sint size) < length rows
            then let page = take (nat (sint size)) rows
              in Inr (page, transfer_encodeCursor (t_CreatedAt (last page)) (t_ID (last page)))
            else Inr (rows, '''')))"

definition GetRates :: "time \<Rightarrow> transfer_db \<Rightarrow> Rate list" where
  "GetRates now s = q_ListLatestRates s now"

definition CleanupIdempotencyKeys :: "time \<Rightarrow> transfer_db \<Rightarrow> transfer_db" where
  "CleanupIdempotencyKeys now s = snd (q_DeleteExpiredIdempotencyKeys (now - 24 * 60 * 60 * 1000000000) s)"

section \<open>recovery.go\<close>

text \<open>\<open>NewRecovery\<close>: the interval, the staleness and the number of attempts.\<close>

definition NewRecovery :: "duration \<Rightarrow> duration \<Rightarrow> duration \<times> duration \<times> int32" where
  "NewRecovery interval staleAfter =
    (if interval \<le>s 0 then 5 * time_Second else interval, if staleAfter \<le>s 0 then 15 * time_Second else staleAfter, 5)"

text \<open>
  The inputs of one recovery: a turn like those of \<open>Drive\<close> for the load, the probe of the ledger
  and the transition, and the turns of the \<open>Drive\<close> that follows.
\<close>

record recover_env =
  re_turn :: drive_env
  re_drive :: "drive_env list"

definition probe :: "drive_env \<Rightarrow> Transfer \<Rightarrow> bank \<Rightarrow> bool \<times> bank" where
  "probe env t w =
    (if t_State t = StatePosting
     then case client_TransactionExists (de_call env) (de_retries env) (t_ID t) (ledger w) of
         (Inr True, l) \<Rightarrow> (True, w\<lparr>ledger := l\<rparr>) | (_, l) \<Rightarrow> (False, w\<lparr>ledger := l\<rparr>)
     else (False, w))"

definition recoverDecision :: "int32 \<Rightarrow> bool \<Rightarrow> Transfer \<Rightarrow> decision option" where
  "recoverDecision budget exists t =
    (if exists then Some (Fire EvPosted (\<lambda>t. t) (Some [(''resolved_by'', DText ''recovery'')]) True)
     else if budget <s t_RecoveryAttempts t \<and> t_State t \<noteq> StateReleasing
     then Some (Fire EvRecoveryExhausted (\<lambda>t. t\<lparr>t_Reason := Some ''recovery_exhausted''\<rparr>)
       (Some [(''attempts'', DInt (sint (t_RecoveryAttempts t)))]) True)
     else None)"

definition recoverOne :: "duration \<Rightarrow> int32 \<Rightarrow> recover_env \<Rightarrow> string \<Rightarrow> bank \<Rightarrow> string option \<times> bank" where
  "recoverOne ttl budget renv ident w =
    (let env = re_turn renv; w0 = de_before env w in
     case plainRead (de_load env) (store_GetTransfer (sagas w0) ident) of
       Inl err \<Rightarrow> (Some ''load_failed'', w0)
     | Inr t \<Rightarrow> (case probe env t (de_between env w0) of (exists, w1) \<Rightarrow>
         (case recoverDecision budget exists t of
            Some d \<Rightarrow> (case settle (de_tx env) t d (de_after env w1) of
                (Inl err, w2) \<Rightarrow> (Some ''transition_failed'', w2)
              | (Inr _, w2) \<Rightarrow>
                  if exists then (Some ''completed_entry_found'', w2)
                  else (case Drive ttl (re_drive renv) ident w2 of
                      (None, w3) \<Rightarrow> (None, w3)
                    | (Some (Inl err), w3) \<Rightarrow> (Some ''release_pending'', w3)
                    | (Some (Inr _), w3) \<Rightarrow> (Some ''failed_exhausted'', w3)))
          | None \<Rightarrow> (case Drive ttl (re_drive renv) ident w1 of
                (None, w3) \<Rightarrow> (None, w3)
              | (Some (Inl err), w3) \<Rightarrow> (Some ''drive_failed'', w3)
              | (Some (Inr final), w3) \<Rightarrow> (Some (''state_'' @ state_text (t_State final)), w3)))))"

definition RunOnce :: "duration \<Rightarrow> int32 \<Rightarrow> duration \<Rightarrow> tx_env \<Rightarrow> string list \<Rightarrow> (string \<Rightarrow> recover_env) \<Rightarrow> bank \<Rightarrow> bank" where
  "RunOnce ttl budget staleAfter env locked renvs w =
    (case store_ClaimStuck env locked [StateHeld, StatePosting, StateReleasing] staleAfter 10 (sagas w) of
       (Inl err, db) \<Rightarrow> w\<lparr>sagas := db\<rparr>
     | (Inr ids, db) \<Rightarrow> fold (\<lambda>ident w. snd (recoverOne ttl budget (renvs ident) ident w)) ids (w\<lparr>sagas := db\<rparr>))"

section \<open>grpc/server.go\<close>

definition typeFromProto :: "TransferType \<Rightarrow> Type" where
  "typeFromProto t = (case t of TRANSFER_TYPE_TOPUP \<Rightarrow> TypeTopup | TRANSFER_TYPE_INTERNAL \<Rightarrow> TypeInternalTransfer
    | TRANSFER_TYPE_P2P \<Rightarrow> TypeP2P | TRANSFER_TYPE_UNSPECIFIED \<Rightarrow> OtherType '''')"

definition transfer_edge :: "('a \<Rightarrow> 'b) \<Rightarrow> transfer_err + 'a \<Rightarrow> transfer_err + 'b" where
  "transfer_edge f res = (case res of Inl err \<Rightarrow> Inl (ToGRPC err) | Inr x \<Rightarrow> Inr (f x))"

record CreateTransferRequest =
  ctr_Type :: TransferType
  ctr_FromAccountId :: string
  ctr_ToAccountId :: string
  ctr_ToAccountNumber :: string
  ctr_Amount :: Money

definition server_CreateTransfer :: "(string \<Rightarrow> string) \<Rightarrow> duration \<Rightarrow> tx_env \<Rightarrow> infra_err option \<Rightarrow> drive_env list \<Rightarrow> call_ctx
     \<Rightarrow> CreateTransferRequest \<Rightarrow> bank \<Rightarrow> (transfer_err + TransferView) option \<times> bank" where
  "server_CreateTransfer sha256hex ttl env load envs ctx req w =
    (let cmd = \<lparr>cmd_CustomerID = cl_CustomerID (ctx_Claims ctx), cmd_IdempotencyKey = ctx_IdempotencyKey ctx,
           cmd_Type = typeFromProto (ctr_Type req), cmd_FromAccountID = ctr_FromAccountId req,
           cmd_ToAccountID = ctr_ToAccountId req, cmd_ToAccountNumber = ctr_ToAccountNumber req,
           cmd_Amount = MinorUnits (ctr_Amount req), cmd_Currency = MoneyCurrency (ctr_Amount req)\<rparr>
     in case CreateTransfer sha256hex ttl env load envs cmd w of
          (res, w') \<Rightarrow> (map_option (transfer_edge ToProto) res, w'))"

definition server_GetTransfer :: "call_ctx \<Rightarrow> transfer_db \<Rightarrow> string \<Rightarrow> transfer_err + TransferView" where
  "server_GetTransfer ctx s ident = transfer_edge ToProto (GetTransfer (ctx_Claims ctx) s ident)"

definition server_ListTransfers :: "time \<Rightarrow> call_ctx \<Rightarrow> transfer_db \<Rightarrow> int32 \<Rightarrow> string \<Rightarrow> transfer_err + TransferView list \<times> string" where
  "server_ListTransfers now ctx s pageSize cursor =
    transfer_edge (\<lambda>(rows, nxt). (map ToProto rows, nxt)) (ListTransfers now (ctx_Claims ctx) s pageSize cursor)"

definition server_GetRates :: "time \<Rightarrow> transfer_db \<Rightarrow> (string \<times> string \<times> string \<times> time) list" where
  "server_GetRates now s = map (\<lambda>r. (rate_Pair r, FormatRate (rate_BuyMicros r), FormatRate (rate_SellMicros r), rate_ValidFrom r))
     (GetRates now s)"

end
