(* ===== verification/Saga.thy ===== *)
theory Saga
  imports Transfer_Service
begin

text \<open>
  The saga as a protocol between any number of workers (request handlers and recovery
  workers, on any number of instances), the transfer database and the ledger. A worker
  loads a transfer, calls the ledger, and fires a transition on the row it loaded; between
  any two of these anything else may happen, and a worker may stop for good. What a worker
  learned is never forgotten here, so a stale worker may act at any later time, and more
  than once.

  The protocol is the specification of the saga: a worker may give up at any moment, but
  it may only report a hold, a posting or a release that the ledger answered. The proofs
  show by rule induction that a terminal state is then always the truth about the money.
\<close>

section \<open>The ledger's side\<close>

definition recorded :: "ledger_db \<Rightarrow> string \<Rightarrow> bool" where
  "recorded l k \<longleftrightarrow> (referenceType, k) \<in> (\<lambda>e. (je_ReferenceType e, je_ReferenceID e)) ` set (journal_entries l)"

definition has_hold :: "ledger_db \<Rightarrow> string \<Rightarrow> string \<Rightarrow> (string \<Rightarrow> bool) \<Rightarrow> bool" where
  "has_hold l k h P \<longleftrightarrow> (\<exists>x \<in> set (holds l). hold_ID x = h \<and> hold_ReferenceType x = referenceType \<and> hold_ReferenceID x = k
     \<and> P (hold_Status x))"

abbreviation transfer_hold :: "ledger_db \<Rightarrow> string \<Rightarrow> string \<Rightarrow> bool" where "transfer_hold l k h \<equiv> has_hold l k h (\<lambda>_. True)"
abbreviation captured :: "ledger_db \<Rightarrow> string \<Rightarrow> string \<Rightarrow> bool" where "captured l k h \<equiv> has_hold l k h (\<lambda>s. s = HoldCaptured)"
abbreviation released :: "ledger_db \<Rightarrow> string \<Rightarrow> string \<Rightarrow> bool" where "released l k h \<equiv> has_hold l k h (\<lambda>s. s = HoldReleased)"

text \<open>The entry of a reference exists and has exactly the requested legs.\<close>

definition entry_for :: "ledger_db \<Rightarrow> string \<Rightarrow> PostingSpec list \<Rightarrow> bool" where
  "entry_for l k specs \<longleftrightarrow> (\<exists>v ps. stored_entry l referenceType k v \<and> map_err (resolveLeg l) specs = Inr ps \<and> samePayload v ps)"

text \<open>A snapshot an unlocked read may see, and identifiers as \<open>uuid.NewV7\<close> makes them.\<close>

definition committed_before :: "ledger_db \<Rightarrow> ledger_db \<Rightarrow> bool" where
  "committed_before snap l \<longleftrightarrow> ledger_reachable snap \<and> ledger_step\<^sup>*\<^sup>* snap l"

definition uuids_ok :: "tx_env \<Rightarrow> bool" where
  "uuids_ok env \<longleftrightarrow> (\<forall>i. env_uuid env i \<noteq> Some '''')"

text \<open>The ledger's other clients: account opening, the sweeper, the relay.\<close>

inductive client_step :: "ledger_db \<Rightarrow> ledger_db \<Rightarrow> bool" where
  account: "CreateAccount env ext cur l = (res, l') \<Longrightarrow> client_step l l'"
| sweeper: "ReleaseHold env holdID l = (res, l') \<Longrightarrow> client_step l l'"
| relay: "relayOnce env locked produce (outbox l, log) = (res :: ledger_err + nat, t, log') \<Longrightarrow> client_step l (l\<lparr>outbox := t\<rparr>)"

lemma committed_beforeD:
  assumes "committed_before snap l"
  shows "ledger_inv snap" "ledger_inv l" "grows snap l" "snapshot_of snap l" "holds_evolve snap l"
proof -
  show inv: "ledger_inv snap" using assms reachable_inv by (auto simp: committed_before_def)
  show "ledger_inv l" "holds_evolve snap l"
    using assms inv ledger_steps_inv ledger_steps_evolve by (auto simp: committed_before_def)
  show "grows snap l" using assms ledger_steps_grow by (auto simp: committed_before_def)
  then show "snapshot_of snap l" by (auto simp: grows_def snapshot_of_def)
qed

lemma reachable_step: "ledger_reachable l \<Longrightarrow> ledger_step l l' \<Longrightarrow> ledger_reachable l'"
  unfolding ledger_reachable_def by (meson rtranclp.rtrancl_into_rtrancl)

lemma client_step_ledger: "client_step l l' \<Longrightarrow> ledger_step l l'"
  by (induction rule: client_step.induct) (auto intro: ledger_step.intros)

lemma recorded_grows: "grows l l' \<Longrightarrow> recorded l k \<Longrightarrow> recorded l' k"
  by (auto simp: grows_def recorded_def)

lemma entry_for_grows:
  assumes inv: "ledger_inv l" "ledger_inv l'" and grow: "grows l l'" and entry: "entry_for l k specs"
  shows "entry_for l' k specs"
proof -
  obtain v ps where v: "stored_entry l referenceType k v" "map_err (resolveLeg l) specs = Inr ps" "samePayload v ps"
    using entry by (auto simp: entry_for_def)
  have "map_err (resolveLeg l') specs = Inr ps"
    by (rule map_err_mono [OF v(2)]) (auto simp: resolveLeg_def sum_bind_Inr_iff dest: getAccountByRef_grows [OF _ grow])
  then show ?thesis using stored_entry_grows [OF inv grow v(1)] v(3) by (auto simp: entry_for_def)
qed

lemma has_hold_evolves:
  assumes "holds_evolve l l'" and "has_hold l k h P"
  shows "has_hold l' k h (\<lambda>_. True)" and "P = (\<lambda>s. s = st) \<Longrightarrow> st \<noteq> HoldActive \<Longrightarrow> has_hold l' k h P"
proof -
  obtain x where x: "x \<in> set (holds l)" "hold_ID x = h" "hold_ReferenceType x = referenceType" "hold_ReferenceID x = k" "P (hold_Status x)"
    using assms(2) by (auto simp: has_hold_def)
  obtain hs new where "holds l' = hs @ new" "list_all2 hold_evolves (holds l) hs"
    using assms(1) by (auto simp: holds_evolve_def)
  then obtain x' where x': "x' \<in> set (holds l')" "hold_evolves x x'"
    using x(1) by (metis UnCI in_set_conv_nth list_all2_conv_all_nth set_append)
  note same = hold_evolves_same [OF x'(2)]
  show "has_hold l' k h (\<lambda>_. True)" using x x' same by (auto simp: has_hold_def)
  show "has_hold l' k h P" if "P = (\<lambda>s. s = st)" "st \<noteq> HoldActive"
    using x x' same that by (auto simp: has_hold_def hold_evolves_def)
qed

lemmas captured_evolves = has_hold_evolves(2) [where st = HoldCaptured, OF _ _ refl]
lemmas released_evolves = has_hold_evolves(2) [where st = HoldReleased, OF _ _ refl]

lemma captured_not_released: "ledger_inv l \<Longrightarrow> captured l k h \<Longrightarrow> \<not> released l k' h"
  using ledger_invD(7) [of l] by (auto simp: has_hold_def holds_ok_def distinct_map inj_on_def)

text \<open>No call but a posting adds an entry, and the identifier of a hold is never empty.\<close>

definition ids_ok :: "ledger_db \<Rightarrow> bool" where
  "ids_ok l \<longleftrightarrow> '''' \<notin> set (map hold_ID (holds l))"

definition quiet :: "ledger_db \<Rightarrow> ledger_db \<Rightarrow> bool" where
  "quiet l l' \<longleftrightarrow> journal_entries l' = journal_entries l \<and> (ids_ok l \<longrightarrow> ids_ok l')"

lemma quiet_refl [simp]: "quiet l l"
  by (simp add: quiet_def)

lemma WithinTx_quiet:
  assumes "WithinTx env fn l = (res, l')" and "\<And>x l'. fn l = Inr (x, l') \<Longrightarrow> quiet l l'"
  shows "quiet l l'"
  using WithTx_state [of check_entry_zero_sum env fn l res l'] assms by (auto simp: WithinTx_def)

lemma ids_status [simp]: "map hold_ID (update_where P (hold_Status_update g) hs) = map hold_ID hs"
  by (simp add: update_where_def)

lemma releaseHoldTx_quiet: "releaseHoldTx env h l = Inr (x, l') \<Longrightarrow> quiet l l'"
  by (auto simp: releaseHoldTx_def Let_def tx_UpdateBalance_Inr tx_SetHoldStatus_Inr quiet_def ids_ok_def simp del: set_map
      split: if_splits)

lemma UpsertCustomerAccount_quiet: "UpsertCustomerAccount env ext cur l = Inr (x, l') \<Longrightarrow> quiet l l'"
  by (erule UpsertCustomerAccount_Inr) (auto simp: q_InsertBalanceRow_def quiet_def ids_ok_def split: if_splits)

lemma placeHoldTx_quiet:
  assumes "placeHoldTx env snap ref amount cur ty k ttl l = Inr (x, l')" and "uuids_ok env"
  shows "quiet l l'"
proof -
  have "quiet l l'" if new: "placeNewHold env acct amount cur ty k ttl l = Inr (x, l')" for acct
  proof -
    have "journal_entries l' = journal_entries l"
      using new by (auto simp: placeNewHold_def Let_def tx_InsertHold_def q_InsertHold_def tx_UpdateBalance_Inr split: if_splits)
    moreover have "hold_ID x \<noteq> ''''"
      using new assms(2) by (auto simp: placeNewHold_def Let_def uuid_NewV7_def uuids_ok_def split: if_splits option.splits)
    ultimately show ?thesis using placeNewHold_holds(1) [OF new] by (auto simp: quiet_def ids_ok_def)
  qed
  then show ?thesis using assms(1) by (auto simp: placeHoldTx_def split: sum.splits if_splits)
qed

lemma ReleaseHold_quiet: "ReleaseHold env h l = (res, l') \<Longrightarrow> quiet l l'"
  by (auto simp: ReleaseHold_def split: prod.splits sum.splits intro: WithinTx_quiet releaseHoldTx_quiet)

lemma client_step_quiet: "client_step l l' \<Longrightarrow> quiet l l'"
  by (induction rule: client_step.induct)
    (auto simp: CreateAccount_def split: if_splits prod.splits sum.splits
      intro: ReleaseHold_quiet WithinTx_quiet UpsertCustomerAccount_quiet, simp add: quiet_def ids_ok_def)

text \<open>What the answers of the ledger mean.\<close>

lemma has_hold_status:
  assumes "x \<in> set (holds l)" "hold_ID x = h" "hold_ReferenceType x = referenceType" "hold_ReferenceID x = k"
    and "holds l' = update_where (\<lambda>x. hold_ID x = h) (\<lambda>x. x\<lparr>hold_Status := st\<rparr>) (holds l)"
  shows "has_hold l' k h (\<lambda>s. s = st)"
proof -
  have "x\<lparr>hold_Status := st\<rparr> \<in> set (holds l')" using assms(1,2,5) by (force simp: set_update_where image_iff)
  then show ?thesis using assms(2-4) unfolding has_hold_def by (intro bexI [of _ "x\<lparr>hold_Status := st\<rparr>"]) simp_all
qed

lemma hold_answer:
  assumes "committed_before snap l"
    and "WithinTx env (placeHoldTx env snap ref amount cur referenceType k ttl) l = (Inr h, l')"
  shows "transfer_hold l' k (hold_ID h)"
proof -
  have tx: "placeHoldTx env snap ref amount cur referenceType k ttl l = Inr (h, l')"
    using assms(2) WithTx_Inr by (fastforce simp: WithinTx_def)
  show ?thesis
  proof (cases "tx_GetHoldByReference snap referenceType k")
    case (Inr existing)
    then have "h = existing" "l' = l" using tx by (auto simp: placeHoldTx_def split: if_splits)
    moreover have "transfer_hold snap k (hold_ID existing)"
      using Inr by (auto simp: tx_GetHoldByReference_Inr has_hold_def dest!: select_one_Some)
    ultimately show ?thesis using has_hold_evolves(1) [OF committed_beforeD(5) [OF assms(1)]] by simp
  next
    case (Inl err)
    then obtain acct where "placeNewHold env acct amount cur referenceType k ttl l = Inr (h, l')"
      using tx by (auto simp: placeHoldTx_def split: if_splits)
    from placeNewHold_holds [OF this] show ?thesis by (auto simp: has_hold_def)
  qed
qed

lemma post_answer:
  assumes "committed_before snap l" and "PostTransaction env snap referenceType k h specs l = (res, l')" and "h \<noteq> ''''"
  shows "recorded l' k' \<Longrightarrow> recorded l k' \<or> k' = k \<and> captured l' k h \<and> entry_for l' k specs"
    and "res = Inr v \<Longrightarrow> recorded l' k"
    and "ids_ok l \<Longrightarrow> ids_ok l'"
proof -
  note snap = committed_beforeD [OF assms(1)]
  have fresh: "(recorded l' k' \<longrightarrow> recorded l k' \<or> k' = k \<and> captured l' k h \<and> entry_for l' k specs) \<and> (ids_ok l \<longrightarrow> ids_ok l')"
    if tx: "postOnceTx env snap referenceType k h specs l = Inr (v, l')" for v l'
    using tx snap(4)
  proof (cases rule: postOnceTx_cases)
    case (fresh accounts ps)
    obtain delta heldAdj s1 bs new where eff: "post_effect env referenceType k accounts ps delta heldAdj bs v new l s1 l'"
      by (rule postNew_effect [OF fresh(3,2)])
    have entry: "entry_for l' k specs"
      by (rule postOnceTx_stored [OF snap(1-4) tx]) (auto simp: entry_for_def)
    from fresh(3,2) show ?thesis
    proof (cases rule: postNew_holds)
      case (captured x)
      then have "x \<in> set (holds l)" "hold_ID x = h" by (auto dest: select_one_Some)
      then have "captured l' k h" by (rule has_hold_status [OF _ _ captured(4-6)])
      moreover have "map hold_ID (holds l') = map hold_ID (holds l)" using captured(6) by (simp add: update_where_def)
      ultimately show ?thesis using eff entry by (auto simp: post_effect_def recorded_def ids_ok_def simp del: set_map)
    qed (use assms(3) in simp)
  qed simp
  have "l' = l \<or> (\<exists>v. postOnceTx env snap referenceType k h specs l = Inr (v, l'))"
    using assms(2) WithTx_state [of check_entry_zero_sum env "postOnceTx env snap referenceType k h specs" l]
    by (cases rule: PostTransaction_cases) (auto simp: postOnce_def WithinTx_def)
  then show "recorded l' k' \<Longrightarrow> recorded l k' \<or> k' = k \<and> captured l' k h \<and> entry_for l' k specs" "ids_ok l \<Longrightarrow> ids_ok l'"
    using fresh by blast+
  show "recorded l' k" if "res = Inr v"
  proof -
    have "stored_entry l' referenceType k v"
      using PostTransaction_stored [OF snap(1-4)] assms(2) that by metis
    then show ?thesis by (force simp: stored_entry_def recorded_def)
  qed
qed

lemma release_answer:
  assumes "ledger_inv l" and "ReleaseHold env h l = (res, l')" and "transfer_hold l k h"
  shows "res = Inr x \<Longrightarrow> released l' k h" and "res = Inl err \<Longrightarrow> CodeOf err \<noteq> CodeNotFound"
proof -
  obtain hd where hd: "hd \<in> set (holds l)" "hold_ID hd = h" "hold_ReferenceType hd = referenceType" "hold_ReferenceID hd = k"
    using assms(3) by (auto simp: has_hold_def)
  have look: "select_one (\<lambda>x. hold_ID x = h) (holds l) = Some hd"
    using hold_table.lookup_unique [OF _ hd(1)] ledger_invD(7) [OF assms(1)] hd(2) by (simp add: holds_ok_def)
  show "released l' k h" if "res = Inr x"
  proof -
    have "releaseHoldTx env h l = Inr (x, l')"
      using assms(2) that WithTx_Inr by (fastforce simp: ReleaseHold_def WithinTx_def split: prod.splits sum.splits)
    from assms(1) this show ?thesis
    proof (cases rule: releaseHoldTx_cases)
      case again
      then show ?thesis using look hd by (auto simp: has_hold_def)
    next
      case (released hd')
      show ?thesis by (rule has_hold_status [OF hd released(4)])
    qed
  qed
  have refuse: "e = Sentinel ErrHoldNotActive" if fail: "releaseHoldTx env h l = Inl e" for e
  proof -
    have "hold_Status hd \<noteq> HoldActive"
      using releaseHoldTx_active [OF assms(1) hd(1), of env] hd(2) fail by auto
    then show ?thesis
      using fail look ledger_invD(7) [OF assms(1)] hd(1)
      by (auto simp: releaseHoldTx_def tx_LockHoldByID_def q_LockHoldByID_def one_row_def map_left_def domain_ReleaseHold_def
          holds_ok_def split: if_splits)
  qed
  show "CodeOf err \<noteq> CodeNotFound" if "res = Inl err"
    using assms(2) that refuse
    by (auto simp: ReleaseHold_def WithinTx_def WithTx_def toAppErr_def CodeOf_def app_Wrap_def
        split: option.splits sum.splits prod.splits commit_outcome.splits if_splits)
qed

lemma probe_answer:
  assumes "ledger_inv l" and "GetTransactionByReference l referenceType k = Inr v"
  shows "recorded l k"
proof -
  obtain e occ where "getEntryRef l referenceType k = Inr (e, occ)" "getEntryWithPostings l e occ = Inr v"
    using assms(2) by (auto simp: GetTransactionByReference_def)
  from lookup_stored_entry [OF assms(1) this] show ?thesis
    unfolding stored_entry_def recorded_def by force
qed

section \<open>The transfer database's side\<close>

definition row_update :: "tx_env \<Rightarrow> Transfer \<Rightarrow> TransferRow \<Rightarrow> TransferRow" where
  "row_update env t r = r\<lparr>tr_State := t_State t, tr_ToAccountID := nilIfEmpty (t_ToAccountID t),
     tr_CounterAmount := t_CounterAmount t, tr_CounterCurrency := t_CounterCurrency t, tr_AppliedRateMicros := t_RateMicros t,
     tr_RatePair := t_RatePair t, tr_Reason := t_Reason t, tr_HoldID := t_HoldID t, tr_UpdatedAt := env_now env\<rparr>"

lemma row_update_simps [simp]:
  "tr_ID (row_update env t r) = tr_ID r" "tr_State (row_update env t r) = t_State t" "tr_HoldID (row_update env t r) = t_HoldID t"
  "tr_CustomerID (row_update env t r) = tr_CustomerID r" "tr_Type (row_update env t r) = tr_Type r"
  "tr_Amount (row_update env t r) = tr_Amount r" "tr_Currency (row_update env t r) = tr_Currency r"
  "tr_FromAccountID (row_update env t r) = tr_FromAccountID r" "tr_CreatedAt (row_update env t r) = tr_CreatedAt r"
  by (simp_all add: row_update_def)

text \<open>
  A transition either leaves the database as it was or moves the row of the transfer, if it is
  still in the state it was loaded in, logs the move and, in a terminal state, queues the
  status message.
\<close>

lemma transitionTx_Inr:
  assumes "transitionTx env t prev detail db = Inr (u, db')"
  obtains msgs where "\<exists>r \<in> set (transfers db). tr_ID r = t_ID t \<and> tr_State r = prev"
    and "db' = db\<lparr>transfers := update_where (\<lambda>r. tr_ID r = t_ID t \<and> tr_State r = prev) (row_update env t) (transfers db),
       transfer_events := transfer_events db @ [\<lparr>te_TransferID = t_ID t, te_FromState = prev, te_ToState = t_State t,
         te_Detail = detail, te_At = env_now env\<rparr>],
       t_outbox := t_outbox db @ msgs\<rparr>"
    and "if IsTerminal (t_State t) then \<exists>m. msgs = [m] \<and> msg_Topic (ob_Message m) = TopicTransfersStatus
           \<and> msg_Key (ob_Message m) = t_ID t \<and> ev_Payload (msg_Payload (ob_Message m)) =
             (if t_State t = StateCompleted then TransferCompleted (ToProto t) (tv_AppliedRate (ToProto t))
              else TransferFailed (ToProto t) (text_or_empty (t_Reason t)))
         else msgs = []"
proof -
  let ?hit = "\<lambda>r. tr_ID r = t_ID t \<and> tr_State r = prev"
  let ?db = "db\<lparr>transfers := update_where ?hit (row_update env t) (transfers db)\<rparr>"
  have upd: "tx_UpdateTransferGuarded env t prev db = (if \<not> (\<exists>r \<in> set (transfers db). ?hit r) then Inl (Sentinel ErrStateRaced)
      else if \<not> known_state (t_State t) then Inl (rawErr CheckViolation) else Inr ?db)"
    by (auto simp: tx_UpdateTransferGuarded_def q_UpdateTransferGuarded_def Let_def updateArgs_def row_update_def [abs_def]
        filter_empty_conv map_left_def)
  have ids: "tr_ID ` set (update_where ?hit (row_update env t) (transfers db)) = tr_ID ` set (transfers db)"
    using arg_cong [OF map_update_where [of tr_ID "row_update env t" ?hit "transfers db"], of set] by simp
  let ?row = "\<lparr>te_TransferID = t_ID t, te_FromState = prev, te_ToState = t_State t, te_Detail = detail, te_At = env_now env\<rparr>"
  let ?db2 = "?db\<lparr>transfer_events := transfer_events db @ [?row]\<rparr>"
  have hit: "\<exists>r \<in> set (transfers db). ?hit r" and "known_state (t_State t)"
    using assms by (auto simp: transitionTx_def upd split: if_splits)
  then have upd: "tx_UpdateTransferGuarded env t prev db = Inr ?db" using upd by simp
  have "t_ID t \<in> tr_ID ` set (transfers ?db)" using hit ids by force
  then have "tx_AppendEvent env (t_ID t) prev (t_State t) detail ?db = Inr ?db2"
    by (simp add: tx_AppendEvent_def q_AppendTransferEvent_def map_left_def)
  then have rest: "(if IsTerminal (t_State t) then sum_bind (insertStatusEvent env t ?db2) (\<lambda>s3. Inr ((), s3)) else Inr ((), ?db2)) = Inr (u, db')"
    using assms upd by (simp add: transitionTx_def)
  show ?thesis
  proof (cases "IsTerminal (t_State t)")
    case False
    then have "db' = ?db2" using rest by simp
    then show ?thesis by (intro that [of "[]"]) (use hit False in simp_all)
  next
    case True
    then obtain db3 where "insertStatusEvent env t ?db2 = Inr db3" "db' = db3" using rest by auto
    then obtain m where "db' = ?db2\<lparr>t_outbox := t_outbox db @ [m]\<rparr>" "msg_Topic (ob_Message m) = TopicTransfersStatus"
      "msg_Key (ob_Message m) = t_ID t" "ev_Payload (msg_Payload (ob_Message m)) =
             (if t_State t = StateCompleted then TransferCompleted (ToProto t) (tv_AppliedRate (ToProto t))
              else TransferFailed (ToProto t) (text_or_empty (t_Reason t)))"
      unfolding insertStatusEvent_def Let_def transfer_InsertOutbox_def
      by (auto simp: outbox_Insert_Inr dest!: NewProtoMessage_Inr)
    then show ?thesis using that [of "[m]"] hit True by simp
  qed
qed

lemma transition_cases:
  assumes "transition env t event mutate detail db = (res, db')"
  obtains (kept) err where "db' = db" "res = Inl err"
  | (moved) nxt where "Next (t_State t) event = Inr nxt"
      "transitionTx env ((mutate t)\<lparr>t_State := nxt\<rparr>) (t_State t) detail db = Inr ((), db')"
proof (cases "Next (t_State t) event")
  case (Inl err)
  then show ?thesis using assms kept by (auto simp: transition_def)
next
  case (Inr nxt)
  then have tx: "WithTx keys_resolve env (transitionTx env ((mutate t)\<lparr>t_State := nxt\<rparr>) (t_State t) detail) db = (res, db')"
    using assms by (simp add: transition_def transfer_WithinTx_def)
  show ?thesis
  proof (cases "\<exists>u. transitionTx env ((mutate t)\<lparr>t_State := nxt\<rparr>) (t_State t) detail db = Inr (u, db')")
    case True
    then show ?thesis using moved [OF Inr] by simp
  next
    case False
    then have "db' = db" using WithTx_state [OF tx] by blast
    moreover have "\<exists>err. res = Inl err"
    proof (cases res)
      case (Inr u)
      then show ?thesis using WithTx_Inr [of keys_resolve env _ db u db'] tx False by blast
    qed blast
    ultimately show ?thesis using kept by blast
  qed
qed

section \<open>The protocol\<close>

datatype worker = Loaded Transfer | Decided Transfer decision

text \<open>The seed data of the migrations: one rate and the limits of the default tier.\<close>

definition initial_transfer_db :: transfer_db where
  "initial_transfer_db = \<lparr>transfers = [], transfer_events = [], idempotency_keys = [],
     rates = [\<lparr>rate_Pair = ''USDKZT'', rate_BuyMicros = 478250000, rate_SellMicros = 482750000,
       rate_ValidFrom = 1767225600 * 1000000000\<rparr>],
     limits = [\<lparr>lim_Tier = ''default'', lim_Currency = ''KZT'', lim_PerTx = 100000000, lim_Daily = 500000000\<rparr>,
       \<lparr>lim_Tier = ''default'', lim_Currency = ''USD'', lim_PerTx = 200000, lim_Daily = 1000000\<rparr>],
     t_outbox = []\<rparr>"

text \<open>
  The events by which a worker gives up or goes on without the ledger having to confirm
  anything; a validation may also set the destination and the counter amount.
\<close>

definition unconfirmed :: "SagaEvent \<Rightarrow> bool" where
  "unconfirmed e \<longleftrightarrow> e \<in> {EvStart, EvValidated, EvValidationFailed, EvHoldFailed, EvPostFailed, EvRecoveryExhausted}"

definition keeps :: "SagaEvent \<Rightarrow> (Transfer \<Rightarrow> Transfer) \<Rightarrow> bool" where
  "keeps e f \<longleftrightarrow> (\<forall>t. t_ID (f t) = t_ID t \<and> t_HoldID (f t) = t_HoldID t
     \<and> (e = EvValidated \<or> t_ToAccountID (f t) = t_ToAccountID t \<and> t_CounterAmount (f t) = t_CounterAmount t
          \<and> t_CounterCurrency (f t) = t_CounterCurrency t))"

text \<open>The legs of a transfer as the ledger's service is asked to post them.\<close>

definition posting_specs :: "Transfer \<Rightarrow> PostingSpec list" where
  "posting_specs t = map (\<lambda>p. \<lparr>spec_Ref = refFromProto (toProtoRef (lp_Ref p)), spec_Amount = lp_Amount p,
     spec_Currency = lp_Currency p\<rparr>) (buildPostings t)"

definition fire_hold :: "string \<Rightarrow> decision" where
  "fire_hold h = Fire EvPostingStarted (\<lambda>t. t\<lparr>t_HoldID := Some h\<rparr>) (Some [(''hold_id'', DText h)]) True"

inductive saga_step :: "bank \<times> worker list \<Rightarrow> bank \<times> worker list \<Rightarrow> bool" where
  client: "client_step (ledger w) l \<Longrightarrow> saga_step (w, ws) (w\<lparr>ledger := l\<rparr>, ws)"
| create: "createOrFind sha env cmd (sagas w) = (res, db) \<Longrightarrow> saga_step (w, ws) (w\<lparr>sagas := db\<rparr>, ws)"
| claim: "store_ClaimStuck env locked states stale n (sagas w) = (res, db) \<Longrightarrow> saga_step (w, ws) (w\<lparr>sagas := db\<rparr>, ws)"
| cleanup: "saga_step (w, ws) (w\<lparr>sagas := CleanupIdempotencyKeys now (sagas w)\<rparr>, ws)"
| publish: "relayOnce env locked produce (t_outbox (sagas w), log) = (res :: transfer_err + nat, t, log')
    \<Longrightarrow> saga_step (w, ws) (w\<lparr>sagas := (sagas w)\<lparr>t_outbox := t\<rparr>\<rparr>, ws)"
| load: "store_GetTransfer (sagas w) k = Inr t \<Longrightarrow> saga_step (w, ws) (w, ws @ [Loaded t])"
| give_up: "Loaded t \<in> set ws \<Longrightarrow> unconfirmed e \<Longrightarrow> keeps e f \<Longrightarrow> saga_step (w, ws) (w, ws @ [Decided t (Fire e f detail b)])"
| hold: "Loaded t \<in> set ws \<Longrightarrow> t_State t = StateHeld \<Longrightarrow> committed_before snap (ledger w) \<Longrightarrow> uuids_ok env
    \<Longrightarrow> WithinTx env (placeHoldTx env snap (refFromProto (toProtoRef (sourceRef t))) (t_Amount t) (t_Currency t) referenceType (t_ID t) ttl) (ledger w) = (res, l)
    \<Longrightarrow> saga_step (w, ws) (w\<lparr>ledger := l\<rparr>, ws @ (case res of Inr h \<Rightarrow> [Decided t (fire_hold (hold_ID h))] | Inl _ \<Rightarrow> []))"
| post: "Loaded t \<in> set ws \<Longrightarrow> t_State t = StatePosting \<Longrightarrow> committed_before snap (ledger w)
    \<Longrightarrow> PostTransaction env snap referenceType (t_ID t) (text_or_empty (t_HoldID t)) (posting_specs t) (ledger w) = (res, l)
    \<Longrightarrow> saga_step (w, ws) (w\<lparr>ledger := l\<rparr>, ws @ (case res of Inr _ \<Rightarrow> [Decided t (Fire EvPosted (\<lambda>t. t) detail True)] | Inl _ \<Rightarrow> []))"
| probe: "Loaded t \<in> set ws \<Longrightarrow> t_State t = StatePosting \<Longrightarrow> GetTransactionByReference (ledger w) referenceType (t_ID t) = Inr v
    \<Longrightarrow> saga_step (w, ws) (w, ws @ [Decided t (Fire EvPosted (\<lambda>t. t) detail True)])"
| release: "Loaded t \<in> set ws \<Longrightarrow> t_State t = StateReleasing \<Longrightarrow> t_HoldID t = Some h
    \<Longrightarrow> ReleaseHold env h (ledger w) = (res, l)
    \<Longrightarrow> saga_step (w, ws) (w\<lparr>ledger := l\<rparr>, ws @ (if \<forall>err. res = Inl err \<longrightarrow> CodeOf err = CodeNotFound
          then [Decided t (Fire EvReleased (\<lambda>t. t) None True)] else []))"
| release_none: "Loaded t \<in> set ws \<Longrightarrow> t_State t = StateReleasing \<Longrightarrow> t_HoldID t = None
    \<Longrightarrow> saga_step (w, ws) (w, ws @ [Decided t (Fire EvReleased (\<lambda>t. t) None True)])"
| fire: "Decided t d \<in> set ws \<Longrightarrow> settle env t d w = (res, w') \<Longrightarrow> saga_step (w, ws) (w', ws)"

definition saga_reachable :: "bank \<times> worker list \<Rightarrow> bool" where
  "saga_reachable c \<longleftrightarrow> (\<exists>now. saga_step\<^sup>*\<^sup>* (\<lparr>sagas = initial_transfer_db, ledger = initial_db now\<rparr>, []) c)"

end
