(* ===== verification/Saga_Safety.thy ===== *)
theory Saga_Safety
  imports Saga
begin

text \<open>
  The invariant of the saga protocol, kept by every step, and what it means for the money: a
  transfer is reported completed exactly if the ledger has its entry, with exactly the legs
  of the transfer, and a failed transfer has no entry and never gets one.
\<close>

section \<open>The invariant\<close>

text \<open>
  \<open>past t r\<close>: \<open>t\<close> is what a worker loaded when the row, now \<open>r\<close>, was in the state of \<open>t\<close>. From posting
  on, the hold, the destination and the counter amount do not change any more.
\<close>

definition same_order :: "Transfer \<Rightarrow> TransferRow \<Rightarrow> bool" where
  "same_order t r \<longleftrightarrow> t_ID t = tr_ID r \<and> t_Type t = tr_Type r \<and> t_FromAccountID t = text_or_empty (tr_FromAccountID r)
     \<and> t_Amount t = tr_Amount r \<and> t_Currency t = tr_Currency r"

definition same_terms :: "Transfer \<Rightarrow> TransferRow \<Rightarrow> bool" where
  "same_terms t r \<longleftrightarrow> t_HoldID t = tr_HoldID r \<and> t_ToAccountID t = text_or_empty (tr_ToAccountID r)
     \<and> t_CounterAmount t = tr_CounterAmount r \<and> t_CounterCurrency t = tr_CounterCurrency r"

definition past :: "Transfer \<Rightarrow> TransferRow \<Rightarrow> bool" where
  "past t r \<longleftrightarrow> same_order t r \<and> rank (t_State t) \<le> rank (tr_State r)
     \<and> (t_State t \<in> {tr_State r, StatePosting, StateReleasing} \<longrightarrow> same_terms t r)
     \<and> (t_State t = StateReleasing \<longrightarrow> tr_State r \<in> {StateReleasing, StateFailed})
     \<and> (t_State t = StatePosting \<longrightarrow> t_HoldID t \<noteq> None)
     \<and> (t_State t = StateHeld \<longrightarrow> t_HoldID t = None)
     \<and> (IsTerminal (t_State t) \<longrightarrow> tr_State r = t_State t)"

definition row_ok :: "ledger_db \<Rightarrow> TransferRow \<Rightarrow> bool" where
  "row_ok l r \<longleftrightarrow> (\<forall>h. tr_HoldID r = Some h \<longrightarrow> transfer_hold l (tr_ID r) h)
     \<and> (tr_State r = StateCompleted \<longrightarrow> recorded l (tr_ID r))
     \<and> (tr_State r = StateFailed \<longrightarrow> (\<forall>h. tr_HoldID r = Some h \<longrightarrow> released l (tr_ID r) h))
     \<and> (rank (tr_State r) < 3 \<longrightarrow> tr_HoldID r = None) \<and> (tr_State r = StatePosting \<longrightarrow> tr_HoldID r \<noteq> None)
     \<and> known_state (tr_State r)"

text \<open>A recorded entry belongs to a transfer whose hold it captured, and has that transfer's legs.\<close>

definition entry_owned :: "TransferRow list \<Rightarrow> ledger_db \<Rightarrow> string \<Rightarrow> bool" where
  "entry_owned rows l k \<longleftrightarrow> (\<exists>r \<in> set rows. tr_ID r = k \<and> 3 \<le> rank (tr_State r)
     \<and> (\<exists>h. tr_HoldID r = Some h \<and> captured l k h) \<and> entry_for l k (posting_specs (transferFromRow r)))"

lemma entry_ownedE:
  assumes "entry_owned rows l k"
  obtains r h where "r \<in> set rows" "tr_ID r = k" "3 \<le> rank (tr_State r)" "tr_HoldID r = Some h" "captured l k h"
    "entry_for l k (posting_specs (transferFromRow r))"
  using assms unfolding entry_owned_def by blast

definition decision_ok :: "ledger_db \<Rightarrow> Transfer \<Rightarrow> decision \<Rightarrow> bool" where
  "decision_ok l t d = (case d of Fire e f _ _ \<Rightarrow>
       (if e = EvPostingStarted then \<exists>h. transfer_hold l (t_ID t) h \<and> f = (\<lambda>t. t\<lparr>t_HoldID := Some h\<rparr>) else keeps e f)
     \<and> (e = EvPosted \<longrightarrow> recorded l (t_ID t))
     \<and> (e = EvReleased \<longrightarrow> (\<forall>h. t_HoldID t = Some h \<longrightarrow> released l (t_ID t) h))
   | _ \<Rightarrow> True)"

fun worker_ok :: "TransferRow list \<Rightarrow> ledger_db \<Rightarrow> worker \<Rightarrow> bool" where
  "worker_ok rows l (Loaded t) \<longleftrightarrow> (\<exists>r \<in> set rows. past t r)"
| "worker_ok rows l (Decided t d) \<longleftrightarrow> (\<exists>r \<in> set rows. past t r) \<and> decision_ok l t d"

definition saga_inv :: "bank \<times> worker list \<Rightarrow> bool" where
  "saga_inv c \<longleftrightarrow> (case c of (w, ws) \<Rightarrow> let rows = transfers (sagas w); l = ledger w in
     ledger_reachable l \<and> ids_ok l \<and> distinct (map tr_ID rows)
     \<and> (\<forall>k. recorded l k \<longrightarrow> entry_owned rows l k) \<and> (\<forall>r \<in> set rows. row_ok l r) \<and> (\<forall>x \<in> set ws. worker_ok rows l x))"

lemma saga_invD:
  assumes "saga_inv (w, ws)"
  shows "ledger_reachable (ledger w)" "ids_ok (ledger w)" "distinct (map tr_ID (transfers (sagas w)))"
    "recorded (ledger w) k \<Longrightarrow> entry_owned (transfers (sagas w)) (ledger w) k"
    "r \<in> set (transfers (sagas w)) \<Longrightarrow> row_ok (ledger w) r" "x \<in> set ws \<Longrightarrow> worker_ok (transfers (sagas w)) (ledger w) x"
  using assms by (auto simp: saga_inv_def Let_def)

lemma saga_row_unique:
  assumes "saga_inv (w, ws)" and "r \<in> set (transfers (sagas w))" "r' \<in> set (transfers (sagas w))" "tr_ID r = tr_ID r'"
  shows "r = r'"
  using saga_invD(3) [OF assms(1)] assms(2-4) by (metis distinct_map inj_onD)

lemma saga_inv_worker: "saga_inv (w, ws) \<Longrightarrow> worker_ok (transfers (sagas w)) (ledger w) x \<Longrightarrow> saga_inv (w, ws @ [x])"
  by (auto simp: saga_inv_def Let_def)

lemma saga_inv_nil [simp]: "saga_inv (w, ws @ []) = saga_inv (w, ws)"
  by simp

section \<open>The ledger moves\<close>

lemma row_ok_step:
  assumes "grows l l'" "holds_evolve l l'" "row_ok l r"
  shows "row_ok l' r"
  using assms(3) recorded_grows [OF assms(1)] has_hold_evolves(1) [OF assms(2)] released_evolves [OF assms(2)]
  unfolding row_ok_def by auto

lemma worker_ok_step:
  assumes "grows l l'" "holds_evolve l l'" "worker_ok rows l x"
  shows "worker_ok rows l' x"
  using assms(3) recorded_grows [OF assms(1)] has_hold_evolves(1) [OF assms(2)] released_evolves [OF assms(2)]
  by (cases x) (fastforce simp: decision_ok_def split: decision.splits)+

lemma saga_inv_ledger:
  assumes inv: "saga_inv (w, ws)" and step: "ledger_step (ledger w) l" and ids: "ids_ok l"
    and new: "\<And>k. recorded l k \<Longrightarrow> recorded (ledger w) k \<or> entry_owned (transfers (sagas w)) l k"
  shows "saga_inv (w\<lparr>ledger := l\<rparr>, ws)"
proof -
  note old = saga_invD [OF inv]
  have inv0: "ledger_inv (ledger w)" by (rule reachable_inv [OF old(1)])
  then have inv1: "ledger_inv l" by (rule ledger_step_inv [OF step])
  have grow: "grows (ledger w) l" by (rule ledger_step_grows [OF step])
  have evolve: "holds_evolve (ledger w) l" by (rule ledger_step_evolves [OF step inv0])
  have "entry_owned (transfers (sagas w)) l k" if "recorded l k" for k
  proof (cases "recorded (ledger w) k")
    case True
    then show ?thesis
      using old(4) captured_evolves [OF evolve] entry_for_grows [OF inv0 inv1 grow] unfolding entry_owned_def by fastforce
  qed (use new that in blast)
  then show ?thesis
    using old reachable_step [OF old(1) step] ids row_ok_step [OF grow evolve] worker_ok_step [OF grow evolve]
    unfolding saga_inv_def by (simp add: Let_def)
qed

lemma saga_inv_quiet:
  assumes "saga_inv (w, ws)" and "ledger_step (ledger w) l" and "quiet (ledger w) l"
  shows "saga_inv (w\<lparr>ledger := l\<rparr>, ws)"
  using assms saga_invD(2) [OF assms(1)] by (intro saga_inv_ledger) (auto simp: quiet_def recorded_def)

section \<open>The rows move\<close>

lemma posting_specs_cong:
  assumes "t_Type t = t_Type t'" "t_FromAccountID t = t_FromAccountID t'" "t_ToAccountID t = t_ToAccountID t'" "t_Amount t = t_Amount t'"
    "t_Currency t = t_Currency t'" "t_CounterAmount t = t_CounterAmount t'" "t_CounterCurrency t = t_CounterCurrency t'"
  shows "posting_specs t = posting_specs t'"
  unfolding posting_specs_def buildPostings_def sourceRef_def assms ..

text \<open>What one change of a row must respect: \<open>r'\<close> follows \<open>r\<close> in the life of a transfer.\<close>

definition row_step :: "TransferRow \<Rightarrow> TransferRow \<Rightarrow> bool" where
  "row_step r r' \<longleftrightarrow> tr_ID r' = tr_ID r \<and> (\<forall>t. past t r \<longrightarrow> past t r')
     \<and> (3 \<le> rank (tr_State r) \<longrightarrow> 3 \<le> rank (tr_State r') \<and> tr_HoldID r' = tr_HoldID r
          \<and> posting_specs (transferFromRow r') = posting_specs (transferFromRow r))"

lemma saga_inv_rows:
  assumes inv: "saga_inv (w, ws)" and rows: "transfers db = map g (transfers (sagas w))"
    and step: "\<And>r. r \<in> set (transfers (sagas w)) \<Longrightarrow> row_step r (g r) \<and> row_ok (ledger w) (g r)"
  shows "saga_inv (w\<lparr>sagas := db\<rparr>, ws)"
proof -
  note old = saga_invD [OF inv]
  have "map tr_ID (transfers db) = map tr_ID (transfers (sagas w))" using step by (simp add: rows row_step_def)
  then have "distinct (map tr_ID (transfers db))" using old(3) by simp
  moreover have "entry_owned (transfers db) (ledger w) k" if "recorded (ledger w) k" for k
    using old(4) [OF that] step unfolding entry_owned_def rows row_step_def by fastforce
  moreover have "worker_ok (transfers db) (ledger w) x" if "x \<in> set ws" for x
    using old(6) [OF that] step unfolding rows row_step_def by (cases x) fastforce+
  ultimately show ?thesis using old step unfolding saga_inv_def rows by (simp add: Let_def) (use rows step in auto)
qed

lemma row_step_refl: "row_step r r"
  by (simp add: row_step_def)

text \<open>A transition fired on a row that is still where the worker saw it.\<close>

lemma fire_row:
  fixes env :: tx_env
  assumes past: "past t r" and at: "tr_State r = t_State t" and dec: "decision_ok l t (Fire e f detail b)"
    and nxt: "Next (t_State t) e = Inr nxt" and ok: "row_ok l r"
  defines "r' \<equiv> row_update env ((f t)\<lparr>t_State := nxt\<rparr>) r"
  shows "row_step r r'" and "row_ok l r'"
proof -
  have order: "same_order t r" and terms: "same_terms t r" using past at by (auto simp: past_def)
  have up: "rank (tr_State r) < rank (tr_State r')" using Next_rank [OF nxt] at by (simp add: r'_def)
  have keep: "same_terms t r'" if "e \<noteq> EvPostingStarted" "e \<noteq> EvValidated"
    using dec terms that by (auto simp: decision_ok_def keeps_def same_terms_def r'_def row_update_def nilIfEmpty_def text_or_empty_def)
  have late: "e \<noteq> EvPostingStarted \<and> e \<noteq> EvValidated" if "3 \<le> rank (tr_State r)"
    using that nxt at by (auto simp: Next_Inr_iff rank_def)
  have "posting_specs (transferFromRow r') = posting_specs (transferFromRow r)" if "3 \<le> rank (tr_State r)"
    using keep late [OF that] terms
    by (intro posting_specs_cong) (auto simp: same_terms_def r'_def transferFromRow_def row_update_def)
  moreover have "past t0 r'" if old: "past t0 r" for t0
  proof -
    have rank0: "rank (t_State t0) < rank (tr_State r')" using old up by (auto simp: past_def)
    have "same_terms t0 r'" if "t_State t0 \<in> {StatePosting, StateReleasing}"
    proof -
      have "3 \<le> rank (tr_State r)" using old that by (auto simp: past_def rank_def)
      then show ?thesis using old that keep late terms by (auto simp: past_def same_terms_def)
    qed
    moreover have "tr_State r' \<in> {StateReleasing, StateFailed}" if "t_State t0 = StateReleasing"
      using old that nxt at by (auto simp: past_def r'_def Next_Inr_iff)
    moreover have "\<not> IsTerminal (t_State t0)"
    proof
      assume "IsTerminal (t_State t0)"
      then have "IsTerminal (t_State t)" using old at by (simp add: past_def)
      then show False using Next_not_terminal [OF nxt] by contradiction
    qed
    moreover have "same_order t0 r'" using old by (auto simp: past_def same_order_def r'_def row_update_def)
    moreover have "t_State t0 \<noteq> tr_State r'" using rank0 by auto
    moreover have "t_State t0 = StatePosting \<longrightarrow> t_HoldID t0 \<noteq> None" "t_State t0 = StateHeld \<longrightarrow> t_HoldID t0 = None"
      using old by (simp_all add: past_def)
    ultimately show ?thesis using rank0 unfolding past_def by simp
  qed
  ultimately show "row_step r r'"
    using up keep late terms unfolding row_step_def by (auto simp: same_terms_def r'_def)
  have hold: "if e = EvPostingStarted then \<exists>h. transfer_hold l (tr_ID r) h \<and> tr_HoldID r' = Some h else tr_HoldID r' = tr_HoldID r"
    using dec terms order by (auto simp: decision_ok_def keeps_def r'_def same_terms_def same_order_def)
  have event: "nxt = StateCompleted \<Longrightarrow> e = EvPosted" "nxt = StatePosting \<Longrightarrow> e = EvPostingStarted"
    "nxt = StateFailed \<Longrightarrow> e = EvReleased \<or> e = EvValidationFailed \<and> rank (tr_State r) < 3"
    "rank nxt < 3 \<Longrightarrow> e \<noteq> EvPostingStarted \<and> rank (tr_State r) < 3"
    using nxt at by (auto simp: Next_Inr_iff rank_def)
  have "tr_State r' = StateCompleted \<Longrightarrow> recorded l (tr_ID r)"
    using event(1) dec order by (simp add: decision_ok_def same_order_def r'_def)
  moreover have "released l (tr_ID r) h" if "tr_State r' = StateFailed" "tr_HoldID r' = Some h" for h
    using event(3) that dec order terms hold ok
    by (auto simp: decision_ok_def same_order_def same_terms_def row_ok_def r'_def)
  moreover have "transfer_hold l (tr_ID r) h" if "tr_HoldID r' = Some h" for h
    using that hold ok by (auto simp: row_ok_def split: if_splits)
  moreover have "rank (tr_State r') < 3 \<Longrightarrow> tr_HoldID r' = None"
    using event(4) hold ok by (auto simp: row_ok_def r'_def)
  moreover have "tr_State r' = StatePosting \<Longrightarrow> tr_HoldID r' \<noteq> None"
    using event(2) hold by (auto simp: r'_def)
  moreover have "known_state (tr_State r')" using nxt by (auto simp: r'_def known_state_def AllStates_def Next_Inr_iff)
  ultimately show "row_ok l r'" by (simp add: row_ok_def r'_def)
qed

lemma settle_rows:
  assumes inv: "saga_inv (w, ws)" and mem: "Decided t d \<in> set ws" and set: "settle env t d w = (res, w')"
  obtains g db where "w' = w\<lparr>sagas := db\<rparr>" "transfers db = map g (transfers (sagas w))"
    "\<And>r. r \<in> set (transfers (sagas w)) \<Longrightarrow> row_step r (g r) \<and> row_ok (ledger w) (g r)"
proof -
  have none: thesis if "w' = w"
    using that saga_invD(5) [OF inv] row_step_refl \<open>\<And>db g. w' = w\<lparr>sagas := db\<rparr> \<Longrightarrow> transfers db = map g (transfers (sagas w)) \<Longrightarrow>
      (\<And>r. r \<in> set (transfers (sagas w)) \<Longrightarrow> row_step r (g r) \<and> row_ok (ledger w) (g r)) \<Longrightarrow> thesis\<close> [of "sagas w" "\<lambda>r. r"] by simp
  show thesis
  proof (cases d)
    case (Fire e f detail b)
    then obtain res' db where tr: "transition env t e f detail (sagas w) = (res', db)" and w': "w' = w\<lparr>sagas := db\<rparr>"
      using set by (auto simp: settle_def split: prod.splits sum.splits if_splits)
    from tr show ?thesis
    proof (cases rule: transition_cases)
      case (kept err)
      then show ?thesis using none w' by simp
    next
      case (moved nxt)
      let ?t = "(f t)\<lparr>t_State := nxt\<rparr>"
      let ?g = "\<lambda>r. if tr_ID r = t_ID (f t) \<and> tr_State r = t_State t then row_update env ?t r else r"
      have ok: "\<exists>r \<in> set (transfers (sagas w)). past t r" "decision_ok (ledger w) t d" using saga_invD(6) [OF inv mem] by auto
      then obtain r0 where r0: "r0 \<in> set (transfers (sagas w))" "past t r0" by blast
      have same_id: "t_ID (f t) = t_ID t" using ok(2) Fire by (auto simp: decision_ok_def keeps_def split: if_splits)
      have rows: "transfers db = map ?g (transfers (sagas w))"
        by (rule transitionTx_Inr [OF moved(2)]) (simp add: update_where_def)
      have "row_step r (?g r) \<and> row_ok (ledger w) (?g r)" if r: "r \<in> set (transfers (sagas w))" for r
      proof (cases "tr_ID r = t_ID (f t) \<and> tr_State r = t_State t")
        case True
        then have "r = r0"
          using r0 r same_id saga_invD(3) [OF inv] by (auto simp: past_def same_order_def distinct_map dest: inj_onD)
        then show ?thesis
          using True fire_row [OF _ _ ok(2) [unfolded Fire] moved(1) saga_invD(5) [OF inv r], where env = env] r0 by auto
      qed (use row_step_refl saga_invD(5) [OF inv r] in auto)
      then show ?thesis using that w' rows by blast
    qed
  qed (use none set in \<open>auto simp: settle_def\<close>)
qed

lemma saga_inv_fire:
  assumes "saga_inv (w, ws)" and "Decided t d \<in> set ws" and "settle env t d w = (res, w')"
  shows "saga_inv (w', ws)"
  by (rule settle_rows [OF assms]) (auto intro!: saga_inv_rows [OF assms(1)])

text \<open>A claim by recovery only touches the attempt counter and the time stamp.\<close>

lemma claimed_row:
  "row_step r (r\<lparr>tr_RecoveryAttempts := n, tr_UpdatedAt := now\<rparr>)"
  "row_ok l (r\<lparr>tr_RecoveryAttempts := n, tr_UpdatedAt := now\<rparr>) \<longleftrightarrow> row_ok l r"
proof -
  have "posting_specs (transferFromRow (r\<lparr>tr_RecoveryAttempts := n, tr_UpdatedAt := now\<rparr>)) = posting_specs (transferFromRow r)"
    by (rule posting_specs_cong) (simp_all add: transferFromRow_def)
  moreover have "past t (r\<lparr>tr_RecoveryAttempts := n, tr_UpdatedAt := now\<rparr>) = past t r" for t
    by (simp add: past_def same_order_def same_terms_def)
  ultimately show "row_step r (r\<lparr>tr_RecoveryAttempts := n, tr_UpdatedAt := now\<rparr>)"
    by (simp add: row_step_def)
qed (simp add: row_ok_def)

lemma claim_rows:
  assumes inv: "saga_inv (w, ws)" and claim: "store_ClaimStuck env locked states stale n (sagas w) = (res, db)"
  obtains g where "transfers db = map g (transfers (sagas w))"
    "\<And>r. r \<in> set (transfers (sagas w)) \<Longrightarrow> row_step r (g r) \<and> row_ok (ledger w) (g r)"
proof -
  let ?f = "\<lambda>t. t\<lparr>tr_RecoveryAttempts := tr_RecoveryAttempts t + 1, tr_UpdatedAt := env_now env\<rparr>"
  have "db = sagas w \<or> (\<exists>P. transfers db = update_where P ?f (transfers (sagas w)))"
    using WithTx_state [OF claim [unfolded store_ClaimStuck_def]]
    by (auto simp: q_ClaimStuck_def Let_def map_left_def split: if_splits)
  then obtain P where "transfers db = map (\<lambda>r. if P r then ?f r else r) (transfers (sagas w))"
    unfolding update_where_def by (elim disjE exE) (auto intro: that [of "\<lambda>_. False"] that)
  then show ?thesis by (rule that) (use saga_invD(5) [OF inv] claimed_row row_step_refl in simp)
qed

text \<open>A new transfer starts without a hold.\<close>

lemma createOrFind_rows:
  assumes "createOrFind sha env cmd db = (res, db')"
  shows "transfers db' = transfers db \<or> (\<exists>r. transfers db' = transfers db @ [r] \<and> tr_ID r \<notin> tr_ID ` set (transfers db)
     \<and> tr_State r = StateCreated \<and> tr_HoldID r = None)"
proof -
  have row: "transfers db1 = transfers db \<or> (\<exists>r. transfers db1 = transfers db @ [r] \<and> tr_ID r \<notin> tr_ID ` set (transfers db)
     \<and> tr_State r = StateCreated \<and> tr_HoldID r = None)" if "createTx sha env ident cmd db = Inr (x, db1)" for ident x db1
    using that
    by (auto simp: createTx_def Let_def tx_TryInsertIdempotencyKey_def q_TryInsertIdempotencyKey_def tx_InsertTransfer_def
        q_InsertTransfer_def tx_AppendEvent_def q_AppendTransferEvent_def map_left_def split: if_splits)
  have "db' = db \<or> (\<exists>ident r. transfer_WithinTx env (createTx sha env ident cmd) db = (r, db'))"
    using assms by (auto simp: createOrFind_def split: if_splits sum.splits prod.splits)
  then show ?thesis
  proof (elim disjE exE)
    fix ident r assume "transfer_WithinTx env (createTx sha env ident cmd) db = (r, db')"
    from WithTx_state [OF this [unfolded transfer_WithinTx_def]] show ?thesis using row by auto
  qed simp
qed

lemma saga_inv_create:
  assumes inv: "saga_inv (w, ws)" and cr: "createOrFind sha env cmd (sagas w) = (res, db)"
  shows "saga_inv (w\<lparr>sagas := db\<rparr>, ws)"
  using createOrFind_rows [OF cr]
proof (elim disjE exE conjE)
  fix r assume r: "transfers db = transfers (sagas w) @ [r]" "tr_ID r \<notin> tr_ID ` set (transfers (sagas w))"
    "tr_State r = StateCreated" "tr_HoldID r = None"
  have "row_ok (ledger w) r" using r by (simp add: row_ok_def known_state_def AllStates_def)
  moreover have "worker_ok (transfers (sagas w) @ [r]) (ledger w) x" if "worker_ok (transfers (sagas w)) (ledger w) x" for x
    using that by (cases x) auto
  moreover have "entry_owned (transfers (sagas w) @ [r]) (ledger w) k" if "entry_owned (transfers (sagas w)) (ledger w) k" for k
    using that by (auto simp: entry_owned_def)
  ultimately show ?thesis using inv r unfolding saga_inv_def by (simp add: Let_def)
qed (use inv in \<open>simp add: saga_inv_def Let_def\<close>)

section \<open>Every step keeps the invariant\<close>

lemma past_load: "row_ok l r \<Longrightarrow> past (transferFromRow r) r"
  by (auto simp: past_def row_ok_def same_order_def same_terms_def transferFromRow_def rank_def)

lemma saga_inv_hold:
  assumes inv: "saga_inv (w, ws)" and mem: "Loaded t \<in> set ws" and st: "t_State t = StateHeld"
    and snap: "committed_before snap (ledger w)" and ids: "uuids_ok env"
    and tx: "WithinTx env (placeHoldTx env snap ref (t_Amount t) (t_Currency t) referenceType (t_ID t) ttl) (ledger w) = (res, l)"
  shows "saga_inv (w\<lparr>ledger := l\<rparr>, ws @ (case res of Inr h \<Rightarrow> [Decided t (fire_hold (hold_ID h))] | Inl _ \<Rightarrow> []))"
proof -
  have step: "ledger_step (ledger w) l" by (rule ledger_step.hold [OF committed_beforeD(4) [OF snap] tx])
  have "quiet (ledger w) l" by (rule WithinTx_quiet [OF tx]) (rule placeHoldTx_quiet [OF _ ids])
  then have inv': "saga_inv (w\<lparr>ledger := l\<rparr>, ws)" by (rule saga_inv_quiet [OF inv step])
  show ?thesis
  proof (cases res)
    case (Inr h)
    have "transfer_hold l (t_ID t) (hold_ID h)" by (rule hold_answer [OF snap]) (use tx Inr in blast)
    then show ?thesis
      using saga_inv_worker [OF inv', of "Decided t (fire_hold (hold_ID h))"] saga_invD(6) [OF inv' mem] Inr
      by (auto simp: decision_ok_def fire_hold_def)
  qed (use inv' in simp)
qed

lemma saga_inv_post:
  assumes inv: "saga_inv (w, ws)" and mem: "Loaded t \<in> set ws" and st: "t_State t = StatePosting"
    and snap: "committed_before snap (ledger w)"
    and post: "PostTransaction env snap referenceType (t_ID t) (text_or_empty (t_HoldID t)) (posting_specs t) (ledger w) = (res, l)"
  shows "saga_inv (w\<lparr>ledger := l\<rparr>, ws @ (case res of Inr _ \<Rightarrow> [Decided t (Fire EvPosted (\<lambda>t. t) detail True)] | Inl _ \<Rightarrow> []))"
proof -
  obtain r where r: "r \<in> set (transfers (sagas w))" "past t r" using saga_invD(6) [OF inv mem] by auto
  then have "same_terms t r" "t_HoldID t \<noteq> None" using st by (simp_all add: past_def)
  then obtain h where h: "t_HoldID t = Some h" "tr_HoldID r = Some h" by (auto simp: same_terms_def)
  have "transfer_hold (ledger w) (tr_ID r) h" using saga_invD(5) [OF inv r(1)] h(2) by (simp add: row_ok_def)
  then have ne: "h \<noteq> ''''" using saga_invD(2) [OF inv] by (force simp: has_hold_def ids_ok_def)
  have specs: "posting_specs (transferFromRow r) = posting_specs t"
    using r(2) st by (intro posting_specs_cong) (auto simp: past_def same_order_def same_terms_def transferFromRow_def)
  have post': "PostTransaction env snap referenceType (t_ID t) h (posting_specs t) (ledger w) = (res, l)"
    using post h by (simp add: text_or_empty_def)
  note answer = post_answer [OF snap post' ne]
  have own: "recorded (ledger w) k \<or> entry_owned (transfers (sagas w)) l k" if "recorded l k" for k
    using answer(1) [OF that] r h specs st unfolding entry_owned_def by (auto simp: past_def same_order_def rank_def)
  have step: "ledger_step (ledger w) l" by (rule ledger_step.post [OF committed_beforeD(4) [OF snap] post])
  have inv': "saga_inv (w\<lparr>ledger := l\<rparr>, ws)"
    by (rule saga_inv_ledger [OF inv step]) (use answer(3) saga_invD(2) [OF inv] own in auto)
  show ?thesis
  proof (cases res)
    case (Inr v)
    then show ?thesis
      using saga_inv_worker [OF inv', of "Decided t (Fire EvPosted (\<lambda>t. t) detail True)"] saga_invD(6) [OF inv' mem] answer(2)
      by (auto simp: decision_ok_def keeps_def)
  qed (use inv' in simp)
qed

lemma saga_inv_release:
  assumes inv: "saga_inv (w, ws)" and mem: "Loaded t \<in> set ws" and st: "t_State t = StateReleasing" and h: "t_HoldID t = Some h"
    and rel: "ReleaseHold env h (ledger w) = (res, l)"
  shows "saga_inv (w\<lparr>ledger := l\<rparr>, ws @ (if \<forall>err. res = Inl err \<longrightarrow> CodeOf err = CodeNotFound
      then [Decided t (Fire EvReleased (\<lambda>t. t) None True)] else []))"
proof -
  have inv': "saga_inv (w\<lparr>ledger := l\<rparr>, ws)"
    by (rule saga_inv_quiet [OF inv ledger_step.release [OF rel] ReleaseHold_quiet [OF rel]])
  obtain r where r: "r \<in> set (transfers (sagas w))" "past t r" using saga_invD(6) [OF inv mem] by auto
  then have "tr_HoldID r = Some h" "tr_ID r = t_ID t" using st h by (auto simp: past_def same_terms_def same_order_def)
  then have "transfer_hold (ledger w) (t_ID t) h" using saga_invD(5) [OF inv r(1)] by (simp add: row_ok_def)
  note answer = release_answer [OF reachable_inv [OF saga_invD(1) [OF inv]] rel this]
  show ?thesis
  proof (cases "\<exists>x. res = Inr x")
    case True
    then have "released l (t_ID t) h" using answer(1) by blast
    then show ?thesis
      using saga_inv_worker [OF inv', of "Decided t (Fire EvReleased (\<lambda>t. t) None True)"] saga_invD(6) [OF inv' mem] True h
      by (auto simp: decision_ok_def keeps_def)
  next
    case False
    then obtain err where "res = Inl err" by (cases res) auto
    then show ?thesis using inv' answer(2) by simp
  qed
qed

lemma saga_step_inv: "saga_step c c' \<Longrightarrow> saga_inv c \<Longrightarrow> saga_inv c'"
proof (induction rule: saga_step.induct)
  case (client w l ws)
  then show ?case by (intro saga_inv_quiet) (auto intro: client_step_ledger client_step_quiet)
next
  case (load w k t ws)
  then obtain r where "r \<in> set (transfers (sagas w))" "t = transferFromRow r"
    by (auto simp: store_GetTransfer_Inr dest: select_one_Some)
  then show ?case using load.prems past_load saga_invD(5) [OF load.prems] by (intro saga_inv_worker) auto
next
  case (give_up t ws e f w detail b)
  then show ?case using saga_invD(6) [OF give_up.prems give_up(1)]
    by (intro saga_inv_worker) (auto simp: decision_ok_def unconfirmed_def)
next
  case (probe t ws w v detail)
  then show ?case
    using saga_invD(6) [OF probe.prems probe(1)] probe_answer [OF reachable_inv [OF saga_invD(1) [OF probe.prems]]]
    by (intro saga_inv_worker) (auto simp: decision_ok_def keeps_def)
next
  case (release_none t ws w)
  then show ?case using saga_invD(6) [OF release_none.prems release_none(1)]
    by (intro saga_inv_worker) (auto simp: decision_ok_def keeps_def)
next
  case (cleanup w ws now)
  then show ?case by (simp add: saga_inv_def Let_def CleanupIdempotencyKeys_def q_DeleteExpiredIdempotencyKeys_def)
next
  case (publish env locked produce w log res t log' ws)
  then show ?case by (simp add: saga_inv_def Let_def)
next
  case (claim env locked states stale n w res db ws)
  show ?case by (rule claim_rows [OF claim(2,1)]) (rule saga_inv_rows [OF claim(2)])
qed (blast intro: saga_inv_create saga_inv_hold saga_inv_post saga_inv_release saga_inv_fire)+

lemma saga_steps_inv: "saga_step\<^sup>*\<^sup>* c c' \<Longrightarrow> saga_inv c \<Longrightarrow> saga_inv c'"
  by (induction rule: rtranclp_induct) (auto intro: saga_step_inv)

lemma saga_inv_initial: "saga_inv (\<lparr>sagas = initial_transfer_db, ledger = initial_db now\<rparr>, [])"
  by (auto simp: saga_inv_def Let_def initial_transfer_db_def ledger_reachable_def ids_ok_def recorded_def initial_db_def)

lemma saga_reachable_inv: "saga_reachable c \<Longrightarrow> saga_inv c"
  unfolding saga_reachable_def using saga_steps_inv saga_inv_initial by blast

section \<open>The life of a transfer\<close>

lemma saga_step_rows:
  assumes "saga_step c c'" and "saga_inv c" and "r \<in> set (transfers (sagas (fst c)))"
  shows "\<exists>r' \<in> set (transfers (sagas (fst c'))). row_step r r'"
  using assms
proof (induction rule: saga_step.induct)
  case (create sha env cmd w res db ws)
  then have "r \<in> set (transfers db)" using createOrFind_rows [OF create(1)] by auto
  then show ?case using row_step_refl by auto
next
  case (claim env locked states stale n w res db ws)
  show ?case by (rule claim_rows [OF claim(2,1)]) (use claim(3) in auto)
next
  case (fire t d ws env w res w')
  show ?case by (rule settle_rows [OF fire(3,1,2)]) (use fire(4) in auto)
qed (auto intro: row_step_refl simp: CleanupIdempotencyKeys_def q_DeleteExpiredIdempotencyKeys_def)

lemma row_step_trans: "row_step r r1 \<Longrightarrow> row_step r1 r2 \<Longrightarrow> row_step r r2"
  by (simp add: row_step_def)

lemma saga_steps_rows:
  assumes "saga_step\<^sup>*\<^sup>* c c'" and "saga_inv c" and "r \<in> set (transfers (sagas (fst c)))"
  shows "\<exists>r' \<in> set (transfers (sagas (fst c'))). row_step r r'"
  using assms
proof (induction rule: rtranclp_induct)
  case (step c1 c2)
  then show ?case using saga_step_rows saga_steps_inv row_step_trans by meson
qed (blast intro: row_step_refl)

text \<open>A terminal transfer keeps its state, its hold and its legs.\<close>

lemma terminal_kept:
  assumes "saga_step\<^sup>*\<^sup>* c c'" and "saga_inv c" and "r \<in> set (transfers (sagas (fst c)))" and "IsTerminal (tr_State r)"
  obtains r' where "r' \<in> set (transfers (sagas (fst c')))" "tr_ID r' = tr_ID r" "tr_State r' = tr_State r" "tr_HoldID r' = tr_HoldID r"
    "posting_specs (transferFromRow r') = posting_specs (transferFromRow r)"
proof -
  obtain r' where r': "r' \<in> set (transfers (sagas (fst c')))" "row_step r r'" using saga_steps_rows [OF assms(1-3)] by blast
  have "row_ok (ledger (fst c)) r" using assms(2,3) saga_invD(5) by (metis prod.collapse)
  then have "past (transferFromRow r) r'" using past_load r'(2) unfolding row_step_def by blast
  then have "tr_State r' = tr_State r" using assms(4) by (simp add: past_def)
  moreover have "3 \<le> rank (tr_State r)" using assms(4) by (auto simp: IsTerminal_def rank_def)
  ultimately show ?thesis using that r' by (simp add: row_step_def)
qed

text \<open>What a terminal state says, in one configuration.\<close>

lemma completed_facts:
  assumes inv: "saga_inv (w, ws)" and r: "r \<in> set (transfers (sagas w))" "tr_State r = StateCompleted"
  shows "entry_for (ledger w) (tr_ID r) (posting_specs (transferFromRow r)) \<and> (\<exists>h. tr_HoldID r = Some h \<and> captured (ledger w) (tr_ID r) h)"
proof -
  have "recorded (ledger w) (tr_ID r)" using saga_invD(5) [OF inv r(1)] r(2) by (simp add: row_ok_def)
  then obtain r2 h where r2: "r2 \<in> set (transfers (sagas w))" "tr_ID r2 = tr_ID r" "tr_HoldID r2 = Some h"
    "captured (ledger w) (tr_ID r) h" "entry_for (ledger w) (tr_ID r) (posting_specs (transferFromRow r2))"
    by (rule entry_ownedE [OF saga_invD(4) [OF inv]])
  then show ?thesis using saga_row_unique [OF inv r2(1) r(1)] by simp
qed

lemma failed_facts:
  assumes inv: "saga_inv (w, ws)" and r: "r \<in> set (transfers (sagas w))" "tr_State r = StateFailed"
  shows "\<not> recorded (ledger w) (tr_ID r) \<and> (\<forall>h. tr_HoldID r = Some h \<longrightarrow> released (ledger w) (tr_ID r) h)"
proof -
  have rel: "\<forall>h. tr_HoldID r = Some h \<longrightarrow> released (ledger w) (tr_ID r) h"
    using saga_invD(5) [OF inv r(1)] r by (simp add: row_ok_def)
  have "\<not> recorded (ledger w) (tr_ID r)"
  proof
    assume "recorded (ledger w) (tr_ID r)"
    then obtain r2 h where "r2 \<in> set (transfers (sagas w))" "tr_ID r2 = tr_ID r" "tr_HoldID r2 = Some h" "captured (ledger w) (tr_ID r) h"
      by (rule entry_ownedE [OF saga_invD(4) [OF inv]])
    moreover from this have "r2 = r" using saga_row_unique [OF inv _ r(1)] by simp
    ultimately show False using rel captured_not_released [OF reachable_inv [OF saga_invD(1) [OF inv]]] by auto
  qed
  then show ?thesis using rel by simp
qed

lemma terminal_later:
  assumes "saga_reachable c" and "saga_step\<^sup>*\<^sup>* c (w', ws')" and "r \<in> set (transfers (sagas (fst c)))" and "IsTerminal (tr_State r)"
  obtains r' where "saga_inv (w', ws')" "r' \<in> set (transfers (sagas w'))" "tr_ID r' = tr_ID r" "tr_State r' = tr_State r" "tr_HoldID r' = tr_HoldID r"
    "posting_specs (transferFromRow r') = posting_specs (transferFromRow r)"
  using terminal_kept [OF assms(2) saga_reachable_inv [OF assms(1)] assms(3,4)] saga_steps_inv [OF assms(2) saga_reachable_inv [OF assms(1)]]
  by (metis fst_conv)

text \<open>
  C1. A completed transfer has moved the money: whatever the interleaving of workers, retries, crashes
  and lost answers, when a transfer is \<open>COMPLETED\<close> the ledger has an entry for it, now and at every later time,
  whose legs are exactly those of the transfer, and its hold is captured.
\<close>

theorem saga_completed_posted:
  assumes "saga_reachable c" and "saga_step\<^sup>*\<^sup>* c c'" and "r \<in> set (transfers (sagas (fst c)))" and "tr_State r = StateCompleted"
  shows "entry_for (ledger (fst c')) (tr_ID r) (posting_specs (transferFromRow r))
     \<and> (\<exists>h. tr_HoldID r = Some h \<and> captured (ledger (fst c')) (tr_ID r) h)"
proof -
  obtain w' ws' where c': "c' = (w', ws')" by fastforce
  have "IsTerminal (tr_State r)" using assms(4) by (simp add: IsTerminal_def)
  then obtain r' where r': "saga_inv (w', ws')" "r' \<in> set (transfers (sagas w'))" "tr_ID r' = tr_ID r" "tr_State r' = StateCompleted"
    "tr_HoldID r' = tr_HoldID r" "posting_specs (transferFromRow r') = posting_specs (transferFromRow r)"
    using terminal_later assms c' by metis
  then show ?thesis using completed_facts [OF r'(1,2,4)] c' by simp
qed


text \<open>
  C6. Money moves only for a transfer: every journal entry the ledger has under a transfer reference belongs to
  exactly one transfer, which is posting, completed or releasing, and whose captured hold and legs it has.
\<close>

theorem saga_entry_owned:
  assumes "saga_reachable c" and "recorded (ledger (fst c)) k"
  shows "\<exists>!r. r \<in> set (transfers (sagas (fst c))) \<and> tr_ID r = k
     \<and> tr_State r \<in> {StatePosting, StateCompleted, StateReleasing}
     \<and> (\<exists>h. tr_HoldID r = Some h \<and> captured (ledger (fst c)) k h)
     \<and> entry_for (ledger (fst c)) k (posting_specs (transferFromRow r))"
proof -
  obtain w ws where c: "c = (w, ws)" by fastforce
  then have inv: "saga_inv (w, ws)" using saga_reachable_inv assms(1) by simp
  obtain r h where r: "r \<in> set (transfers (sagas w))" "tr_ID r = k" "3 \<le> rank (tr_State r)" "tr_HoldID r = Some h" "captured (ledger w) k h"
    "entry_for (ledger w) k (posting_specs (transferFromRow r))"
    using assms(2) c by (auto elim: entry_ownedE [OF saga_invD(4) [OF inv]])
  have "tr_State r \<noteq> StateFailed"
    using saga_invD(5) [OF inv r(1)] r captured_not_released [OF reachable_inv [OF saga_invD(1) [OF inv]]] by (auto simp: row_ok_def)
  then have "tr_State r \<in> {StatePosting, StateCompleted, StateReleasing}"
    using r(3) by (cases "tr_State r") (auto simp: rank_def)
  then show ?thesis
    using r c saga_invD(3) [OF inv] by (intro ex1I [of _ r]) (auto simp: distinct_map dest: inj_onD)
qed

end
