(* ===== verification/Saga_Drive.thy ===== *)
theory Saga_Drive
  imports Saga_Safety
begin

text \<open>
  The code runs the protocol: every run of \<open>Drive\<close>, \<open>CreateTransfer\<close> and the recovery worker, with any
  interference, any retries and any failures, is a run of the protocol of \<open>Saga\<close>, so its
  guarantees are guarantees of the code.
\<close>

section \<open>Admissible inputs\<close>

text \<open>
  The others follow the protocol; the transport only fails with codes a transport can fail
  with; snapshots are committed states; identifiers are not empty.
\<close>

definition reaches :: "bank \<times> worker list \<Rightarrow> bank \<Rightarrow> worker set \<Rightarrow> bool" where
  "reaches c w facts \<longleftrightarrow> (\<exists>ws. saga_step\<^sup>*\<^sup>* c (w, ws) \<and> facts \<subseteq> set ws)"

definition others_ok :: "(bank \<Rightarrow> bank) \<Rightarrow> bool" where
  "others_ok f \<longleftrightarrow> (\<forall>w ws. saga_inv (w, ws) \<longrightarrow> reaches (w, ws) (f w) {})"

definition attempt_ok :: "hold_attempt \<Rightarrow> bool" where
  "attempt_ok a \<longleftrightarrow> others_ok (\<lambda>w. w\<lparr>ledger := at_others a (ledger w)\<rparr>)
     \<and> (\<forall>l. ledger_reachable l \<longrightarrow> committed_before (at_snap a l) l) \<and> uuids_ok (at_env a)"

definition call_ok :: "ledger_call \<Rightarrow> bool" where
  "call_ok c \<longleftrightarrow> fate_ok (lc_fate c) \<and> (\<forall>a \<in> set (lc_first c # lc_more c). attempt_ok a)"

definition env_ok :: "drive_env \<Rightarrow> bool" where
  "env_ok env \<longleftrightarrow> others_ok (de_before env) \<and> others_ok (de_between env) \<and> others_ok (de_after env)
     \<and> (\<forall>c \<in> set (de_call env # de_retries env). call_ok c)"

lemma call_okD:
  assumes "call_ok c"
  shows "fate_ok (lc_fate c)" "attempt_ok (lc_first c)" "a \<in> set (lc_more c) \<Longrightarrow> attempt_ok a"
  using assms by (simp_all add: call_ok_def)

lemma env_okD:
  assumes "env_ok env"
  shows "others_ok (de_before env)" "others_ok (de_between env)" "others_ok (de_after env)"
    "\<forall>c \<in> set (de_call env # de_retries env). call_ok c"
  using assms by (simp_all add: env_ok_def)

section \<open>Composing runs\<close>

lemma saga_step_workers: "saga_step c c' \<Longrightarrow> set (snd c) \<subseteq> set (snd c')"
  by (induction rule: saga_step.induct) auto

lemma saga_steps_workers: "saga_step\<^sup>*\<^sup>* c c' \<Longrightarrow> set (snd c) \<subseteq> set (snd c')"
  by (induction rule: rtranclp_induct) (auto dest: saga_step_workers)

lemma reaches_refl [simp]: "facts \<subseteq> set ws \<Longrightarrow> reaches (w, ws) w facts"
  by (auto simp: reaches_def)

lemma reaches_mono: "reaches c w F \<Longrightarrow> G \<subseteq> F \<Longrightarrow> reaches c w G"
  by (auto simp: reaches_def)

lemma reaches_step:
  assumes "saga_step (w, ws) (w', ws')" and "F \<subseteq> set ws'"
  shows "reaches (w, ws) w' F"
  using assms by (auto simp: reaches_def)

lemma reaches_cons: "saga_step c c1 \<Longrightarrow> reaches c1 w F \<Longrightarrow> reaches c w F"
  unfolding reaches_def by (meson converse_rtranclp_into_rtranclp)

lemma reaches_bind:
  assumes "reaches c w F" and "saga_inv c"
    and "\<And>ws. saga_inv (w, ws) \<Longrightarrow> F \<subseteq> set ws \<Longrightarrow> saga_step\<^sup>*\<^sup>* c (w, ws) \<Longrightarrow> reaches (w, ws) w' G"
  shows "reaches c w' (F \<union> G)"
proof -
  obtain ws where ws: "saga_step\<^sup>*\<^sup>* c (w, ws)" "F \<subseteq> set ws" using assms(1) by (auto simp: reaches_def)
  have "reaches (w, ws) w' G" by (rule assms(3) [OF saga_steps_inv [OF ws(1) assms(2)] ws(2,1)])
  then obtain ws' where ws': "saga_step\<^sup>*\<^sup>* (w, ws) (w', ws')" "G \<subseteq> set ws'" by (auto simp: reaches_def)
  have "F \<subseteq> set ws'" using saga_steps_workers [OF ws'(1)] ws(2) by auto
  then show ?thesis using rtranclp_trans [OF ws(1) ws'(1)] ws'(2) by (auto simp: reaches_def)
qed

lemma others_reach: "others_ok f \<Longrightarrow> saga_inv (w, ws) \<Longrightarrow> F \<subseteq> set ws \<Longrightarrow> reaches (w, ws) (f w) F"
  unfolding others_ok_def reaches_def using saga_steps_workers by fastforce

lemma attempt_reach:
  assumes "attempt_ok a" "saga_inv (w, ws)" "F \<subseteq> set ws"
  shows "reaches (w, ws) (w\<lparr>ledger := at_others a (ledger w)\<rparr>) F"
  using others_reach [of "\<lambda>w. w\<lparr>ledger := at_others a (ledger w)\<rparr>"] assms unfolding attempt_ok_def by blast

lemma attempt_snap:
  assumes "attempt_ok a" "saga_inv (w, ws)"
  shows "committed_before (at_snap a (ledger w)) (ledger w)"
  using assms saga_invD(1) by (auto simp: attempt_ok_def)

section \<open>The ledger calls\<close>

text \<open>
  A call of a worker that has loaded \<open>t\<close>: whatever the network does, the protocol reaches the
  ledger it leaves, and an answer of the ledger justifies the decision \<open>dec\<close> on it.
\<close>

definition serves :: "Transfer \<Rightarrow> ('a \<Rightarrow> decision) \<Rightarrow> (ledger_err \<Rightarrow> bool) \<Rightarrow> (ledger_db \<Rightarrow> (ledger_err + 'a) \<times> ledger_db) \<Rightarrow> bool" where
  "serves t dec errs handler \<longleftrightarrow> (\<forall>w ws res l. saga_inv (w, ws) \<longrightarrow> Loaded t \<in> set ws \<longrightarrow> handler (ledger w) = (res, l)
     \<longrightarrow> reaches (w, ws) (w\<lparr>ledger := l\<rparr>) (case res of Inr x \<Rightarrow> {Decided t (dec x)} | Inl _ \<Rightarrow> {})
       \<and> (\<forall>err. res = Inl err \<longrightarrow> errs err))"

lemma ledger_rpc_serves:
  assumes inv: "saga_inv (w, ws)" and mem: "Loaded t \<in> set ws" and ok: "\<forall>c' \<in> set (c # cs). call_ok c'"
    and serves: "\<forall>c' \<in> set (c # cs). serves t dec errs (handler c')"
    and call: "ledger_rpc handler c cs (ledger w) = (res, l)"
  shows "reaches (w, ws) (w\<lparr>ledger := l\<rparr>) (case res of Inr x \<Rightarrow> {Decided t (dec x)} | Inl _ \<Rightarrow> {})
    \<and> (\<forall>err. res = Inl err \<longrightarrow> (\<exists>e. errs e \<and> err = wire_err e) \<or> (\<exists>k m. library_code k \<and> err = transport_error k m))"
proof -
  let ?P = "\<lambda>l. reaches (w, ws) (w\<lparr>ledger := l\<rparr>) {}"
  let ?facts = "\<lambda>res. case res of Inr x \<Rightarrow> {Decided t (dec x)} | Inl _ \<Rightarrow> {}"
  let ?Q = "\<lambda>res l. reaches (w, ws) (w\<lparr>ledger := l\<rparr>) (?facts res)
    \<and> (\<forall>err. res = Inl err \<longrightarrow> (\<exists>e. errs e \<and> err = wire_err e) \<or> (\<exists>k m. library_code k \<and> err = transport_error k m))"
  have handled: "reaches (w, ws) (w\<lparr>ledger := l2\<rparr>) (?facts res2) \<and> (\<forall>err. res2 = Inl err \<longrightarrow> errs err)"
    if "c' \<in> set (c # cs)" "?P l1" "handler c' l1 = (res2, l2)" for c' l1 res2 l2
  proof -
    have "reaches (w\<lparr>ledger := l1\<rparr>, ws1) (w\<lparr>ledger := l2\<rparr>) (?facts res2) \<and> (\<forall>err. res2 = Inl err \<longrightarrow> errs err)"
      if "saga_inv (w\<lparr>ledger := l1\<rparr>, ws1)" "saga_step\<^sup>*\<^sup>* (w, ws) (w\<lparr>ledger := l1\<rparr>, ws1)" for ws1
      using bspec [OF serves \<open>c' \<in> set (c # cs)\<close>, unfolded serves_def, rule_format, of "w\<lparr>ledger := l1\<rparr>" ws1 res2 l2]
        saga_steps_workers [OF that(2)] mem that(1) \<open>handler c' l1 = _\<close> by auto
    moreover obtain ws1 where "saga_step\<^sup>*\<^sup>* (w, ws) (w\<lparr>ledger := l1\<rparr>, ws1)" using \<open>?P l1\<close> by (auto simp: reaches_def)
    ultimately show ?thesis using reaches_bind [OF \<open>?P l1\<close> inv, of "w\<lparr>ledger := l2\<rparr>" "?facts res2"] saga_steps_inv [OF _ inv] by auto
  qed
  have step: "?Q res2 l2" if "c' \<in> set (c # cs)" "?P l1" "invoke (lc_fate c') (handler c') l1 = (res2, l2)" for c' l1 res2 l2
  proof -
    obtain r h where h: "handler c' l1 = (r, h)" by fastforce
    have "fate_ok (lc_fate c')" using ok that(1) call_okD(1) by blast
    moreover have "library_code Unavailable" by (simp add: library_code_def)
    ultimately show ?thesis
      using handled [OF that(1,2) h] that(2,3) h
      by (cases "lc_fate c'"; cases r) (auto simp: invoke_def fate_ok_def map_left_def intro: reaches_mono)
  qed
  have "?P (ledger w)" by simp
  then have "?P l \<and> ?Q res l"
    by (rule retryInterceptor_invariant [OF call [unfolded ledger_rpc_def]]) (use step in \<open>blast intro: reaches_mono\<close>)+
  then show ?thesis by blast
qed

text \<open>The handlers of the ledger that the saga calls.\<close>

lemma servesI:
  assumes "\<And>w ws res l. saga_inv (w, ws) \<Longrightarrow> Loaded t \<in> set ws \<Longrightarrow> handler (ledger w) = (res, l)
    \<Longrightarrow> reaches (w, ws) (w\<lparr>ledger := l\<rparr>) (case res of Inr x \<Rightarrow> {Decided t (dec x)} | Inl _ \<Rightarrow> {}) \<and> (\<forall>err. res = Inl err \<longrightarrow> errs err)"
  shows "serves t dec errs handler"
  using assms unfolding serves_def by blast

text \<open>One attempt: the others move, then the ledger executes one step of the protocol.\<close>

lemma attempt_then:
  assumes inv: "saga_inv (w, ws)" and mem: "Loaded t \<in> set ws" and ok: "attempt_ok a"
    and step: "\<And>ws1. saga_inv (w\<lparr>ledger := at_others a (ledger w)\<rparr>, ws1) \<Longrightarrow> Loaded t \<in> set ws1
      \<Longrightarrow> reaches (w\<lparr>ledger := at_others a (ledger w)\<rparr>, ws1) (w\<lparr>ledger := l\<rparr>) F"
  shows "reaches (w, ws) (w\<lparr>ledger := l\<rparr>) F"
  using reaches_bind [OF attempt_reach [OF ok inv, of "{Loaded t}"] inv, of "w\<lparr>ledger := l\<rparr>" F] mem step
  by (auto intro: reaches_mono)

lemma attempt_inv:
  assumes "saga_inv (w, ws)" and "Loaded t \<in> set ws" and "attempt_ok a"
  obtains ws1 where "saga_inv (w\<lparr>ledger := at_others a (ledger w)\<rparr>, ws1)" "Loaded t \<in> set ws1"
  using attempt_reach [OF assms(3,1), of "{Loaded t}"] assms(2) saga_steps_inv [OF _ assms(1)]
  unfolding reaches_def by auto

lemma PlaceHold_reaches:
  assumes "saga_inv (w, ws)" and "Loaded t \<in> set ws" and st: "t_State t = StateHeld" and "\<forall>a \<in> set as. attempt_ok a"
    and "PlaceHold dflt as (refFromProto (toProtoRef (sourceRef t))) (t_Amount t) (t_Currency t) referenceType (t_ID t) ttl (ledger w) = (res, l)"
  shows "reaches (w, ws) (w\<lparr>ledger := l\<rparr>) (case res of Some (Inr h) \<Rightarrow> {Decided t (fire_hold (hold_ID h))} | _ \<Rightarrow> {})"
  using assms(1,2,4,5)
proof (induction as arbitrary: w ws ttl)
  case Nil
  then have "res = None" "l = ledger w" by simp_all
  then show ?case by simp
next
  case (Cons a as)
  let ?w = "w\<lparr>ledger := at_others a (ledger w)\<rparr>" and ?ttl = "if ttl \<le>s 0 then dflt else ttl"
  show ?case
  proof (cases "t_ID t = ''''")
    case False
    have a: "attempt_ok a" using Cons.prems(3) by simp
    obtain r l1 where tx: "WithinTx (at_env a) (placeHoldTx (at_env a) (at_snap a (ledger ?w)) (refFromProto (toProtoRef (sourceRef t)))
      (t_Amount t) (t_Currency t) referenceType (t_ID t) ?ttl) (ledger ?w) = (r, l1)" by fastforce
    show ?thesis
    proof (rule attempt_then [OF Cons.prems(1,2) a])
      fix ws1 assume ws1: "saga_inv (?w, ws1)" "Loaded t \<in> set ws1"
      have uu: "uuids_ok (at_env a)" using a by (simp add: attempt_ok_def)
      have step: "saga_step (?w, ws1) (?w\<lparr>ledger := l1\<rparr>, ws1 @ (case r of Inr h \<Rightarrow> [Decided t (fire_hold (hold_ID h))] | Inl _ \<Rightarrow> []))"
        by (rule saga_step.hold [OF ws1(2) st attempt_snap [OF a ws1(1)] uu tx])
      show "reaches (?w, ws1) (w\<lparr>ledger := l\<rparr>) (case res of Some (Inr h) \<Rightarrow> {Decided t (fire_hold (hold_ID h))} | _ \<Rightarrow> {})"
      proof (cases "\<exists>err. r = Inl err \<and> errors_Is err ErrRefConflict")
        case True
        then have "PlaceHold dflt as (refFromProto (toProtoRef (sourceRef t))) (t_Amount t) (t_Currency t) referenceType (t_ID t) ?ttl
            (ledger (w\<lparr>ledger := l1\<rparr>)) = (res, l)" using Cons.prems(4) False tx by (auto simp: Let_def)
        from Cons.IH [OF _ _ _ this] have "reaches (w\<lparr>ledger := l1\<rparr>, ws1) (w\<lparr>ledger := l\<rparr>)
            (case res of Some (Inr h) \<Rightarrow> {Decided t (fire_hold (hold_ID h))} | _ \<Rightarrow> {})"
          using saga_step_inv [OF step ws1(1)] ws1(2) Cons.prems(3) True by auto
        then show ?thesis using reaches_cons step True by fastforce
      next
        case False
        then have "res = Some (map_left toAppErr r) \<and> l = l1"
          using Cons.prems(4) \<open>t_ID t \<noteq> ''''\<close> tx by (auto simp: Let_def map_left_def split: sum.splits)
        then show ?thesis by (intro reaches_step) (use step in \<open>auto simp: map_left_def split: sum.splits\<close>)
      qed
    qed
  qed (use Cons.prems in auto)
qed

lemma serves_hold:
  assumes "t_State t = StateHeld" and "call_ok c"
  shows "serves t (\<lambda>h. fire_hold (hm_Id h)) (\<lambda>_. True) (exec_PlaceHold ttl (sourceRef t) (t_Amount t) (t_Currency t) (t_ID t) c)"
proof (rule servesI)
  fix w ws res l
  assume a: "saga_inv (w, ws)" "Loaded t \<in> set ws"
    "exec_PlaceHold ttl (sourceRef t) (t_Amount t) (t_Currency t) (t_ID t) c (ledger w) = (res, l)"
  obtain r where r: "PlaceHold ttl (lc_first c # lc_more c) (refFromProto (toProtoRef (sourceRef t))) (t_Amount t) (t_Currency t)
      referenceType (t_ID t) (0 * time_Second) (ledger w) = (r, l)"
    and res: "res = (case r of None \<Rightarrow> Inl (transport_error DeadlineExceeded ''deadline exceeded'') | Some x \<Rightarrow> grpc_edge holdToProto x)"
    using a(3) unfolding exec_PlaceHold_def server_PlaceHold_def by (auto split: prod.splits option.splits)
  have "\<forall>a \<in> set (lc_first c # lc_more c). attempt_ok a" using assms(2) by (simp add: call_ok_def)
  from PlaceHold_reaches [OF a(1,2) assms(1) this r]
  show "reaches (w, ws) (w\<lparr>ledger := l\<rparr>) (case res of Inr x \<Rightarrow> {Decided t (fire_hold (hm_Id x))} | Inl _ \<Rightarrow> {}) \<and> (\<forall>err. res = Inl err \<longrightarrow> True)"
    by (simp add: res grpc_edge_def holdToProto_def split: option.splits sum.splits)
qed

lemma serves_post:
  assumes st: "t_State t = StatePosting" and ok: "call_ok c"
  shows "serves t (\<lambda>_. Fire EvPosted (\<lambda>t. t) None True) (\<lambda>_. True)
    (exec_PostTransaction (t_ID t) (text_or_empty (t_HoldID t)) (buildPostings t) c)"
proof (rule servesI)
  fix w ws res l
  assume a: "saga_inv (w, ws)" "Loaded t \<in> set ws"
    "exec_PostTransaction (t_ID t) (text_or_empty (t_HoldID t)) (buildPostings t) c (ledger w) = (res, l)"
  let ?a = "lc_first c"
  let ?w = "w\<lparr>ledger := at_others ?a (ledger w)\<rparr>"
  have "map (\<lambda>(ref, amount). \<lparr>spec_Ref = refFromProto ref, spec_Amount = MinorUnits amount, spec_Currency = MoneyCurrency amount\<rparr>)
      (map (\<lambda>p. (toProtoRef (lp_Ref p), \<lparr>MinorUnits = lp_Amount p, MoneyCurrency = lp_Currency p\<rparr>)) (buildPostings t)) = posting_specs t"
    by (simp add: posting_specs_def)
  then obtain r where r: "PostTransaction (at_env ?a) (at_snap ?a (ledger ?w)) referenceType (t_ID t) (text_or_empty (t_HoldID t))
      (posting_specs t) (ledger ?w) = (r, l)" and res: "res = grpc_edge server_entryToProto r"
    using a(3) unfolding exec_PostTransaction_def server_PostTransaction_def Let_def by (auto split: prod.splits)
  have "reaches (w, ws) (w\<lparr>ledger := l\<rparr>) (case r of Inr _ \<Rightarrow> {Decided t (Fire EvPosted (\<lambda>t. t) None True)} | Inl _ \<Rightarrow> {})"
  proof (rule attempt_then [OF a(1,2) call_okD(2) [OF ok]])
    fix ws1 assume ws1: "saga_inv (?w, ws1)" "Loaded t \<in> set ws1"
    from saga_step.post [OF ws1(2) st attempt_snap [OF call_okD(2) [OF ok] ws1(1)] r, where detail = None]
    show "reaches (?w, ws1) (w\<lparr>ledger := l\<rparr>) (case r of Inr _ \<Rightarrow> {Decided t (Fire EvPosted (\<lambda>t. t) None True)} | Inl _ \<Rightarrow> {})"
      by (intro reaches_step) (auto split: sum.splits)
  qed
  then show "reaches (w, ws) (w\<lparr>ledger := l\<rparr>) (case res of Inr x \<Rightarrow> {Decided t (Fire EvPosted (\<lambda>t. t) None True)} | Inl _ \<Rightarrow> {})
      \<and> (\<forall>err. res = Inl err \<longrightarrow> True)"
    by (simp add: res grpc_edge_def split: sum.splits)
qed

lemma serves_probe:
  assumes st: "t_State t = StatePosting" and ok: "call_ok c"
  shows "serves t (\<lambda>_. Fire EvPosted (\<lambda>t. t) detail True) (\<lambda>_. True) (exec_GetTransactionByReference (t_ID t) c)"
proof (rule servesI)
  fix w ws res l
  assume a: "saga_inv (w, ws)" "Loaded t \<in> set ws" "exec_GetTransactionByReference (t_ID t) c (ledger w) = (res, l)"
  let ?w = "w\<lparr>ledger := at_others (lc_first c) (ledger w)\<rparr>"
  have l: "l = ledger ?w" and res: "res = grpc_edge server_entryToProto (GetTransactionByReference (ledger ?w) referenceType (t_ID t))"
    using a(3) by (auto simp: exec_GetTransactionByReference_def server_GetTransactionByReference_def Let_def)
  have "reaches (w, ws) (w\<lparr>ledger := l\<rparr>) (case res of Inr x \<Rightarrow> {Decided t (Fire EvPosted (\<lambda>t. t) detail True)} | Inl _ \<Rightarrow> {})"
  proof (rule attempt_then [OF a(1,2) call_okD(2) [OF ok]])
    fix ws1 assume ws1: "saga_inv (?w, ws1)" "Loaded t \<in> set ws1"
    show "reaches (?w, ws1) (w\<lparr>ledger := l\<rparr>) (case res of Inr x \<Rightarrow> {Decided t (Fire EvPosted (\<lambda>t. t) detail True)} | Inl _ \<Rightarrow> {})"
    proof (cases "GetTransactionByReference (ledger ?w) referenceType (t_ID t)")
      case (Inr v)
      from saga_step.probe [OF ws1(2) st Inr, where detail = detail] show ?thesis
        by (intro reaches_step) (auto simp: res l grpc_edge_def split: sum.splits)
    qed (simp add: res l grpc_edge_def)
  qed
  then show "reaches (w, ws) (w\<lparr>ledger := l\<rparr>) (case res of Inr x \<Rightarrow> {Decided t (Fire EvPosted (\<lambda>t. t) detail True)} | Inl _ \<Rightarrow> {})
      \<and> (\<forall>err. res = Inl err \<longrightarrow> True)" by simp
qed

lemma loaded_hold:
  assumes "saga_inv (w, ws)" and "Loaded t \<in> set ws" and "t_State t = StateReleasing" and "t_HoldID t = Some h"
  shows "transfer_hold (ledger w) (t_ID t) h"
proof -
  obtain r where r: "r \<in> set (transfers (sagas w))" "past t r" using saga_invD(6) [OF assms(1,2)] by auto
  then have "tr_HoldID r = Some h" "tr_ID r = t_ID t" using assms(3,4) by (auto simp: past_def same_terms_def same_order_def)
  then show ?thesis using saga_invD(5) [OF assms(1) r(1)] by (simp add: row_ok_def)
qed

lemma serves_release:
  assumes st: "t_State t = StateReleasing" and h: "t_HoldID t = Some h" and ok: "call_ok c"
  shows "serves t (\<lambda>_. Fire EvReleased (\<lambda>t. t) None True) (\<lambda>err. \<exists>e. err = ToGRPC (e :: ledger_err) \<and> CodeOf e \<noteq> CodeNotFound) (exec_ReleaseHold h c)"
proof (rule servesI)
  fix w ws res l
  assume a: "saga_inv (w, ws)" "Loaded t \<in> set ws" "exec_ReleaseHold h c (ledger w) = (res, l)"
  let ?w = "w\<lparr>ledger := at_others (lc_first c) (ledger w)\<rparr>"
  obtain r where r: "ReleaseHold (at_env (lc_first c)) h (ledger ?w) = (r, l)" and res: "res = grpc_edge holdToProto r"
    using a(3) unfolding exec_ReleaseHold_def server_ReleaseHold_def by (auto split: prod.splits)
  obtain ws1 where ws1: "saga_inv (?w, ws1)" "Loaded t \<in> set ws1" by (rule attempt_inv [OF a(1,2) call_okD(2) [OF ok]])
  have err: "CodeOf e \<noteq> CodeNotFound" if "r = Inl e" for e
    by (rule release_answer(2) [OF reachable_inv [OF saga_invD(1) [OF ws1(1)]] r loaded_hold [OF ws1 st h] that])
  have "reaches (w, ws) (w\<lparr>ledger := l\<rparr>) (case res of Inr x \<Rightarrow> {Decided t (Fire EvReleased (\<lambda>t. t) None True)} | Inl _ \<Rightarrow> {})"
  proof (rule attempt_then [OF a(1,2) call_okD(2) [OF ok]])
    fix ws2 assume ws2: "saga_inv (?w, ws2)" "Loaded t \<in> set ws2"
    from saga_step.release [OF ws2(2) st h r]
    show "reaches (?w, ws2) (w\<lparr>ledger := l\<rparr>) (case res of Inr x \<Rightarrow> {Decided t (Fire EvReleased (\<lambda>t. t) None True)} | Inl _ \<Rightarrow> {})"
      by (intro reaches_step) (auto simp: res grpc_edge_def split: sum.splits)
  qed
  then show "reaches (w, ws) (w\<lparr>ledger := l\<rparr>) (case res of Inr x \<Rightarrow> {Decided t (Fire EvReleased (\<lambda>t. t) None True)} | Inl _ \<Rightarrow> {})
      \<and> (\<forall>err. res = Inl err \<longrightarrow> (\<exists>e. err = ToGRPC (e :: ledger_err) \<and> CodeOf e \<noteq> CodeNotFound))"
    using err by (auto simp: res grpc_edge_def split: sum.splits)
qed

section \<open>Decisions\<close>

definition fires :: "Transfer \<Rightarrow> decision \<Rightarrow> worker set" where
  "fires t d = (case d of Fire _ _ _ _ \<Rightarrow> {Decided t d} | _ \<Rightarrow> {})"

lemma fires_simps [simp]: "fires t Park = {}" "fires t (Quit err) = {}" "fires t (Fire e f x b) = {Decided t (Fire e f x b)}"
  by (simp_all add: fires_def)

text \<open>A decision that needs no answer of the ledger.\<close>

definition free_choice :: "decision \<Rightarrow> bool" where
  "free_choice d = (case d of Fire e f _ _ \<Rightarrow> unconfirmed e \<and> keeps e f | _ \<Rightarrow> True)"

lemma free_choice_reaches:
  assumes "free_choice d" and "Loaded t \<in> set ws"
  shows "reaches (w, ws) w (fires t d)"
  using assms by (cases d) (auto simp: free_choice_def intro!: reaches_step [OF saga_step.give_up])

lemma free_choices [simp]:
  "free_choice Park" "free_choice (Quit err)" "free_choice (failWith reason)" "free_choice (validated to fx)"
  "free_choice (refused EvHoldFailed err)" "free_choice (refused EvPostFailed err)" "free_choice (Fire EvStart (\<lambda>t. t) None True)"
  by (simp_all add: free_choice_def failWith_def validated_def refused_def Let_def unconfirmed_def keeps_def)

lemma lockRate_free: "lockRate t from to rate = Inl d \<Longrightarrow> free_choice d"
  by (auto simp: lockRate_def Let_def split: if_splits sum.splits)

lemma lockFX_free: "lockFX now t from to db = Inl d \<Longrightarrow> free_choice d"
  by (auto simp: lockFX_def sum_bind_Inl_iff split: if_splits sum.splits dest: lockRate_free)

lemma checkDailyLimits_free: "checkDailyLimits now t db = Inl d \<Longrightarrow> free_choice d"
  by (auto simp: checkDailyLimits_def split: if_splits sum.splits prod.splits)

lemma validate_free: "free_choice (validate now api t db)"
proof -
  have "free_choice (decided (sum_bind (lockFX now t src dst db) (\<lambda>fx.
      sum_bind (checkDailyLimits now t db) (\<lambda>_. Inr (validated (ai_ID dst) fx)))))" for src dst
    by (cases "lockFX now t src dst db"; cases "checkDailyLimits now t db")
      (auto simp: decided_def dest: lockFX_free checkDailyLimits_free)
  then show ?thesis by (simp add: validate_def Let_def split: sum.splits prod.splits)
qed

lemma transport_code:
  assumes "library_code k"
  shows "CodeOf (FromGRPC (transport_error k m)) \<noteq> CodeNotFound"
  using assms by (cases k) (simp_all add: library_code_def transport_error_def FromGRPC_def)

lemma wire_code: "CodeOf (FromGRPC (wire_err (ToGRPC (e :: ledger_err) :: ledger_err))) = CodeNotFound \<Longrightarrow> CodeOf e = CodeNotFound"
  by (auto simp: wire_err_def ToGRPC_def FromGRPC_def CodeOf_def Let_def split: option.splits prod.splits if_splits)

lemma fires_after:
  assumes inv: "saga_inv (w, ws)" and mem: "Loaded t \<in> set ws" and run: "reaches (w, ws) w' {}" and "free_choice d"
  shows "reaches (w, ws) w' (fires t d)"
proof -
  have "reaches (w, ws) w' ({} \<union> fires t d)"
  proof (rule reaches_bind [OF run inv])
    fix ws1 assume "saga_step\<^sup>*\<^sup>* (w, ws) (w', ws1)"
    then have "Loaded t \<in> set ws1" using saga_steps_workers mem by fastforce
    then show "reaches (w', ws1) w' (fires t d)" by (rule free_choice_reaches [OF assms(4)])
  qed
  then show ?thesis by simp
qed

lemma holdCall_reaches:
  assumes inv: "saga_inv (w, ws)" and mem: "Loaded t \<in> set ws" and st: "t_State t = StateHeld" and ok: "\<forall>c' \<in> set (c # cs). call_ok c'"
    and call: "holdCall ttl c cs t (ledger w) = (d, l)"
  shows "reaches (w, ws) (w\<lparr>ledger := l\<rparr>) (fires t d)"
proof -
  have "t_HoldID t = None" using saga_invD(6) [OF inv mem] st by (auto simp: past_def)
  obtain res where rpc: "ledger_rpc (exec_PlaceHold ttl (sourceRef t) (t_Amount t) (t_Currency t) (t_ID t)) c cs (ledger w) = (res, l)"
    and d: "d = (case res of Inl err \<Rightarrow> if Ambiguous err then Park else refused EvHoldFailed err | Inr h \<Rightarrow> fire_hold (hm_Id h))"
    using call \<open>t_HoldID t = None\<close> unfolding holdCall_def client_PlaceHold_def fire_hold_def by (auto split: prod.splits sum.splits)
  have served: "\<forall>c' \<in> set (c # cs). serves t (\<lambda>h. fire_hold (hm_Id h)) (\<lambda>_. True)
      (exec_PlaceHold ttl (sourceRef t) (t_Amount t) (t_Currency t) (t_ID t) c')" using serves_hold [OF st] ok by blast
  note run = ledger_rpc_serves [OF inv mem ok served rpc]
  have "reaches (w, ws) (w\<lparr>ledger := l\<rparr>) (case res of Inr h \<Rightarrow> {Decided t (fire_hold (hm_Id h))} | Inl _ \<Rightarrow> {})"
    by (rule conjunct1 [OF run])
  then show ?thesis by (cases res) (auto simp: d fire_hold_def intro: fires_after [OF inv mem])
qed

lemma postCall_reaches:
  assumes inv: "saga_inv (w, ws)" and mem: "Loaded t \<in> set ws" and st: "t_State t = StatePosting" and ok: "\<forall>c' \<in> set (c # cs). call_ok c'"
    and call: "postCall c cs t (ledger w) = (d, l)"
  shows "reaches (w, ws) (w\<lparr>ledger := l\<rparr>) (fires t d)"
proof -
  obtain res where rpc: "ledger_rpc (exec_PostTransaction (t_ID t) (text_or_empty (t_HoldID t)) (buildPostings t)) c cs (ledger w) = (res, l)"
    and d: "d = (case res of Inl err \<Rightarrow> if Ambiguous err then Park else refused EvPostFailed err | Inr h \<Rightarrow> Fire EvPosted (\<lambda>t. t) None True)"
    using call unfolding postCall_def client_PostTransaction_def by (auto split: prod.splits sum.splits)
  have served: "\<forall>c' \<in> set (c # cs). serves t (\<lambda>_. Fire EvPosted (\<lambda>t. t) None True) (\<lambda>_. True)
      (exec_PostTransaction (t_ID t) (text_or_empty (t_HoldID t)) (buildPostings t) c')" using serves_post [OF st] ok by blast
  note run = ledger_rpc_serves [OF inv mem ok served rpc]
  have "reaches (w, ws) (w\<lparr>ledger := l\<rparr>) (case res of Inr h \<Rightarrow> {Decided t (Fire EvPosted (\<lambda>t. t) None True)} | Inl _ \<Rightarrow> {})"
    by (rule conjunct1 [OF run])
  then show ?thesis by (cases res) (auto simp: d intro: fires_after [OF inv mem])
qed

lemma releaseCall_reaches:
  assumes inv: "saga_inv (w, ws)" and mem: "Loaded t \<in> set ws" and st: "t_State t = StateReleasing" and ok: "\<forall>c' \<in> set (c # cs). call_ok c'"
    and call: "releaseCall c cs t (ledger w) = (d, l)"
  shows "reaches (w, ws) (w\<lparr>ledger := l\<rparr>) (fires t d)"
proof (cases "t_HoldID t")
  case None
  then have "d = Fire EvReleased (\<lambda>t. t) None True" "l = ledger w" using call by (simp_all add: releaseCall_def)
  then show ?thesis using reaches_step [OF saga_step.release_none [OF mem st None]] by simp
next
  case (Some h)
  obtain res where rpc: "ledger_rpc (exec_ReleaseHold h) c cs (ledger w) = (res, l)"
    and d: "d = (case res of Inl err \<Rightarrow> if Ambiguous err then Park else if CodeOf (FromGRPC err) \<noteq> CodeNotFound then Quit err
        else Fire EvReleased (\<lambda>t. t) None True | Inr h \<Rightarrow> Fire EvReleased (\<lambda>t. t) None True)"
    using call Some unfolding releaseCall_def client_ReleaseHold_def by (auto split: prod.splits sum.splits)
  let ?errs = "\<lambda>err. \<exists>e. err = ToGRPC (e :: ledger_err) \<and> CodeOf e \<noteq> CodeNotFound"
  have served: "\<forall>c' \<in> set (c # cs). serves t (\<lambda>_. Fire EvReleased (\<lambda>t. t) None True) ?errs (exec_ReleaseHold h c')"
    using serves_release [OF st Some] ok by blast
  note run = ledger_rpc_serves [OF inv mem ok served rpc]
  note reach = conjunct1 [OF run] and err = conjunct2 [OF run]
  have "CodeOf (FromGRPC err) \<noteq> CodeNotFound" if "res = Inl err" for err
    using err [rule_format, OF that] transport_code wire_code by blast
  then show ?thesis using reach by (cases res) (auto simp: d intro: fires_after [OF inv mem])
qed

lemma decide_reaches:
  assumes inv: "saga_inv (w, ws)" and mem: "Loaded t \<in> set ws" and ok: "env_ok env" and dec: "decide ttl env t w = (d, w')"
  shows "reaches (w, ws) w' (fires t d)"
proof -
  note calls = env_okD(4) [OF ok]
  consider "free_choice d" "w' = w" | l where "t_State t = StateHeld" "holdCall ttl (de_call env) (de_retries env) t (ledger w) = (d, l)" "w' = w\<lparr>ledger := l\<rparr>"
    | l where "t_State t = StatePosting" "postCall (de_call env) (de_retries env) t (ledger w) = (d, l)" "w' = w\<lparr>ledger := l\<rparr>"
    | l where "t_State t = StateReleasing" "releaseCall (de_call env) (de_retries env) t (ledger w) = (d, l)" "w' = w\<lparr>ledger := l\<rparr>"
    using dec validate_free unfolding decide_def by (cases "t_State t") (auto simp: Let_def split: prod.splits)
  then show ?thesis
  proof cases
    case 1
    then show ?thesis using free_choice_reaches mem by simp
  next
    case (2 l)
    then show ?thesis using holdCall_reaches [OF inv mem _ calls] by simp
  next
    case (3 l)
    then show ?thesis using postCall_reaches [OF inv mem _ calls] by simp
  next
    case (4 l)
    then show ?thesis using releaseCall_reaches [OF inv mem _ calls] by simp
  qed
qed

lemma settle_reaches:
  assumes "fires t d \<subseteq> set ws" and "settle env t d w = (res, w')" and "F \<subseteq> set ws"
  shows "reaches (w, ws) w' F"
proof (cases d)
  case (Fire e f x b)
  then show ?thesis using reaches_step [OF saga_step.fire [OF _ assms(2)]] assms by simp
qed (use assms in \<open>auto simp: settle_def\<close>)

section \<open>The loop and its callers\<close>

text \<open>One turn: load, decide, settle, with the others in between.\<close>

lemma plainRead_Inr: "plainRead failure res = Inr x \<longleftrightarrow> failure = None \<and> res = Inr x"
  by (cases failure) (simp_all add: plainRead_def)

lemma reaches_load:
  assumes "store_GetTransfer (sagas w) k = Inr t" and "F \<subseteq> set ws"
  shows "reaches (w, ws) w ({Loaded t} \<union> F)"
  by (rule reaches_step [OF saga_step.load [OF assms(1)]]) (use assms(2) in auto)

lemma reaches_others:
  assumes "reaches c w F" and "saga_inv c" and "others_ok f"
  shows "reaches c (f w) F"
  using reaches_bind [OF assms(1,2), of "f w" "{}"] others_reach [OF assms(3)] by simp

lemma loaded_reaches:
  assumes inv: "saga_inv (w, ws)" and ok: "env_ok env" and load: "store_GetTransfer (sagas (de_before env w)) k = Inr t"
  shows "reaches (w, ws) (de_between env (de_before env w)) {Loaded t}"
proof -
  have before: "reaches (w, ws) (de_before env w) {}" by (rule others_reach [OF env_okD(1) [OF ok] inv]) simp
  have "reaches (w, ws) (de_before env w) ({} \<union> {Loaded t})"
    by (rule reaches_bind [OF before inv]) (use reaches_load [OF load, of "{}"] in simp)
  then show ?thesis using reaches_others [OF _ inv env_okD(2) [OF ok]] by simp
qed

text \<open>The common part of a turn of \<open>Drive\<close> and of a recovery: load, then call, then transition.\<close>

lemma turn_reaches:
  assumes inv: "saga_inv (w, ws)" and ok: "env_ok env" and load: "store_GetTransfer (sagas (de_before env w)) k = Inr t"
    and act: "\<And>ws1. saga_inv (de_between env (de_before env w), ws1) \<Longrightarrow> Loaded t \<in> set ws1
      \<Longrightarrow> reaches (de_between env (de_before env w), ws1) w1 (fires t d)"
    and set: "settle tx t d (de_after env w1) = (res, w2)"
  shows "reaches (w, ws) w2 {Loaded t}"
proof -
  have "reaches (w, ws) w1 ({Loaded t} \<union> fires t d)"
    by (rule reaches_bind [OF loaded_reaches [OF inv ok load] inv]) (use act in simp)
  then have "reaches (w, ws) (de_after env w1) ({Loaded t} \<union> fires t d)" by (rule reaches_others [OF _ inv env_okD(3) [OF ok]])
  then have "reaches (w, ws) w2 (({Loaded t} \<union> fires t d) \<union> {Loaded t})"
    by (rule reaches_bind [OF _ inv]) (use settle_reaches [OF _ set] in simp)
  then show ?thesis by (rule reaches_mono) simp
qed

lemma Drive_reaches:
  assumes "saga_inv (w, ws)" and "\<forall>env \<in> set envs. env_ok env" and "Drive ttl envs k w = (res, w')"
  shows "reaches (w, ws) w' {}"
  using assms
proof (induction envs arbitrary: w ws)
  case (Cons env envs)
  have ok: "env_ok env" using Cons.prems(2) by simp
  let ?w0 = "de_before env w"
  show ?case
  proof (cases "\<exists>t. plainRead (de_load env) (store_GetTransfer (sagas ?w0) k) = Inr t \<and> \<not> IsTerminal (t_State t)")
    case False
    then have "w' = ?w0" using Cons.prems(3) by (auto simp: Let_def split: sum.splits if_splits)
    then show ?thesis using others_reach [OF env_okD(1) [OF ok] Cons.prems(1)] by simp
  next
    case True
    then obtain t where t: "store_GetTransfer (sagas ?w0) k = Inr t" "de_load env = None" "\<not> IsTerminal (t_State t)"
      by (auto simp: plainRead_Inr)
    obtain d w1 where d: "decide ttl env t (de_between env ?w0) = (d, w1)" by fastforce
    obtain r w2 where s: "settle (de_tx env) t d (de_after env w1) = (r, w2)" by fastforce
    have turn: "reaches (w, ws) w2 {Loaded t}"
      by (rule turn_reaches [OF Cons.prems(1) ok t(1) _ s]) (rule decide_reaches [OF _ _ ok d])
    show ?thesis
    proof (cases "r = Inr False")
      case True
      have rest: "Drive ttl envs k w2 = (res, w')" using Cons.prems(3) t d s True by (simp add: plainRead_def)
      have "reaches (w, ws) w' ({Loaded t} \<union> {})"
        by (rule reaches_bind [OF turn Cons.prems(1)]) (use Cons.IH rest Cons.prems(2) in auto)
      then show ?thesis by (rule reaches_mono) simp
    next
      case False
      then have "w' = w2" using Cons.prems(3) t d s by (auto simp: plainRead_def split: sum.splits bool.splits)
      then show ?thesis using turn reaches_mono by blast
    qed
  qed
qed simp

lemma reaches_trans:
  assumes "reaches (w, ws) w1 F" and "saga_inv (w, ws)" and "\<And>ws. saga_inv (w1, ws) \<Longrightarrow> reaches (w1, ws) w2 {}"
  shows "reaches (w, ws) w2 {}"
  using reaches_bind [OF assms(1,2), of w2 "{}"] assms(3) by (auto intro: reaches_mono)

lemma CreateTransfer_reaches:
  assumes inv: "saga_inv (w, ws)" and ok: "\<forall>env \<in> set envs. env_ok env"
    and run: "CreateTransfer sha ttl env load envs cmd w = (res, w')"
  shows "reaches (w, ws) w' {}"
proof -
  obtain r db where c: "createOrFind sha env cmd (sagas w) = (r, db)" by fastforce
  have made: "reaches (w, ws) (w\<lparr>sagas := db\<rparr>) {}" by (rule reaches_step [OF saga_step.create [OF c]]) simp
  have "w' = w\<lparr>sagas := db\<rparr> \<or> (\<exists>k res. Drive ttl envs k (w\<lparr>sagas := db\<rparr>) = (res, w'))"
    using run c by (auto simp: CreateTransfer_def Let_def split: sum.splits prod.splits if_splits)
  then show ?thesis
  proof (elim disjE exE)
    fix k res' assume "Drive ttl envs k (w\<lparr>sagas := db\<rparr>) = (res', w')"
    then show ?thesis using reaches_trans [OF made inv] Drive_reaches [OF _ ok] by blast
  qed (use made in simp)
qed

text \<open>A recovery probes the ledger, settles what it learned, and drives on.\<close>

definition renv_ok :: "recover_env \<Rightarrow> bool" where
  "renv_ok renv \<longleftrightarrow> env_ok (re_turn renv) \<and> (\<forall>env \<in> set (re_drive renv). env_ok env)"

lemma probe_reaches:
  assumes inv: "saga_inv (w, ws)" and mem: "Loaded t \<in> set ws" and ok: "env_ok env" and run: "probe env t w = (exists, w')"
  shows "reaches (w, ws) w' (if exists then {Decided t (Fire EvPosted (\<lambda>t. t) detail True)} else {})"
proof (cases "t_State t = StatePosting")
  case True
  obtain res :: "transfer_err + JournalEntryMsg" and l
    where rpc: "ledger_rpc (exec_GetTransactionByReference (t_ID t)) (de_call env) (de_retries env) (ledger w) = (res, l)"
    by fastforce
  have served: "\<forall>c' \<in> set (de_call env # de_retries env). serves t (\<lambda>_. Fire EvPosted (\<lambda>t. t) detail True) (\<lambda>_. True)
      (exec_GetTransactionByReference (t_ID t) c')" using serves_probe [OF True] env_okD(4) [OF ok] by blast
  have "w' = w\<lparr>ledger := l\<rparr>" "exists \<longleftrightarrow> (\<exists>x. res = Inr x)"
    using run True rpc by (auto simp: probe_def client_TransactionExists_def split: sum.splits if_splits)
  then show ?thesis
    using conjunct1 [OF ledger_rpc_serves [OF inv mem env_okD(4) [OF ok] served rpc]] by (auto split: sum.splits)
qed (use run in \<open>simp add: probe_def\<close>)

lemma recoverDecision_free:
  "recoverDecision budget False t = Some d \<Longrightarrow> free_choice d"
  "recoverDecision budget True t = Some d \<Longrightarrow> d = Fire EvPosted (\<lambda>t. t) (Some [(''resolved_by'', DText ''recovery'')]) True"
  by (auto simp: recoverDecision_def free_choice_def unconfirmed_def keeps_def split: if_splits)

lemma recoverOne_reaches:
  assumes inv: "saga_inv (w, ws)" and ok: "renv_ok renv" and run: "recoverOne ttl budget renv k w = (res, w')"
  shows "reaches (w, ws) w' {}"
proof -
  let ?env = "re_turn renv"
  have env: "env_ok ?env" and envs: "\<forall>env \<in> set (re_drive renv). env_ok env" using ok by (simp_all add: renv_ok_def)
  let ?w0 = "de_before ?env w"
  have drive: "reaches (w1, ws1) w' {}" if "saga_inv (w1, ws1)" "Drive ttl (re_drive renv) k w1 = (r, w')" for w1 ws1 r
    using Drive_reaches [OF that(1) envs that(2)] .
  show ?thesis
  proof (cases "\<exists>t. plainRead (de_load ?env) (store_GetTransfer (sagas ?w0) k) = Inr t")
    case False
    then have "w' = ?w0" using run by (auto simp: recoverOne_def Let_def split: sum.splits)
    then show ?thesis using others_reach [OF env_okD(1) [OF env] inv] by simp
  next
    case True
    then obtain t where t: "store_GetTransfer (sagas ?w0) k = Inr t" "de_load ?env = None" by (auto simp: plainRead_Inr)
    obtain ex w1 where p: "probe ?env t (de_between ?env ?w0) = (ex, w1)" by fastforce
    show ?thesis
    proof (cases "recoverDecision budget ex t")
      case (Some d)
      obtain r w2 where s: "settle (de_tx ?env) t d (de_after ?env w1) = (r, w2)" by fastforce
      have learned: "reaches (de_between ?env ?w0, ws1) w1 (fires t d)"
        if "saga_inv (de_between ?env ?w0, ws1)" "Loaded t \<in> set ws1" for ws1
        using probe_reaches [OF that env p] Some recoverDecision_free fires_after [OF that, of w1 d] by (cases ex) fastforce+
      have turn: "reaches (w, ws) w2 {Loaded t}" by (rule turn_reaches [OF inv env t(1) learned s])
      have "w' = w2 \<or> (\<exists>r. Drive ttl (re_drive renv) k w2 = (r, w'))"
        using run t p Some s by (auto simp: recoverOne_def Let_def plainRead_def split: sum.splits option.splits prod.splits if_splits)
      then show ?thesis using turn drive reaches_trans [OF turn inv] reaches_mono by blast
    next
      case None
      have turn: "reaches (w, ws) w1 ({Loaded t} \<union> {})"
        by (rule reaches_bind [OF loaded_reaches [OF inv env t(1)] inv]) (use probe_reaches [OF _ _ env p] reaches_mono in blast)
      have "\<exists>r. Drive ttl (re_drive renv) k w1 = (r, w')"
        using run t p None by (auto simp: recoverOne_def Let_def plainRead_def split: sum.splits option.splits prod.splits if_splits)
      then show ?thesis using drive reaches_trans [OF turn inv] by blast
    qed
  qed
qed

lemma RunOnce_reaches:
  assumes inv: "saga_inv (w, ws)" and ok: "\<And>k. renv_ok (renvs k)"
  shows "reaches (w, ws) (RunOnce ttl budget staleAfter env locked renvs w) {}"
proof -
  obtain r db where c: "store_ClaimStuck env locked [StateHeld, StatePosting, StateReleasing] staleAfter 10 (sagas w) = (r, db)" by fastforce
  have claimed: "reaches (w, ws) (w\<lparr>sagas := db\<rparr>) {}" by (rule reaches_step [OF saga_step.claim [OF c]]) simp
  have each: "reaches (w1, ws1) (fold (\<lambda>k w. snd (recoverOne ttl budget (renvs k) k w)) ids w1) {}" if "saga_inv (w1, ws1)" for ids w1 ws1
    using that
  proof (induction ids arbitrary: w1 ws1)
    case (Cons k ids)
    obtain res w2 where r: "recoverOne ttl budget (renvs k) k w1 = (res, w2)" by fastforce
    show ?case using reaches_trans [OF recoverOne_reaches [OF Cons.prems ok r] Cons.prems Cons.IH] r by simp
  qed simp
  show ?thesis
    using claimed reaches_trans [OF claimed inv each] c by (auto simp: RunOnce_def split: sum.splits)
qed

end
