(* ===== verification/Saga_Code.thy ===== *)
theory Saga_Code
  imports Saga_Drive
begin

text \<open>
  What the protocol says of the code: \<open>Drive\<close> ends after at most six turns of its loop, and the
  answers of \<open>CreateTransfer\<close> are true.
\<close>

section \<open>Drive ends\<close>

text \<open>How far the transfer \<open>k\<close> has got at least.\<close>

definition at_least :: "nat \<Rightarrow> string \<Rightarrow> bank \<Rightarrow> bool" where
  "at_least n k w \<longleftrightarrow> n = 0 \<or> (\<exists>r \<in> set (transfers (sagas w)). tr_ID r = k \<and> n \<le> rank (tr_State r))"

lemma row_step_rank:
  assumes "row_ok l r" and "row_step r r'"
  shows "rank (tr_State r) \<le> rank (tr_State r')"
  using assms past_load [OF assms(1)] by (auto simp: row_step_def past_def)

text \<open>Nobody moves a transfer back.\<close>

lemma at_least_kept:
  assumes inv: "saga_inv (w, ws)" and far: "at_least n k w" and run: "reaches (w, ws) w' F"
  shows "at_least n k w'"
proof (cases "n = 0")
  case False
  then obtain r where r: "r \<in> set (transfers (sagas w))" "tr_ID r = k" "n \<le> rank (tr_State r)" using far by (auto simp: at_least_def)
  obtain ws' where steps: "saga_step\<^sup>*\<^sup>* (w, ws) (w', ws')" using run by (auto simp: reaches_def)
  then obtain r' where r': "r' \<in> set (transfers (sagas w'))" "row_step r r'" using saga_steps_rows [OF steps inv] r(1) by auto
  then show ?thesis using row_step_rank [OF saga_invD(5) [OF inv r(1)] r'(2)] r by (auto simp: at_least_def row_step_def)
qed (simp add: at_least_def)

lemma at_least_loaded:
  assumes inv: "saga_inv (w, ws)" and "at_least n k w" and "store_GetTransfer (sagas w) k = Inr t"
  shows "n \<le> rank (t_State t)"
proof -
  obtain r where r: "r \<in> set (transfers (sagas w))" "tr_ID r = k" "t = transferFromRow r"
    using assms(3) by (auto simp: store_GetTransfer_Inr dest: select_one_Some)
  show ?thesis
  proof (cases "n = 0")
    case False
    then obtain r2 where r2: "r2 \<in> set (transfers (sagas w))" "tr_ID r2 = k" "n \<le> rank (tr_State r2)"
      using assms(2) by (auto simp: at_least_def)
    then have "r2 = r" using saga_row_unique [OF inv r2(1) r(1)] r(2) by simp
    then show ?thesis using r2(3) r(3) by simp
  qed simp
qed

text \<open>A decision that was settled without an error has moved the transfer forward, whoever moved it.\<close>

lemma transition_raced:
  assumes "transition env t e f detail db = (Inl err, db')" and "errors_Is err ErrStateRaced" and "t_ID (f t) = t_ID t"
  shows "db' = db \<and> \<not> (\<exists>r \<in> set (transfers db). tr_ID r = t_ID t \<and> tr_State r = t_State t)"
proof (cases "Next (t_State t) e")
  case (Inl x)
  then show ?thesis using assms(1,2) Next_error [OF Inl] by (auto simp: transition_def)
next
  case (Inr nxt)
  let ?t = "(f t)\<lparr>t_State := nxt\<rparr>"
  have "WithTx keys_resolve env (transitionTx env ?t (t_State t) detail) db = (Inl err, db')"
    using assms(1) Inr by (simp add: transition_def transfer_WithinTx_def)
  from WithTx_Inl_sentinel [OF this assms(2)] have "db' = db" and body: "transitionTx env ?t (t_State t) detail db = Inl err" by auto
  moreover have "\<not> (\<exists>r \<in> set (transfers db). tr_ID r = t_ID t \<and> tr_State r = t_State t)"
  proof
    assume hit: "\<exists>r \<in> set (transfers db). tr_ID r = t_ID t \<and> tr_State r = t_State t"
    have "known_state nxt" using Inr by (auto simp: known_state_def AllStates_def Next_Inr_iff)
    then obtain db1 where db1: "tx_UpdateTransferGuarded env ?t (t_State t) db = Inr db1"
      using hit assms(3) by (auto simp: tx_UpdateTransferGuarded_def q_UpdateTransferGuarded_def Let_def updateArgs_def filter_empty_conv map_left_def)
    have append: "\<not> errors_Is x ErrStateRaced" if "tx_AppendEvent env u p n dt s = Inl x" for u p n dt s x
      using that by (auto simp: tx_AppendEvent_def map_left_Inl)
    have status: "\<not> errors_Is x ErrStateRaced" if "insertStatusEvent env u s = Inl x" for u s x
      using that by (auto simp: insertStatusEvent_def Let_def sum_bind_Inl_iff NewProtoMessage_def uuid_NewV7_def transfer_InsertOutbox_def
          outbox_Insert_def split: option.splits if_splits)
    show False using body db1 append status assms(2) by (auto simp: transitionTx_def sum_bind_Inl_iff split: if_splits)
  qed
  ultimately show ?thesis by blast
qed

lemma settle_forward:
  assumes inv: "saga_inv (w, ws)" and mem: "fires t d \<subseteq> set ws" and set: "settle env t d w = (Inr False, w')"
    and live: "known_state (t_State t)" "\<not> IsTerminal (t_State t)"
  shows "at_least (Suc (rank (t_State t))) (t_ID t) w'"
proof -
  obtain e f detail b where d: "d = Fire e f detail b" using set by (cases d) (auto simp: settle_def)
  then have "Decided t (Fire e f detail b) \<in> set ws" using mem by simp
  from saga_invD(6) [OF inv this] obtain r0 where r0: "r0 \<in> set (transfers (sagas w))" "past t r0" and same: "t_ID (f t) = t_ID t"
    by (auto simp: decision_ok_def keeps_def split: if_splits)
  have r0_id: "tr_ID r0 = t_ID t" using r0(2) by (simp add: past_def same_order_def)
  obtain res db where tr: "transition env t e f detail (sagas w) = (res, db)" and w': "w' = w\<lparr>sagas := db\<rparr>"
    and raced: "\<And>err. res = Inl err \<Longrightarrow> errors_Is err ErrStateRaced"
    using set d by (auto simp: settle_def split: prod.splits sum.splits if_splits)
  from tr show ?thesis
  proof (cases rule: transition_cases)
    case (kept err)
    then have "tr_State r0 \<noteq> t_State t"
      using transition_raced [of env t e f detail "sagas w" err db] tr raced same r0(1) r0_id by auto
    moreover have "known_state (tr_State r0)" using saga_invD(5) [OF inv r0(1)] by (simp add: row_ok_def)
    ultimately have "rank (t_State t) \<noteq> rank (tr_State r0)"
      using live by (auto simp: known_state_def AllStates_def IsTerminal_def rank_def)
    then have "Suc (rank (t_State t)) \<le> rank (tr_State r0)" using r0(2) by (auto simp: past_def)
    then show ?thesis using r0(1) r0_id kept w' by (auto simp: at_least_def)
  next
    case (moved nxt)
    let ?t = "(f t)\<lparr>t_State := nxt\<rparr>"
    obtain r where r: "r \<in> set (transfers (sagas w))" "tr_ID r = t_ID t" "tr_State r = t_State t"
      and rows: "transfers db = update_where (\<lambda>r. tr_ID r = t_ID t \<and> tr_State r = t_State t) (row_update env ?t) (transfers (sagas w))"
      by (rule transitionTx_Inr [OF moved(2)]) (use same in auto)
    then have "row_update env ?t r \<in> set (transfers db)" by (force simp: set_update_where)
    moreover have "tr_ID (row_update env ?t r) = t_ID t" "tr_State (row_update env ?t r) = nxt" using r(2) by simp_all
    ultimately show ?thesis using Next_rank [OF moved(1)] w' unfolding at_least_def by force
  qed
qed

lemma loaded_live:
  assumes "saga_inv (w, ws)" and "store_GetTransfer (sagas w) k = Inr t"
  shows "known_state (t_State t)" "t_ID t = k"
proof -
  obtain r where r: "r \<in> set (transfers (sagas w))" "tr_ID r = k" "t = transferFromRow r"
    using assms(2) by (auto simp: store_GetTransfer_Inr dest: select_one_Some)
  then show "known_state (t_State t)" "t_ID t = k" using saga_invD(5) [OF assms(1) r(1)] by (simp_all add: row_ok_def)
qed

lemma Drive_ends:
  assumes "saga_inv (w, ws)" and "\<forall>env \<in> set envs. env_ok env" and "at_least n k w" and "5 - n < length envs"
  shows "\<exists>res w'. Drive ttl envs k w = (Some res, w')"
  using assms
proof (induction envs arbitrary: w ws n)
  case (Cons env envs)
  have ok: "env_ok env" using Cons.prems(2) by simp
  let ?w0 = "de_before env w"
  have before: "reaches (w, ws) ?w0 {}" by (rule others_reach [OF env_okD(1) [OF ok] Cons.prems(1)]) simp
  then obtain ws0 where inv0: "saga_inv (?w0, ws0)" using saga_steps_inv [OF _ Cons.prems(1)] by (auto simp: reaches_def)
  show ?case
  proof (cases "\<exists>t. plainRead (de_load env) (store_GetTransfer (sagas ?w0) k) = Inr t \<and> \<not> IsTerminal (t_State t)")
    case True
    then obtain t where t: "store_GetTransfer (sagas ?w0) k = Inr t" "de_load env = None" "\<not> IsTerminal (t_State t)"
      by (auto simp: plainRead_Inr)
    obtain d w1 where d: "decide ttl env t (de_between env ?w0) = (d, w1)" by fastforce
    obtain r w2 where s: "settle (de_tx env) t d (de_after env w1) = (r, w2)" by fastforce
    show ?thesis
    proof (cases "r = Inr False")
      case True
      have "reaches (w, ws) w1 ({Loaded t} \<union> fires t d)"
        by (rule reaches_bind [OF loaded_reaches [OF Cons.prems(1) ok t(1)] Cons.prems(1)]) (use decide_reaches [OF _ _ ok d] in simp)
      then have "reaches (w, ws) (de_after env w1) ({Loaded t} \<union> fires t d)"
        by (rule reaches_others [OF _ Cons.prems(1) env_okD(3) [OF ok]])
      then obtain ws1 where ws1: "saga_inv (de_after env w1, ws1)" "fires t d \<subseteq> set ws1"
        using saga_steps_inv [OF _ Cons.prems(1)] by (auto simp: reaches_def)
      have far: "at_least (Suc (rank (t_State t))) k w2"
        using settle_forward [OF ws1 s [unfolded True]] loaded_live [OF inv0 t(1)] t(3) by simp
      obtain ws2 where inv2: "saga_inv (w2, ws2)"
        using settle_reaches [OF ws1(2) s, of "{}"] saga_steps_inv [OF _ ws1(1)] by (auto simp: reaches_def)
      have "n \<le> rank (t_State t)"
        by (rule at_least_loaded [OF inv0 at_least_kept [OF Cons.prems(1,3) before] t(1)])
      moreover have "rank (t_State t) < 5"
        using loaded_live [OF inv0 t(1)] t(3) by (auto simp: known_state_def AllStates_def IsTerminal_def rank_def)
      ultimately have "\<exists>res w'. Drive ttl envs k w2 = (Some res, w')"
        using Cons.IH [OF inv2 _ far] Cons.prems(2,4) by simp
      then show ?thesis using t d s True by (simp add: plainRead_def)
    qed (use t d s in \<open>auto simp: plainRead_def split: sum.splits bool.splits\<close>)
  qed (auto simp: Let_def split: sum.splits)
qed simp

lemma Drive_result:
  assumes "Drive ttl envs k w = (Some (Inr t), w')"
  shows "store_GetTransfer (sagas w') k = Inr t"
  using assms
proof (induction envs arbitrary: w)
  case (Cons env envs)
  from Cons.prems show ?case
    by (auto simp: Let_def plainRead_Inr split: sum.splits if_splits prod.splits bool.splits intro: Cons.IH)
qed simp

section \<open>The guarantees of the code\<close>

text \<open>
  C3. The code implements the protocol: every run of \<open>CreateTransfer\<close>, of \<open>Drive\<close> and of a round of the recovery
  worker, for any request, any answers of the account service, any lost, repeated or delayed ledger
  call, any failed or unconfirmed commit and any admissible activity of others in between, is a run of
  the saga protocol.
\<close>

theorem saga_code_refines:
  assumes "saga_reachable (w, ws)" and "\<forall>env \<in> set envs. env_ok env" and "\<forall>ident. renv_ok (renvs ident)"
  shows "(\<exists>ws'. saga_step\<^sup>*\<^sup>* (w, ws) (snd (CreateTransfer sha ttl tx load envs cmd w), ws'))
    \<and> (\<exists>ws'. saga_step\<^sup>*\<^sup>* (w, ws) (snd (Drive ttl envs k w), ws'))
    \<and> (\<exists>ws'. saga_step\<^sup>*\<^sup>* (w, ws) (RunOnce ttl budget staleAfter tx locked renvs w, ws'))"
  using CreateTransfer_reaches [OF saga_reachable_inv [OF assms(1)] assms(2), of sha ttl tx load cmd]
    Drive_reaches [OF saga_reachable_inv [OF assms(1)] assms(2), of ttl k]
    RunOnce_reaches [OF saga_reachable_inv [OF assms(1)], of renvs ttl budget staleAfter tx locked] assms(3)
  unfolding reaches_def by (metis prod.collapse)

text \<open>
  C4. \<open>Drive\<close> returns: its loop has no bound in the code, but six turns are always enough, because every
  turn that does not return leaves the transfer further on in the state machine, moved by this
  worker or by the one that raced it.
\<close>

theorem Drive_returns:
  assumes "saga_reachable (w, ws)" and "\<forall>env \<in> set envs. env_ok env" and "6 \<le> length envs"
  shows "\<exists>res. fst (Drive ttl envs k w) = Some res"
  using Drive_ends [OF saga_reachable_inv [OF assms(1)] assms(2), of 0 k ttl] assms(3) by (auto simp: at_least_def)


text \<open>Settled holds stay settled along a run.\<close>

lemma captured_kept:
  assumes "saga_inv (w, ws)" and "ledger_step (ledger w) l" and "captured (ledger w) k h"
  shows "captured l k h"
  by (rule captured_evolves [OF ledger_step_evolves [OF assms(2) reachable_inv [OF saga_invD(1) [OF assms(1)]]] assms(3)]) simp

lemma saga_step_holds: "saga_step c c' \<Longrightarrow> saga_inv c \<Longrightarrow> captured (ledger (fst c)) k h \<Longrightarrow> captured (ledger (fst c')) k h"
proof (induction rule: saga_step.induct)
  case (client w l ws)
  then show ?case using captured_kept [OF client(2) client_step_ledger [OF client(1)]] by simp
next
  case (hold t ws w snap env ttl res l)
  show ?case using captured_kept [OF hold(6) ledger_step.hold [OF committed_beforeD(4) [OF hold(3)] hold(5)]] hold(7) by simp
next
  case (post t ws w snap env res l detail)
  show ?case using captured_kept [OF post(5) ledger_step.post [OF committed_beforeD(4) [OF post(3)] post(4)]] post(6) by simp
next
  case (release t ws h w env res l)
  show ?case using captured_kept [OF release(5) ledger_step.release [OF release(4)]] release(6) by simp
next
  case (fire t d ws env w res w')
  then have "ledger w' = ledger w" by (auto simp: settle_def split: decision.splits prod.splits sum.splits if_splits)
  then show ?case using fire.prems by simp
qed simp_all

lemma saga_steps_holds: "saga_step\<^sup>*\<^sup>* c c' \<Longrightarrow> saga_inv c \<Longrightarrow> captured (ledger (fst c)) k h \<Longrightarrow> captured (ledger (fst c')) k h"
  by (induction rule: rtranclp_induct) (auto dest: saga_step_holds saga_steps_inv)

text \<open>
  C7. A transfer that was given up after the ledger had posted it is stuck: once it is \<open>RELEASING\<close> with its hold
  captured, it stays \<open>RELEASING\<close> for ever, whatever any worker does, although the money has moved. The
  recovery worker brings this about when its last attempt cannot reach the ledger.
\<close>

theorem releasing_captured_stuck:
  assumes "saga_reachable c" and "saga_step\<^sup>*\<^sup>* c c'" and "r \<in> set (transfers (sagas (fst c)))" and "tr_State r = StateReleasing"
    and "tr_HoldID r = Some h" and "captured (ledger (fst c)) (tr_ID r) h"
  shows "\<exists>r' \<in> set (transfers (sagas (fst c'))). tr_ID r' = tr_ID r \<and> tr_State r' = StateReleasing"
proof -
  obtain w' ws' where c': "c' = (w', ws')" by fastforce
  have inv: "saga_inv c" "saga_inv (w', ws')" using saga_reachable_inv [OF assms(1)] saga_steps_inv [OF assms(2)] c' by auto
  obtain r' where r': "r' \<in> set (transfers (sagas w'))" "row_step r r'" using saga_steps_rows [OF assms(2) inv(1) assms(3)] c' by auto
  have ok: "row_ok (ledger (fst c)) r" using saga_invD(5) inv(1) assms(3) by (metis prod.collapse)
  have "past (transferFromRow r) r'" using past_load [OF ok] r'(2) by (simp add: row_step_def)
  then have st: "tr_State r' \<in> {StateReleasing, StateFailed}" and h: "tr_HoldID r' = Some h" "tr_ID r' = tr_ID r"
    using assms(4,5) by (auto simp: past_def same_terms_def same_order_def)
  have "captured (ledger w') (tr_ID r) h" using saga_steps_holds [OF assms(2) inv(1) assms(6)] c' by simp
  then have "tr_State r' \<noteq> StateFailed"
    using saga_invD(5) [OF inv(2) r'(1)] h captured_not_released [OF reachable_inv [OF saga_invD(1) [OF inv(2)]]] by (auto simp: row_ok_def)
  then show ?thesis using st r' h c' by auto
qed

end
