(* ===== verification/Saga_Examples.thy ===== *)
theory Saga_Examples
  imports Saga_Code Ledger_Examples
begin

text \<open>
  Runs of the code from the initial database: a top-up that completes, one that fails after
  its hold was placed, and one that the recovery worker gives up although the ledger has
  posted it. They show that the hypotheses of the saga's theorems are met by real runs.
\<close>

section \<open>Inputs\<close>

definition calm :: "nat \<Rightarrow> hold_attempt" where
  "calm n = \<lparr>at_env = demo_env n, at_others = (\<lambda>l. l), at_snap = (\<lambda>l. l)\<rparr>"

definition call_with :: "fate \<Rightarrow> nat \<Rightarrow> ledger_call" where
  "call_with f n = \<lparr>lc_fate = f, lc_first = calm n, lc_more = []\<rparr>"

text \<open>The account service knows every account as an active tenge account of its owner.\<close>

definition demo_account :: "string \<Rightarrow> string \<Rightarrow> AccountMsg" where
  "demo_account user x = \<lparr>am_Id = x, am_CustomerId = user, am_UserId = user, am_Number = x, am_Currency = ''KZT'', am_Status = ''ACTIVE'',
     am_OpenedAt = 0\<rparr>"

definition demo_accounts :: account_answers where
  "demo_accounts = \<lparr>ans_GetAccount = (\<lambda>x. Inr (demo_account ''c1'' x)), ans_ResolveByNumber = (\<lambda>x. Inr (demo_account ''c2'' x))\<rparr>"

definition turn :: "fate \<Rightarrow> nat \<Rightarrow> drive_env" where
  "turn f n = \<lparr>de_before = (\<lambda>w. w), de_load = None, de_between = (\<lambda>w. w), de_now = int n * 1000000, de_accounts = demo_accounts,
     de_call = call_with f n, de_retries = [], de_after = (\<lambda>w. w), de_tx = demo_env n, de_reload = None\<rparr>"

definition turns :: "nat \<Rightarrow> drive_env list" where
  "turns n = map (\<lambda>i. turn Delivered (n + i)) [0..<6]"

definition topup :: "string \<Rightarrow> CreateCmd" where
  "topup to = \<lparr>cmd_CustomerID = ''c1'', cmd_IdempotencyKey = ''key'', cmd_Type = TypeTopup, cmd_FromAccountID = '''', cmd_ToAccountID = to,
     cmd_ToAccountNumber = '''', cmd_Amount = 500, cmd_Currency = ''KZT''\<rparr>"

definition demo_sha :: "string \<Rightarrow> string" where "demo_sha x = x"

lemma others_idle [simp]: "others_ok (\<lambda>w. w)"
  by (simp add: others_ok_def)

lemma calm_ok: "attempt_ok (calm n)"
  by (simp add: attempt_ok_def calm_def uuids_ok_def demo_env_def committed_before_def)

lemma turn_ok: "fate_ok f \<Longrightarrow> env_ok (turn f n)"
  by (simp add: env_ok_def turn_def call_ok_def call_with_def calm_ok)

lemma turns_ok: "\<forall>env \<in> set (turns n). env_ok env"
  by (auto simp: turns_def fate_ok_def intro: turn_ok)

section \<open>Runs\<close>

definition demo_open :: bank where
  "demo_open = \<lparr>sagas = initial_transfer_db, ledger = demo_alice\<rparr>"

lemma demo_open_reachable: "saga_reachable (demo_open, [])"
proof -
  have "client_step (initial_db 0) demo_alice" unfolding demo_alice_def by (rule client_step.account) (rule prod.collapse [symmetric])
  then have "saga_step (\<lparr>sagas = initial_transfer_db, ledger = initial_db 0\<rparr>, []) (demo_open, [])"
    using saga_step.client [of "\<lparr>sagas = initial_transfer_db, ledger = initial_db 0\<rparr>" demo_alice "[]"] by (simp add: demo_open_def)
  then show ?thesis unfolding saga_reachable_def by blast
qed

definition demo_completed :: "(transfer_err + Transfer) option \<times> bank" where
  "demo_completed = CreateTransfer demo_sha 1000000000 (demo_env 10) None (turns 11) (topup ''alice'') demo_open"

definition demo_failed :: "(transfer_err + Transfer) option \<times> bank" where
  "demo_failed = CreateTransfer demo_sha 1000000000 (demo_env 10) None (turns 11) (topup ''ghost'') demo_open"

definition summary :: "bank \<Rightarrow> (string \<times> State \<times> string option) list \<times> bool list \<times> string list" where
  "summary w = (map (\<lambda>r. (tr_ID r, tr_State r, tr_HoldID r)) (transfers (sagas w)),
     map (\<lambda>r. recorded (ledger w) (tr_ID r)) (transfers (sagas w)), map hold_Status (holds (ledger w)))"


text \<open>
  The post is executed but its answer is lost; workers claim the transfer and die; the last
  attempt cannot reach the ledger.
\<close>

definition demo_parked :: bank where
  "demo_parked = snd (CreateTransfer demo_sha 1000000000 (demo_env 10) None
     (map (turn Delivered) [11, 12, 13] @ [turn (ReplyLost Unavailable '''') 14]) (topup ''alice'') demo_open)"

definition claim_at :: "nat \<Rightarrow> bank \<Rightarrow> bank" where
  "claim_at n w = w\<lparr>sagas := snd (store_ClaimStuck ((demo_env n)\<lparr>env_now := int n * 1000000000000\<rparr>) [] [StateHeld, StatePosting, StateReleasing] (15 * time_Second) 10 (sagas w))\<rparr>"

definition demo_exhausted :: bank where
  "demo_exhausted = fold claim_at [1, 2, 3, 4, 5, 6] demo_parked"

definition demo_recovery :: recover_env where
  "demo_recovery = \<lparr>re_turn = turn (NotSent Unavailable '''') 20, re_drive = []\<rparr>"

definition demo_stuck :: bank where
  "demo_stuck = snd (recoverOne 1000000000 5 demo_recovery ''u1000'' demo_exhausted)"

lemma demo_completed_facts:
  "case demo_completed of (res, w) \<Rightarrow> (case res of Some (Inr t) \<Rightarrow> t_State t = StateCompleted | _ \<Rightarrow> False)
     \<and> summary w = ([(''u1000'', StateCompleted, Some ''u1300'')], [True], [HoldCaptured])"
  by code_simp

lemma demo_failed_facts:
  "case demo_failed of (res, w) \<Rightarrow> summary w = ([(''u1000'', StateFailed, Some ''u1300'')], [False], [HoldReleased])"
  by code_simp

lemma demo_stuck_facts: "summary demo_stuck = ([(''u1000'', StateReleasing, Some ''u1300'')], [True], [HoldCaptured])"
  by code_simp

lemma summary_row:
  assumes "summary w = ([(k, st, hid)], [b], hs)"
  obtains r where "r \<in> set (transfers (sagas w))" "tr_ID r = k" "tr_State r = st" "tr_HoldID r = hid" "recorded (ledger w) k = b"
  using assms by (auto simp: summary_def map_eq_Cons_conv)

section \<open>The runs are reachable\<close>

lemma reachable_onward: "saga_reachable (w, ws) \<Longrightarrow> reaches (w, ws) w' F \<Longrightarrow> \<exists>ws'. saga_reachable (w', ws')"
  unfolding saga_reachable_def reaches_def by (meson rtranclp_trans)

lemma demo_create_reachable:
  assumes "\<forall>env \<in> set envs. env_ok env"
  shows "\<exists>ws. saga_reachable (snd (CreateTransfer sha ttl tx load envs cmd demo_open), ws)"
  using reachable_onward [OF demo_open_reachable CreateTransfer_reaches [OF saga_reachable_inv [OF demo_open_reachable] assms]]
  by (metis prod.collapse)

lemma demo_runs_reachable: "\<exists>ws. saga_reachable (snd demo_completed, ws)" "\<exists>ws. saga_reachable (snd demo_failed, ws)"
  unfolding demo_completed_def demo_failed_def by (rule demo_create_reachable [OF turns_ok])+

lemma demo_parked_reachable: "\<exists>ws. saga_reachable (demo_parked, ws)"
  unfolding demo_parked_def by (rule demo_create_reachable) (auto simp: fate_ok_def library_code_def intro: turn_ok)

lemma claim_reachable: "\<exists>ws. saga_reachable (w, ws) \<Longrightarrow> \<exists>ws. saga_reachable (fold claim_at ns w, ws)"
proof (induction ns arbitrary: w)
  case (Cons n ns)
  then obtain ws where "saga_reachable (w, ws)" by blast
  moreover have "saga_step (w, ws) (claim_at n w, ws)" unfolding claim_at_def by (rule saga_step.claim) (rule prod.collapse [symmetric])
  ultimately have "\<exists>ws. saga_reachable (claim_at n w, ws)" unfolding saga_reachable_def by (meson rtranclp.rtrancl_into_rtrancl)
  then show ?case using Cons.IH by simp
qed simp

lemma demo_recovery_ok: "renv_ok demo_recovery"
  by (simp add: renv_ok_def demo_recovery_def turn_ok fate_ok_def library_code_def)

lemma demo_stuck_reachable: "\<exists>ws. saga_reachable (demo_stuck, ws)"
proof -
  obtain ws where ws: "saga_reachable (demo_exhausted, ws)"
    using claim_reachable [OF demo_parked_reachable] unfolding demo_exhausted_def by blast
  show ?thesis unfolding demo_stuck_def
    by (rule reachable_onward [OF ws]) (rule recoverOne_reaches [OF saga_reachable_inv [OF ws] demo_recovery_ok prod.collapse [symmetric]])
qed

section \<open>The theorems on the runs\<close>

theorem saga_completed_posted_witness:
  "\<exists>ws r. saga_reachable (snd demo_completed, ws) \<and> r \<in> set (transfers (sagas (snd demo_completed))) \<and> tr_State r = StateCompleted
     \<and> tr_ID r = ''u1000'' \<and> entry_for (ledger (snd demo_completed)) ''u1000'' (posting_specs (transferFromRow r))"
proof -
  obtain ws where ws: "saga_reachable (snd demo_completed, ws)" using demo_runs_reachable(1) by blast
  obtain r where r: "r \<in> set (transfers (sagas (snd demo_completed)))" "tr_ID r = ''u1000''" "tr_State r = StateCompleted"
    using demo_completed_facts by (auto simp: case_prod_beta elim: summary_row)
  then show ?thesis using saga_completed_posted [OF ws rtranclp.rtrancl_refl, of r] ws by auto
qed


theorem saga_entry_owned_witness:
  "\<exists>ws. saga_reachable (snd demo_completed, ws) \<and> recorded (ledger (snd demo_completed)) ''u1000''
     \<and> (\<exists>r. r \<in> set (transfers (sagas (snd demo_completed))) \<and> tr_ID r = ''u1000''
          \<and> entry_for (ledger (snd demo_completed)) ''u1000'' (posting_specs (transferFromRow r)))"
proof -
  obtain ws where ws: "saga_reachable (snd demo_completed, ws)" using demo_runs_reachable(1) by blast
  have rec: "recorded (ledger (snd demo_completed)) ''u1000''"
    using demo_completed_facts by (auto simp: case_prod_beta elim: summary_row)
  then show ?thesis using saga_entry_owned [OF ws, of "''u1000''"] ws by auto
qed

theorem saga_code_refines_witness:
  "\<exists>ws'. saga_step\<^sup>*\<^sup>* (demo_open, []) (snd demo_completed, ws') \<and> saga_reachable (demo_open, [])"
  using saga_code_refines [OF demo_open_reachable turns_ok [of 11], of "\<lambda>_. demo_recovery" demo_sha 1000000000 "demo_env 10" None "topup ''alice''"]
    demo_recovery_ok demo_open_reachable unfolding demo_completed_def by blast

theorem Drive_returns_witness:
  "saga_reachable (demo_open, []) \<and> length (turns 11) = 6 \<and> (\<exists>res. fst (Drive 1000000000 (turns 11) ''u1000'' demo_open) = Some res)"
proof -
  have "length (turns 11) = 6" by (simp add: turns_def)
  then show ?thesis using Drive_returns [OF demo_open_reachable turns_ok [of 11], of 1000000000 "''u1000''"] demo_open_reachable by simp
qed


theorem releasing_captured_stuck_witness:
  "\<exists>r. r \<in> set (transfers (sagas demo_stuck)) \<and> tr_State r = StateReleasing \<and> recorded (ledger demo_stuck) (tr_ID r)
     \<and> (\<exists>r'. r' \<in> set (transfers (sagas (snd (Drive 1000000000 (turns 30) ''u1000'' demo_stuck)))) \<and> tr_State r' = StateReleasing)"
proof -
  obtain ws where ws: "saga_reachable (demo_stuck, ws)" using demo_stuck_reachable by blast
  note inv = saga_reachable_inv [OF ws]
  obtain r where r: "r \<in> set (transfers (sagas demo_stuck))" "tr_ID r = ''u1000''" "tr_State r = StateReleasing" "recorded (ledger demo_stuck) ''u1000''"
    by (rule summary_row [OF demo_stuck_facts]) simp
  obtain h where h: "tr_HoldID r = Some h" "captured (ledger demo_stuck) ''u1000'' h"
    using entry_ownedE [OF saga_invD(4) [OF inv r(4)]] saga_row_unique [OF inv _ r(1)] r(2) by metis
  obtain ws' where run: "saga_step\<^sup>*\<^sup>* (demo_stuck, ws) (snd (Drive 1000000000 (turns 30) ''u1000'' demo_stuck), ws')"
    using Drive_reaches [OF inv turns_ok prod.collapse [symmetric]] unfolding reaches_def by blast
  show ?thesis using releasing_captured_stuck [OF ws run, of r h] r h by auto
qed

end
