(* ===== verification/Account_Domain.thy ===== *)
theory Account_Domain
  imports Go_Errors Go_Text
begin

text \<open>
  Account numbers and status rules, \<open>src/services/account/internal/domain/domain.go\<close>: an IBAN with
  ISO 7064 mod 97-10 check digits. The theorems show that every generated number is valid and that
  a number with one digit mistyped never is.
\<close>

datatype account_sentinel = ErrUnknownCurrency | ErrAccountNotFound | ErrNotOwner | ErrAccountIllegalTransition | ErrBadRandomPart

type_synonym account_err = "account_sentinel goerr"

abbreviation StatusActive :: string where "StatusActive \<equiv> ''ACTIVE''"
abbreviation StatusFrozen :: string where "StatusFrozen \<equiv> ''FROZEN''"
abbreviation StatusClosed :: string where "StatusClosed \<equiv> ''CLOSED''"

definition bankCode :: string where "bankCode = ''125''"

text \<open>The loop of \<open>mod97\<close>; \<open>- 1\<close> for a character that is no digit.\<close>

fun mod97_from :: "int \<Rightarrow> string \<Rightarrow> int" where
  "mod97_from rem [] = rem"
| "mod97_from rem (ch # rest) = (if \<not> is_digit ch then - 1 else mod97_from ((rem * 10 + int (digit_val ch)) mod 97) rest)"

definition mod97 :: "string \<Rightarrow> int" where
  "mod97 digits = mod97_from 0 digits"

definition twoDigits :: "int \<Rightarrow> string" where
  "twoDigits n = [digit_char (nat (n div 10)), digit_char (nat (n mod 10))]"

definition GenerateNumber :: "string \<Rightarrow> account_err + string" where
  "GenerateNumber random13 =
    (if length random13 \<noteq> 13 \<or> \<not> list_all is_digit random13 then Inl (Sentinel ErrBadRandomPart)
     else let bban = bankCode @ random13; check = 98 - mod97 (bban @ ''203500'')
          in Inr (''KZ'' @ twoDigits check @ bban))"

definition ValidNumber :: "string \<Rightarrow> bool" where
  "ValidNumber number \<longleftrightarrow> length number = 20 \<and> take 2 number = ''KZ''
     \<and> mod97 (drop 4 number @ ''2035'' @ take 2 (drop 2 number)) = 1"

definition CanTransition :: "string \<Rightarrow> string \<Rightarrow> bool" where
  "CanTransition from to \<longleftrightarrow>
    (if from = StatusActive then to = StatusFrozen \<or> to = StatusClosed
     else if from = StatusFrozen then to = StatusActive \<or> to = StatusClosed
     else False)"

section \<open>The check digits\<close>

text \<open>The reference: the remainder of the decimal number.\<close>

lemma dec_val_Cons: "dec_val (d # ds) = digit_val d * 10 ^ length ds + dec_val ds"
  using dec_val_append [of "[d]" ds] dec_val_snoc [of "[]" d] by simp

lemma mod97_from_value:
  assumes "list_all is_digit ds" and "0 \<le> r" "r < 97"
  shows "mod97_from r ds = (r * 10 ^ length ds + int (dec_val ds)) mod 97"
  using assms
proof (induction ds arbitrary: r)
  case (Cons d ds)
  let ?r = "(r * 10 + int (digit_val d)) mod 97"
  have "mod97_from r (d # ds) = (?r * 10 ^ length ds + int (dec_val ds)) mod 97"
    using Cons.IH [of ?r] Cons.prems by simp
  also have "\<dots> = ((r * 10 + int (digit_val d)) * 10 ^ length ds + int (dec_val ds)) mod 97"
    by (metis mod_add_left_eq mod_mult_left_eq)
  finally show ?case by (simp add: dec_val_Cons algebra_simps)
qed simp

lemma mod97_value: "list_all is_digit ds \<Longrightarrow> mod97 ds = int (dec_val ds) mod 97"
  using mod97_from_value [of ds 0] by (simp add: mod97_def)

lemma mod97_from_digits: "0 \<le> mod97_from r ds \<Longrightarrow> list_all is_digit ds"
  by (induction r ds rule: mod97_from.induct) (auto split: if_splits)

lemma twoDigits_value:
  assumes "0 \<le> n" "n < 100"
  shows "list_all is_digit (twoDigits n)" "int (dec_val (twoDigits n)) = n" "length (twoDigits n) = 2"
proof -
  have tens: "nat (n div 10) < 10" and ones: "nat (n mod 10) < 10" using assms by simp_all
  show "list_all is_digit (twoDigits n)" "length (twoDigits n) = 2" using tens ones by (simp_all add: twoDigits_def)
  have "dec_val (twoDigits n) = nat (n div 10) * 10 + nat (n mod 10)"
    using tens ones dec_val_Cons [of "digit_char (nat (n div 10))" "[digit_char (nat (n mod 10))]"]
      dec_val_Cons [of "digit_char (nat (n mod 10))" "[]"] by (simp add: twoDigits_def)
  moreover have "0 \<le> n div 10" "0 \<le> n mod 10" using assms by simp_all
  ultimately show "int (dec_val (twoDigits n)) = n" by simp
qed

text \<open>
  Every generated account number is valid: for exactly thirteen digits \<open>GenerateNumber\<close> returns a number of twenty
  characters that ends in the bank code and these digits and passes \<open>ValidNumber\<close>, and for anything else it
  returns \<open>ErrBadRandomPart\<close>.
\<close>

lemma GenerateNumber_valid:
  "case GenerateNumber random of
     Inr number \<Rightarrow> ValidNumber number \<and> drop 4 number = bankCode @ random \<and> list_all is_digit random \<and> length random = 13
   | Inl err \<Rightarrow> err = Sentinel ErrBadRandomPart \<and> \<not> (list_all is_digit random \<and> length random = 13)"
proof (cases "list_all is_digit random \<and> length random = 13")
  case True
  define bban mid where "bban = bankCode @ random" and "mid = ''2035''"
  define check where "check = 98 - mod97 (bban @ ''203500'')"
  have digits: "list_all is_digit bban" "length bban = 16" using True by (simp_all add: bban_def bankCode_def is_digit_def)
  have tail: "list_all is_digit ''203500''" "list_all is_digit mid" "length mid = 4" by (simp_all add: is_digit_def mid_def)
  have vals: "dec_val ''203500'' = 203500" "dec_val mid = 2035" by (simp_all add: dec_val_def digit_val_def mid_def)
  have n: "mod97 (bban @ ''203500'') = (int (dec_val bban) * 1000000 + 203500) mod 97"
    using mod97_value [of "bban @ ''203500''"] digits tail vals by (simp add: dec_val_append)
  then have range: "0 \<le> check" "check < 100" unfolding check_def by simp_all
  note two = twoDigits_value [OF range]
  have "mod97 (bban @ mid @ twoDigits check) = (int (dec_val bban) * 1000000 + (203500 + check)) mod 97"
    using mod97_value [of "bban @ mid @ twoDigits check"] digits tail vals two by (simp add: dec_val_append)
  also have "\<dots> = 1"
  proof -
    let ?m = "int (dec_val bban) * 1000000 + 203500"
    have "int (dec_val bban) * 1000000 + (203500 + check) = 98 + 97 * (?m div 97)"
      using minus_mod_eq_mult_div [of ?m 97] by (simp add: check_def n)
    then have "(int (dec_val bban) * 1000000 + (203500 + check)) mod 97 = (98 + 97 * (?m div 97)) mod 97" by (rule arg_cong)
    also have "\<dots> = 1" by (subst mod_mult_self2) simp
    finally show ?thesis .
  qed
  finally have "ValidNumber (''KZ'' @ twoDigits check @ bban)"
    using digits two(3) by (simp add: ValidNumber_def mid_def)
  moreover have "GenerateNumber random = Inr (''KZ'' @ twoDigits check @ bban)"
    using True by (simp add: GenerateNumber_def bban_def check_def Let_def)
  ultimately show ?thesis using True two(3) by (simp add: bban_def)
next
  case False
  then show ?thesis by (auto simp: GenerateNumber_def)
qed

text \<open>One digit changed changes the remainder: 97 is prime and divides no power of ten times a digit.\<close>

lemma mod97_update:
  assumes "list_all is_digit ds" and "j < length ds" and "is_digit c" and "mod97 (ds[j := c]) = mod97 ds"
  shows "c = ds ! j"
proof -
  let ?k = "length ds - Suc j"
  have val: "int (dec_val (ds[j := x])) = int (dec_val (take j ds)) * 10 ^ Suc ?k + int (digit_val x) * 10 ^ ?k + int (dec_val (drop (Suc j) ds))" for x
    using assms(2) by (simp add: upd_conv_take_nth_drop dec_val_append dec_val_Cons Suc_diff_Suc)
  have digits: "list_all is_digit (ds[j := x])" if "is_digit x" for x
    using assms(1) that by (auto simp: list_all_iff dest: set_update_subset_insert [THEN subsetD])
  have "is_digit (ds ! j)" using assms(1,2) by (simp add: list_all_length)
  then have "int (dec_val (ds[j := c])) mod 97 = int (dec_val (ds[j := ds ! j])) mod 97"
    using assms(4) mod97_value [OF digits [OF assms(3)]] mod97_value [OF assms(1)] by simp
  then have "97 dvd (int (digit_val c) - int (digit_val (ds ! j))) * 10 ^ ?k"
    unfolding val by (simp add: mod_eq_dvd_iff algebra_simps)
  moreover have "coprime (97 :: int) (10 ^ ?k)"
  proof -
    have "coprime (97 :: int) 10" by code_simp
    then show ?thesis by (simp add: coprime_power_right_iff)
  qed
  ultimately have "97 dvd int (digit_val c) - int (digit_val (ds ! j))" by (simp add: coprime_dvd_mult_left_iff)
  moreover have "\<bar>int (digit_val c) - int (digit_val (ds ! j))\<bar> < 97"
    using digit_val_less [OF assms(3)] digit_val_less [OF \<open>is_digit (ds ! j)\<close>] by simp
  ultimately have "digit_val c = digit_val (ds ! j)" using zdvd_not_zless by force
  then show ?thesis by (rule digit_val_inj [OF assms(3) \<open>is_digit (ds ! j)\<close>])
qed

lemma rearrange_update:
  assumes "length n = 20" and "2 \<le> i" "i < 20"
  defines "j \<equiv> if 4 \<le> i then i - 4 else i + 18"
  shows "drop 4 (n[i := c]) @ ''2035'' @ take 2 (drop 2 (n[i := c])) = (drop 4 n @ ''2035'' @ take 2 (drop 2 n))[j := c]"
    and "j < 22" and "(drop 4 n @ ''2035'' @ take 2 (drop 2 n)) ! j = n ! i"
proof -
  consider "i = 2" | "i = 3" | "4 \<le> i" using assms(2) by linarith
  then show "drop 4 (n[i := c]) @ ''2035'' @ take 2 (drop 2 (n[i := c])) = (drop 4 n @ ''2035'' @ take 2 (drop 2 n))[j := c]"
    using assms(1,3) by cases (auto simp: j_def list_update_append drop_update_swap take_update_swap list_update_beyond eval_nat_numeral)
  show "j < 22" using assms(3) by (auto simp: j_def)
  consider "i = 2" | "i = 3" | "4 \<le> i" using assms(2) by linarith
  then show "(drop 4 n @ ''2035'' @ take 2 (drop 2 n)) ! j = n ! i"
  proof cases
    case 3
    moreover have "i - 4 < 16" using assms(3) by linarith
    ultimately show ?thesis using assms(1,3) by (simp add: j_def nth_append)
  qed (use assms(1) in \<open>auto simp: j_def nth_append eval_nat_numeral\<close>)
qed

text \<open>
  A mistyped digit is caught: changing any one digit of a valid account number, check digits included, to
  another digit never gives a valid number.
\<close>

theorem ValidNumber_detects_typo:
  assumes "ValidNumber number" and "2 \<le> i" "i < 20" and "is_digit c" and "c \<noteq> number ! i"
  shows "\<not> ValidNumber (number[i := c])"
proof
  assume bad: "ValidNumber (number[i := c])"
  let ?ds = "drop 4 number @ ''2035'' @ take 2 (drop 2 number)"
  have len: "length number = 20" and valid: "mod97 ?ds = 1" using assms(1) by (simp_all add: ValidNumber_def)
  note upd = rearrange_update [OF len assms(2,3)]
  have "list_all is_digit ?ds" using valid mod97_from_digits [of 0 ?ds] by (simp add: mod97_def)
  moreover have "mod97 (?ds[if 4 \<le> i then i - 4 else i + 18 := c]) = mod97 ?ds"
    using bad valid upd(1) [of c] by (simp add: ValidNumber_def)
  moreover have "length ?ds = 22" using len by simp
  ultimately have "c = ?ds ! (if 4 \<le> i then i - 4 else i + 18)" using mod97_update upd(2) assms(4) by metis
  then show False using upd(3) assms(5) by simp
qed

theorem ValidNumber_detects_typo_witness:
  "ValidNumber ''KZ861250000000000001'' \<and> \<not> ValidNumber (''KZ861250000000000001''[19 := CHR ''2''])"
proof -
  have v: "ValidNumber ''KZ861250000000000001''" by code_simp
  moreover have "is_digit CHR ''2''" "CHR ''2'' \<noteq> ''KZ861250000000000001'' ! 19" by code_simp+
  ultimately show ?thesis using ValidNumber_detects_typo [OF v, of 19 "CHR ''2''"] by simp
qed

end
