(* ===== verification/Consumer.thy ===== *)
theory Consumer
  imports Outbox
begin

text \<open>
  The shared Kafka consumer, \<open>src/pkg/kafka/consumer.go\<close>: each event is handled in the transaction
  that also records its id, failures are retried and then go to a dead-letter topic. The
  handler and the tables it writes are parameters; the services instantiate them.
\<close>

section \<open>Messages and tables\<close>

record EventMessage =
  em_EventID :: string
  em_RequestID :: string
  em_OccurredAt :: time
  em_Envelope :: EventEnvelope
  em_Topic :: string
  em_Key :: string

text \<open>A record as it comes from the broker; \<open>None\<close> is a value that is no envelope.\<close>

record FetchedRecord =
  fr_Topic :: string
  fr_Key :: string
  fr_Value :: "EventEnvelope option"

text \<open>The database of a service: its inbox table \<open>processed_messages\<close> and the tables of its own.\<close>

record 's inbox_db =
  processed_messages :: "(string \<times> string) list"
  tables :: 's

type_synonym ('e, 's) handler = "tx_env \<Rightarrow> EventMessage \<Rightarrow> 's \<Rightarrow> 'e goerr + 's"

section \<open>consumer.go\<close>

definition envelope_message :: "FetchedRecord \<Rightarrow> EventEnvelope \<Rightarrow> EventMessage" where
  "envelope_message r env = \<lparr>em_EventID = ev_EventId env, em_RequestID = ev_RequestId env, em_OccurredAt = ev_OccurredAt env,
     em_Envelope = env, em_Topic = fr_Topic r, em_Key = fr_Key r\<rparr>"

text \<open>The transaction of one attempt, ended by \<open>tx.Commit\<close>.\<close>

definition tx_Commit :: "tx_env \<Rightarrow> 's \<Rightarrow> 's \<Rightarrow> ('e goerr + unit) \<times> 's" where
  "tx_Commit env before after = (case env_commit env of
      Committed \<Rightarrow> (Inr (), after)
    | NotCommitted err \<Rightarrow> (Inl (infra_goerr err), before)
    | CommittedUnseen err \<Rightarrow> (Inl (infra_goerr err), after))"

text \<open>\<open>msgCtx\<close> restores the request id of the envelope for the handler.\<close>

definition processOnce :: "string \<Rightarrow> ('e, 's) handler \<Rightarrow> tx_env \<Rightarrow> EventMessage \<Rightarrow> 's inbox_db \<Rightarrow> ('e goerr + unit) \<times> 's inbox_db" where
  "processOnce grp handle env msg db = (case env_begin env of
      Some err \<Rightarrow> (Inl (Wrapped ''begin'' (infra_goerr err)), db)
    | None \<Rightarrow>
        if (grp, em_EventID msg) \<in> set (processed_messages db) then tx_Commit env db db
        else (case handle (env\<lparr>env_request_id := em_RequestID msg\<rparr>) msg (tables db) of
            Inl err \<Rightarrow> (Inl err, db)
          | Inr s \<Rightarrow> tx_Commit env db \<lparr>processed_messages = processed_messages db @ [(grp, em_EventID msg)], tables = s\<rparr>))"

text \<open>
  The inputs of one attempt: its transaction, whether the context ends during the backoff
  before it, and whether it has ended once the attempt has failed.
\<close>

record attempt_input =
  ai_Tx :: tx_env
  ai_Interrupted :: bool
  ai_Cancelled :: bool

datatype 'e loop_outcome = Handled | GaveUp "'e goerr option" | Interrupted

function retryLoop :: "nat \<Rightarrow> string \<Rightarrow> ('e, 's) handler \<Rightarrow> (nat \<Rightarrow> attempt_input) \<Rightarrow> EventMessage \<Rightarrow> nat \<Rightarrow> 'e goerr option
     \<Rightarrow> 's inbox_db \<Rightarrow> 'e loop_outcome \<times> 's inbox_db" where
  "retryLoop maxAttempts grp handle ins msg attempt lastErr db =
    (if maxAttempts < attempt then (GaveUp lastErr, db)
     else if 1 < attempt \<and> ai_Interrupted (ins attempt) then (Interrupted, db)
     else (case processOnce grp handle (ai_Tx (ins attempt)) msg db of
         (Inr _, db') \<Rightarrow> (Handled, db')
       | (Inl err, db') \<Rightarrow>
           if ai_Cancelled (ins attempt) then (Interrupted, db')
           else retryLoop maxAttempts grp handle ins msg (attempt + 1) (Some err) db'))"
  by pat_completeness auto
termination by (relation "measure (\<lambda>(n, _, _, _, _, attempt, _, _). n + 1 - attempt)") auto

declare retryLoop.simps [simp del]

text \<open>The wait before an attempt, in multiples of the base.\<close>

definition backoff :: "nat \<Rightarrow> int" where
  "backoff attempt = (if attempt \<le> 1 then 0 else 2 ^ (attempt - 2))"

text \<open>A dead letter: the original record with its error headers.\<close>

record dead_letter =
  dl_Topic :: string
  dl_Key :: string
  dl_Value :: "EventEnvelope option"
  dl_Error :: string
  dl_Attempts :: nat
  dl_FirstSeen :: time
  dl_SourceTopic :: string

definition toDLQ :: "string \<Rightarrow> bool \<Rightarrow> FetchedRecord \<Rightarrow> nat \<Rightarrow> time \<Rightarrow> string \<Rightarrow> dead_letter list" where
  "toDLQ grp produced r attempts firstSeen errText =
    (if produced then [\<lparr>dl_Topic = grp @ ''.'' @ fr_Topic r @ ''.dlq'', dl_Key = fr_Key r, dl_Value = fr_Value r, dl_Error = errText,
       dl_Attempts = attempts, dl_FirstSeen = firstSeen, dl_SourceTopic = fr_Topic r\<rparr>] else [])"

text \<open>
  One record: the inputs of its attempts, the time, whether the dead letter is acknowledged
  and whether the context is alive at the end. \<open>errText\<close> is the text of an error.
\<close>

record record_input =
  ri_Attempts :: "nat \<Rightarrow> attempt_input"
  ri_Now :: time
  ri_Produced :: bool
  ri_Alive :: bool

definition processWithRetry :: "('e goerr \<Rightarrow> string) \<Rightarrow> nat \<Rightarrow> string \<Rightarrow> ('e, 's) handler \<Rightarrow> record_input \<Rightarrow> FetchedRecord \<Rightarrow> 's inbox_db
     \<Rightarrow> bool \<times> dead_letter list \<times> 's inbox_db" where
  "processWithRetry errText maxAttempts grp handle inp r db =
    (let undecodable = (\<lambda>text. (ri_Alive inp, toDLQ grp (ri_Produced inp) r 0 (ri_Now inp) text, db))
     in case fr_Value r of
          None \<Rightarrow> undecodable ''envelope decode''
        | Some env \<Rightarrow>
            if ev_EventId env = '''' then undecodable ''envelope decode: %!w(<nil>)''
            else (case retryLoop maxAttempts grp handle (ri_Attempts inp) (envelope_message r env) 1 None db of
                (Handled, db') \<Rightarrow> (True, [], db')
              | (Interrupted, db') \<Rightarrow> (False, [], db')
              | (GaveUp cause, db') \<Rightarrow>
                  (ri_Alive inp, toDLQ grp (ri_Produced inp) r maxAttempts (ri_Now inp)
                     (case cause of None \<Rightarrow> ''unknown'' | Some err \<Rightarrow> errText err), db')))"

text \<open>The records of one partition in order, up to the first that was not done; the marked ones are committed.\<close>

fun processPartition :: "('e goerr \<Rightarrow> string) \<Rightarrow> nat \<Rightarrow> string \<Rightarrow> ('e, 's) handler \<Rightarrow> (record_input \<times> FetchedRecord) list \<Rightarrow> 's inbox_db
     \<Rightarrow> FetchedRecord list \<times> dead_letter list \<times> 's inbox_db" where
  "processPartition errText maxAttempts grp handle [] db = ([], [], db)"
| "processPartition errText maxAttempts grp handle ((inp, r) # rest) db =
    (case processWithRetry errText maxAttempts grp handle inp r db of
       (False, dl, db') \<Rightarrow> ([], dl, db')
     | (True, dl, db') \<Rightarrow> (case processPartition errText maxAttempts grp handle rest db' of
         (marked, dls, db'') \<Rightarrow> (r # marked, dl @ dls, db'')))"

text \<open>\<open>NewConsumer\<close>: the number of attempts.\<close>

definition consumer_maxAttempts :: "int \<Rightarrow> nat" where
  "consumer_maxAttempts n = (if n \<le> 0 then 5 else nat n)"

section \<open>Each event takes effect once\<close>

text \<open>
  \<open>effects\<close>: the tables after the transactions \<open>ps\<close>, each of a new event. A run of the consumer is
  such a sequence, whatever is delivered how often.
\<close>

fun handle_all :: "('e, 's) handler \<Rightarrow> (tx_env \<times> EventMessage) list \<Rightarrow> 's \<Rightarrow> 'e goerr + 's" where
  "handle_all handle [] s = Inr s"
| "handle_all handle ((env, msg) # ps) s = sum_bind (handle env msg s) (handle_all handle ps)"

lemma handle_all_append: "handle_all handle (ps @ qs) s = sum_bind (handle_all handle ps s) (handle_all handle qs)"
  by (induction handle ps s rule: handle_all.induct) (auto simp: sum_bind_def split: sum.splits)

definition once :: "string \<Rightarrow> ('e, 's) handler \<Rightarrow> 's inbox_db \<Rightarrow> 's inbox_db \<Rightarrow> (tx_env \<times> EventMessage) list \<Rightarrow> bool" where
  "once grp handle db db' ps \<longleftrightarrow> processed_messages db' = processed_messages db @ map (\<lambda>p. (grp, em_EventID (snd p))) ps
     \<and> handle_all handle ps (tables db) = Inr (tables db')
     \<and> distinct (map (\<lambda>p. em_EventID (snd p)) ps)
     \<and> (\<forall>p \<in> set ps. (grp, em_EventID (snd p)) \<notin> set (processed_messages db))"

lemma once_refl: "once grp handle db db []"
  by (simp add: once_def)

lemma once_trans:
  assumes one: "once grp handle db db1 ps" and two: "once grp handle db1 db2 qs"
  shows "once grp handle db db2 (ps @ qs)"
proof -
  define f :: "tx_env \<times> EventMessage \<Rightarrow> string" where "f = (\<lambda>p. em_EventID (snd p))"
  have one': "processed_messages db1 = processed_messages db @ map (\<lambda>p. (grp, f p)) ps" "handle_all handle ps (tables db) = Inr (tables db1)"
    "distinct (map f ps)" "\<forall>p \<in> set ps. (grp, f p) \<notin> set (processed_messages db)" using one by (auto simp: once_def f_def)
  have two': "processed_messages db2 = processed_messages db1 @ map (\<lambda>p. (grp, f p)) qs" "handle_all handle qs (tables db1) = Inr (tables db2)"
    "distinct (map f qs)" "\<forall>p \<in> set qs. (grp, f p) \<notin> set (processed_messages db1)" using two by (auto simp: once_def f_def)
  have new: "(grp, f p) \<notin> set (processed_messages db) \<and> f p \<notin> f ` set ps" if "p \<in> set qs" for p
    using two'(4) that one'(1) by auto
  have "f ` set ps \<inter> f ` set qs = {}"
  proof (rule equals0I)
    fix x assume x: "x \<in> f ` set ps \<inter> f ` set qs"
    obtain p where "x = f p" "p \<in> set qs" by (rule imageE [OF IntD2 [OF x]])
    then show False using new [of p] IntD1 [OF x] by simp
  qed
  then have "distinct (map f (ps @ qs))" using one'(3) two'(3) by simp
  moreover have "\<forall>p \<in> set (ps @ qs). (grp, f p) \<notin> set (processed_messages db)" using one'(4) new by auto
  ultimately show ?thesis using one'(1,2) two'(1,2) unfolding once_def f_def by (simp add: handle_all_append)
qed

lemma processOnce_cases:
  assumes "processOnce grp handle env msg db = (res, db')"
  obtains (kept) "db' = db" "res = Inr () \<Longrightarrow> (grp, em_EventID msg) \<in> set (processed_messages db)"
  | (handled) s where "(grp, em_EventID msg) \<notin> set (processed_messages db)"
      "handle (env\<lparr>env_request_id := em_RequestID msg\<rparr>) msg (tables db) = Inr s"
      "db' = \<lparr>processed_messages = processed_messages db @ [(grp, em_EventID msg)], tables = s\<rparr>"
proof (cases "env_begin env = None \<and> (grp, em_EventID msg) \<notin> set (processed_messages db)")
  case False
  then have "db' = db" "res = Inr () \<Longrightarrow> (grp, em_EventID msg) \<in> set (processed_messages db)"
    using assms by (auto simp: processOnce_def tx_Commit_def split: option.splits commit_outcome.splits)
  then show ?thesis by (rule kept)
next
  case True
  show ?thesis
  proof (cases "handle (env\<lparr>env_request_id := em_RequestID msg\<rparr>) msg (tables db)")
    case (Inl err)
    then have "db' = db" "res \<noteq> Inr ()" using assms True by (auto simp: processOnce_def)
    then show ?thesis using kept by blast
  next
    case (Inr s)
    then have "tx_Commit env db \<lparr>processed_messages = processed_messages db @ [(grp, em_EventID msg)], tables = s\<rparr> = (res, db')"
      using assms True by (simp add: processOnce_def)
    then consider "db' = db" "res \<noteq> Inr ()" | "db' = \<lparr>processed_messages = processed_messages db @ [(grp, em_EventID msg)], tables = s\<rparr>"
      by (auto simp: tx_Commit_def split: commit_outcome.splits)
    then show ?thesis using kept handled Inr True by cases blast+
  qed
qed

lemma processOnce_once:
  assumes "processOnce grp handle env msg db = (res, db')"
  obtains ps where "once grp handle db db' ps" "\<forall>p \<in> set ps. snd p = msg"
    "res = Inr () \<longrightarrow> (grp, em_EventID msg) \<in> set (processed_messages db')"
  using assms
proof (cases rule: processOnce_cases)
  case kept
  then show ?thesis using that [of "[]"] once_refl by auto
next
  case (handled s)
  then show ?thesis using that [of "[(env\<lparr>env_request_id := em_RequestID msg\<rparr>, msg)]"] by (auto simp: once_def)
qed

lemma retryLoop_once:
  assumes "retryLoop n grp handle ins msg attempt lastErr db = (out, db')"
  shows "\<exists>ps. once grp handle db db' ps \<and> (\<forall>p \<in> set ps. snd p = msg)
    \<and> (out = Handled \<longrightarrow> (grp, em_EventID msg) \<in> set (processed_messages db'))"
  using assms
proof (induction n grp handle ins msg attempt lastErr db rule: retryLoop.induct)
  case (1 n grp handle ins msg attempt lastErr db)
  show ?case
  proof (cases "n < attempt \<or> 1 < attempt \<and> ai_Interrupted (ins attempt)")
    case True
    then have "db' = db" "out \<noteq> Handled" using "1.prems" by (auto simp: retryLoop.simps [of n] split: if_splits)
    then show ?thesis using once_refl by (intro exI [of _ "[]"]) auto
  next
    case False
    obtain res db1 where p: "processOnce grp handle (ai_Tx (ins attempt)) msg db = (res, db1)" by fastforce
    obtain ps where ps: "once grp handle db db1 ps" "\<forall>p \<in> set ps. snd p = msg"
      "res = Inr () \<longrightarrow> (grp, em_EventID msg) \<in> set (processed_messages db1)" by (rule processOnce_once [OF p])
    show ?thesis
    proof (cases "\<exists>err. res = Inl err \<and> \<not> ai_Cancelled (ins attempt)")
      case True
      then obtain err where err: "res = Inl err" "\<not> ai_Cancelled (ins attempt)" by blast
      then have "retryLoop n grp handle ins msg (attempt + 1) (Some err) db1 = (out, db')"
        using "1.prems" False p by (auto simp: retryLoop.simps [of n grp handle ins msg attempt])
      then obtain qs where qs: "once grp handle db1 db' qs" "\<forall>p \<in> set qs. snd p = msg"
        "out = Handled \<longrightarrow> (grp, em_EventID msg) \<in> set (processed_messages db')"
        using "1.IH" False p err by fastforce
      then show ?thesis using once_trans [OF ps(1) qs(1)] ps(2) by (intro exI [of _ "ps @ qs"]) auto
    next
      case no: False
      then have "db' = db1" "out = Handled \<longrightarrow> res = Inr ()"
        using "1.prems" False p by (auto simp: retryLoop.simps [of n grp handle ins msg attempt] split: sum.splits if_splits)
      then show ?thesis using ps by blast
    qed
  qed
qed

lemma processWithRetry_once:
  assumes "processWithRetry errText n grp handle inp r db = (ok, dl, db')"
  shows "\<exists>ps. once grp handle db db' ps \<and> (\<forall>p \<in> set ps. \<exists>env. fr_Value r = Some env \<and> snd p = envelope_message r env)"
    and "ok \<Longrightarrow> ri_Produced inp \<Longrightarrow> dl \<noteq> [] \<or> (\<exists>env. fr_Value r = Some env \<and> (grp, ev_EventId env) \<in> set (processed_messages db'))"
proof -
  have "(\<exists>ps. once grp handle db db' ps \<and> (\<forall>p \<in> set ps. \<exists>env. fr_Value r = Some env \<and> snd p = envelope_message r env))
    \<and> (ok \<longrightarrow> ri_Produced inp \<longrightarrow> dl \<noteq> [] \<or> (\<exists>env. fr_Value r = Some env \<and> (grp, ev_EventId env) \<in> set (processed_messages db')))"
  proof (cases "\<exists>env. fr_Value r = Some env \<and> ev_EventId env \<noteq> ''''")
    case False
    then have "db' = db" "ri_Produced inp \<longrightarrow> dl \<noteq> []"
      using assms by (auto simp: processWithRetry_def Let_def toDLQ_def split: option.splits if_splits)
    then show ?thesis using once_refl by fastforce
  next
    case True
    then obtain env where env: "fr_Value r = Some env" "ev_EventId env \<noteq> ''''" by blast
    obtain out db1 where loop: "retryLoop n grp handle (ri_Attempts inp) (envelope_message r env) 1 None db = (out, db1)" by fastforce
    then have "db' = db1" "ok \<longrightarrow> ri_Produced inp \<longrightarrow> dl \<noteq> [] \<or> out = Handled"
      using assms env by (auto simp: processWithRetry_def toDLQ_def split: loop_outcome.splits)
    then show ?thesis using retryLoop_once [OF loop] env by (fastforce simp: envelope_message_def)
  qed
  then show "\<exists>ps. once grp handle db db' ps \<and> (\<forall>p \<in> set ps. \<exists>env. fr_Value r = Some env \<and> snd p = envelope_message r env)"
    "ok \<Longrightarrow> ri_Produced inp \<Longrightarrow> dl \<noteq> [] \<or> (\<exists>env. fr_Value r = Some env \<and> (grp, ev_EventId env) \<in> set (processed_messages db'))"
    by blast+
qed

text \<open>Deliveries in any order, any number of times, by any members of the group.\<close>

definition deliver :: "('e goerr \<Rightarrow> string) \<Rightarrow> nat \<Rightarrow> string \<Rightarrow> ('e, 's) handler \<Rightarrow> (record_input \<times> FetchedRecord) list \<Rightarrow> 's inbox_db \<Rightarrow> 's inbox_db" where
  "deliver errText n grp handle ds db = fold (\<lambda>(inp, r) db. snd (snd (processWithRetry errText n grp handle inp r db))) ds db"

lemma deliver_once:
  "\<exists>ps. once grp handle db (deliver errText n grp handle ds db) ps
     \<and> (\<forall>p \<in> set ps. \<exists>d \<in> set ds. \<exists>env. fr_Value (snd d) = Some env \<and> snd p = envelope_message (snd d) env)"
proof (induction ds arbitrary: db)
  case Nil
  then show ?case using once_refl by (fastforce simp: deliver_def)
next
  case (Cons d ds)
  obtain inp r where d: "d = (inp, r)" by fastforce
  obtain ok dl db1 where p: "processWithRetry errText n grp handle inp r db = (ok, dl, db1)" using prod_cases3 by blast
  obtain ps where ps: "once grp handle db db1 ps" "\<forall>p \<in> set ps. \<exists>env. fr_Value r = Some env \<and> snd p = envelope_message r env"
    using processWithRetry_once(1) [OF p] by blast
  obtain qs where qs: "once grp handle db1 (deliver errText n grp handle ds db1) qs"
    "\<forall>p \<in> set qs. \<exists>d \<in> set ds. \<exists>env. fr_Value (snd d) = Some env \<and> snd p = envelope_message (snd d) env" using Cons.IH by blast
  have "once grp handle db (deliver errText n grp handle (d # ds) db) (ps @ qs)"
    using once_trans [OF ps(1) qs(1)] p d by (simp add: deliver_def)
  moreover have "\<forall>p \<in> set (ps @ qs). \<exists>d \<in> set (d # ds). \<exists>env. fr_Value (snd d) = Some env \<and> snd p = envelope_message (snd d) env"
    using ps(2) qs(2) d by fastforce
  ultimately show ?case by blast
qed

text \<open>
  C10. Every event takes effect exactly once: however often and in whatever order records are delivered, with
  whatever failures, retries, unconfirmed commits and restarts, the tables are what handling some delivered
  events one after the other gives, each event id at most once, and these are exactly the ids the inbox
  has recorded.
\<close>

theorem consumer_exactly_once:
  "\<exists>ps. processed_messages (deliver errText n grp handle ds \<lparr>processed_messages = [], tables = s\<rparr>) = map (\<lambda>p. (grp, em_EventID (snd p))) ps
     \<and> distinct (map (\<lambda>p. em_EventID (snd p)) ps)
     \<and> handle_all handle ps s = Inr (tables (deliver errText n grp handle ds \<lparr>processed_messages = [], tables = s\<rparr>))
     \<and> list_all (\<lambda>p. list_ex (\<lambda>d. map_option (envelope_message (snd d)) (fr_Value (snd d)) = Some (snd p)) ds) ps"
  using deliver_once [of grp handle "\<lparr>processed_messages = [], tables = s\<rparr>" errText n ds]
  by (fastforce simp: once_def list_all_iff list_ex_iff)

text \<open>
  No event is lost silently: when the consumer marks a record as consumed and the dead-letter topic
  acknowledges what is sent to it, the event is recorded as handled or is a dead letter.
\<close>

theorem consumer_marks_settled:
  assumes "processWithRetry errText n grp handle inp r db = (True, dl, db')" and "ri_Produced inp"
  shows "dl \<noteq> [] \<or> (\<exists>env. fr_Value r = Some env \<and> (grp, ev_EventId env) \<in> set (processed_messages db'))"
  using processWithRetry_once(2) [OF assms(1)] assms(2) by blast

text \<open>
  The acknowledgement matters: an event that cannot be handled, whose dead letter is not
  acknowledged either, is marked as consumed all the same.
\<close>

lemma retryLoop_fails:
  assumes "\<And>env. \<exists>err. handle env msg (tables db) = Inl err" and "(grp, em_EventID msg) \<notin> set (processed_messages db)"
    and "\<And>i. \<not> ai_Interrupted (ins i) \<and> \<not> ai_Cancelled (ins i)"
  shows "\<exists>cause. retryLoop n grp handle ins msg attempt lastErr db = (GaveUp cause, db)"
proof (induction "n + 1 - attempt" arbitrary: attempt lastErr)
  case (Suc k)
  have "\<exists>err. processOnce grp handle (ai_Tx (ins attempt)) msg db = (Inl err, db)"
    using assms(1) [of "(ai_Tx (ins attempt))\<lparr>env_request_id := em_RequestID msg\<rparr>"] assms(2)
    by (auto simp: processOnce_def split: option.splits)
  then show ?case using Suc.hyps(1) [of "attempt + 1"] Suc.hyps(2) assms(3) by (auto simp: retryLoop.simps [of n grp handle ins msg attempt])
qed (simp add: retryLoop.simps)

lemma unacked_dead_letter_lost:
  assumes "fr_Value r = Some env" and "ev_EventId env \<noteq> ''''" and "\<And>tx. \<exists>err. handle tx (envelope_message r env) (tables db) = Inl err"
    and "(grp, ev_EventId env) \<notin> set (processed_messages db)" and "\<And>i. \<not> ai_Interrupted (ri_Attempts inp i) \<and> \<not> ai_Cancelled (ri_Attempts inp i)"
    and "\<not> ri_Produced inp" and "ri_Alive inp"
  shows "processWithRetry errText n grp handle inp r db = (True, [], db)"
  using retryLoop_fails [of handle "envelope_message r env" db grp "ri_Attempts inp" n 1 None] assms
  by (auto simp: processWithRetry_def toDLQ_def envelope_message_def)

text \<open>What a handler keeps, the consumer keeps.\<close>

locale consumer_handler =
  fixes handle :: "('e, 's) handler" and good :: "'s \<Rightarrow> bool"
  assumes handle_keeps: "good s \<Longrightarrow> handle env msg s = Inr s' \<Longrightarrow> good s'"
begin

lemma handle_all_keeps: "good s \<Longrightarrow> handle_all handle ps s = Inr s' \<Longrightarrow> good s'"
proof (induction ps arbitrary: s)
  case (Cons p ps)
  obtain env msg where p: "p = (env, msg)" by fastforce
  then obtain s1 where "handle env msg s = Inr s1" "handle_all handle ps s1 = Inr s'" using Cons.prems(2) by auto
  then show ?case using Cons.IH handle_keeps [OF Cons.prems(1)] by blast
qed simp

lemma deliver_keeps: "good (tables db) \<Longrightarrow> good (tables (deliver errText n grp handle ds db))"
  using deliver_once [of grp handle db errText n ds] handle_all_keeps by (auto simp: once_def)

end

end
