(* ===== verification/Account.thy ===== *)
theory Account
  imports Account_Domain Consumer Ledger_Client
begin

text \<open>
  The account service, \<open>src/services/account/internal\<close>: its tables and statements (\<open>adapters/postgres\<close>),
  the use cases (\<open>app/service.go\<close>), the client of the ledger (\<open>adapters/ledgerclient\<close>), the event
  handlers (\<open>adapters/kafka/consumers.go\<close>) and the gRPC surface (\<open>adapters/grpc/server.go\<close>). A plain read
  that fails for reasons of the infrastructure returns its error and changes nothing; such reads are
  left out.
\<close>

section \<open>Tables\<close>

record Customer =
  cu_ID :: string
  cu_UserID :: string
  cu_Tier :: string
  cu_CreatedAt :: time

record AccountRow =
  ac_ID :: string
  ac_CustomerID :: string
  ac_Number :: string
  ac_Currency :: string
  ac_Status :: string
  ac_OpenedAt :: time

record ProjectedBalance =
  pb_AccountID :: string
  pb_Balance :: int64
  pb_Version :: int64
  pb_AsOf :: time

record account_db =
  customers :: "Customer list"
  accounts :: "AccountRow list"
  balances :: "ProjectedBalance list"
  a_outbox :: "OutboxRow list"

section \<open>queries.sql.go\<close>

definition status_ok :: "string \<Rightarrow> bool" where
  "status_ok st \<longleftrightarrow> st \<in> {StatusActive, StatusFrozen, StatusClosed}"

definition q_CreateAccount :: "tx_env \<Rightarrow> string \<Rightarrow> string \<Rightarrow> string \<Rightarrow> string \<Rightarrow> account_db \<Rightarrow> pg_error + AccountRow \<times> account_db" where
  "q_CreateAccount env ident customerID number currency s =
    (if currency \<notin> {''KZT'', ''USD''} then Inl CheckViolation
     else if ident \<in> ac_ID ` set (accounts s) \<or> number \<in> ac_Number ` set (accounts s) then Inl UniqueViolation
     else if customerID \<notin> cu_ID ` set (customers s) then Inl ForeignKeyViolation
     else let row = \<lparr>ac_ID = ident, ac_CustomerID = customerID, ac_Number = number, ac_Currency = currency,
                ac_Status = StatusActive, ac_OpenedAt = env_now env\<rparr>
          in Inr (row, s\<lparr>accounts := accounts s @ [row]\<rparr>))"

text \<open>The join of an account with its customer.\<close>

definition owner_of :: "account_db \<Rightarrow> AccountRow \<Rightarrow> Customer option" where
  "owner_of s a = select_one (\<lambda>c. cu_ID c = ac_CustomerID a) (customers s)"

definition with_owner :: "account_db \<Rightarrow> AccountRow list \<Rightarrow> (AccountRow \<times> Customer) list" where
  "with_owner s rows = concat (map (\<lambda>a. case owner_of s a of Some c \<Rightarrow> [(a, c)] | None \<Rightarrow> []) rows)"

definition q_account_GetAccountByID :: "account_db \<Rightarrow> string \<Rightarrow> pg_error + AccountRow \<times> Customer" where
  "q_account_GetAccountByID s ident = one_row (select_one (\<lambda>(a, _). ac_ID a = ident) (with_owner s (accounts s)))"

definition q_GetAccountByNumber :: "account_db \<Rightarrow> string \<Rightarrow> pg_error + AccountRow \<times> Customer" where
  "q_GetAccountByNumber s number = one_row (select_one (\<lambda>(a, _). ac_Number a = number) (with_owner s (accounts s)))"

definition q_GetAccountStatus :: "account_db \<Rightarrow> string \<Rightarrow> pg_error + string" where
  "q_GetAccountStatus s ident = one_row (map_option ac_Status (select_one (\<lambda>a. ac_ID a = ident) (accounts s)))"

definition q_GetBalancesForAccounts :: "account_db \<Rightarrow> string list \<Rightarrow> ProjectedBalance list" where
  "q_GetBalancesForAccounts s ids = filter (\<lambda>b. pb_AccountID b \<in> set ids) (balances s)"

definition q_GetCustomerByUserID :: "account_db \<Rightarrow> string \<Rightarrow> pg_error + Customer" where
  "q_GetCustomerByUserID s userID = one_row (select_one (\<lambda>c. cu_UserID c = userID) (customers s))"

definition q_ListAccountsByUser :: "account_db \<Rightarrow> string \<Rightarrow> (AccountRow \<times> Customer) list" where
  "q_ListAccountsByUser s userID = sort_key (\<lambda>(a, _). ac_OpenedAt a) (filter (\<lambda>(_, c). cu_UserID c = userID) (with_owner s (accounts s)))"

definition q_UpdateAccountStatus :: "string \<Rightarrow> string \<Rightarrow> account_db \<Rightarrow> pg_error + AccountRow \<times> account_db" where
  "q_UpdateAccountStatus ident status s = (case select_one (\<lambda>a. ac_ID a = ident) (accounts s) of
      None \<Rightarrow> Inl ErrNoRows
    | Some a \<Rightarrow> if \<not> status_ok status then Inl CheckViolation
        else Inr (a\<lparr>ac_Status := status\<rparr>,
          s\<lparr>accounts := update_where (\<lambda>a. ac_ID a = ident) (\<lambda>a. a\<lparr>ac_Status := status\<rparr>) (accounts s)\<rparr>))"

text \<open>The version-guarded upsert: the number of rows it wrote.\<close>

definition q_UpsertBalanceGuarded :: "ProjectedBalance \<Rightarrow> account_db \<Rightarrow> pg_error + nat \<times> account_db" where
  "q_UpsertBalanceGuarded row s = (case select_one (\<lambda>b. pb_AccountID b = pb_AccountID row) (balances s) of
      None \<Rightarrow> if pb_AccountID row \<notin> ac_ID ` set (accounts s) then Inl ForeignKeyViolation
        else Inr (1, s\<lparr>balances := balances s @ [row]\<rparr>)
    | Some b \<Rightarrow> if pb_Version b <s pb_Version row
        then Inr (1, s\<lparr>balances := update_where (\<lambda>b. pb_AccountID b = pb_AccountID row) (\<lambda>_. row) (balances s)\<rparr>)
        else Inr (0, s))"

definition q_UpsertCustomer :: "tx_env \<Rightarrow> string \<Rightarrow> account_db \<Rightarrow> pg_error + Customer \<times> account_db" where
  "q_UpsertCustomer env userID s = (case select_one (\<lambda>c. cu_UserID c = userID) (customers s) of
      Some c \<Rightarrow> Inr (c, s)
    | None \<Rightarrow> if env_gen_uuid env \<in> cu_ID ` set (customers s) then Inl UniqueViolation
        else let c = \<lparr>cu_ID = env_gen_uuid env, cu_UserID = userID, cu_Tier = ''default'', cu_CreatedAt = env_now env\<rparr>
             in Inr (c, s\<lparr>customers := customers s @ [c]\<rparr>))"

section \<open>ledgerclient\<close>

record BalanceView =
  bv_AccountID :: string
  bv_Balance :: int64
  bv_Held :: int64
  bv_Available :: int64
  bv_AsOf :: time

record TransactionView =
  txv_EntryID :: string
  txv_AccountID :: string
  txv_Amount :: int64
  txv_Currency :: string
  txv_OccurredAt :: time

definition exec_CreateAccount :: "string \<Rightarrow> string \<Rightarrow> ledger_call \<Rightarrow> ledger_db \<Rightarrow> (ledger_err + LedgerAccountMsg) \<times> ledger_db" where
  "exec_CreateAccount ext cur c l = server_CreateAccount (at_env (lc_first c)) ext cur (at_others (lc_first c) l)"

definition client_CreateAccount :: "ledger_call \<Rightarrow> ledger_call list \<Rightarrow> string \<Rightarrow> string \<Rightarrow> ledger_db \<Rightarrow> (account_err + unit) \<times> ledger_db" where
  "client_CreateAccount c cs ext cur l = (case ledger_rpc (exec_CreateAccount ext cur) c cs l of
      (Inl err, l') \<Rightarrow> (Inl (FromGRPC err), l') | (Inr _, l') \<Rightarrow> (Inr (), l'))"

definition exec_GetBalances :: "string list \<Rightarrow> ledger_call \<Rightarrow> ledger_db \<Rightarrow> (ledger_err + AccountBalanceMsg list) \<times> ledger_db" where
  "exec_GetBalances exts c l = (let l' = at_others (lc_first c) l in (server_GetBalances l' (map ExternalAccountId exts), l'))"

text \<open>The result is a Go map: a later row of the same account replaces an earlier one.\<close>

definition client_GetBalances :: "ledger_call \<Rightarrow> ledger_call list \<Rightarrow> string list \<Rightarrow> ledger_db
     \<Rightarrow> (account_err + (string \<rightharpoonup> BalanceView)) \<times> ledger_db" where
  "client_GetBalances c cs exts l = (case ledger_rpc (exec_GetBalances exts) c cs l of
      (Inl err, l') \<Rightarrow> (Inl (FromGRPC err), l')
    | (Inr rows, l') \<Rightarrow> (Inr (map_of (rev (map (\<lambda>b. (bm_ExternalAccountId b, \<lparr>bv_AccountID = bm_ExternalAccountId b,
         bv_Balance = bm_Balance b, bv_Held = bm_Held b, bv_Available = bm_Available b, bv_AsOf = bm_AsOf b\<rparr>)) rows))), l'))"

definition exec_ListPostings :: "string \<Rightarrow> time \<Rightarrow> time \<Rightarrow> int32 \<Rightarrow> string \<Rightarrow> ledger_call \<Rightarrow> ledger_db
     \<Rightarrow> (ledger_err + PostingMsg list \<times> string) \<times> ledger_db" where
  "exec_ListPostings ext from to pageSize cursor c l = (let l' = at_others (lc_first c) l in
     (server_ListPostings l' (ExternalAccountId ext) (Some from) (Some to) pageSize cursor, l'))"

definition client_ListPostings :: "ledger_call \<Rightarrow> ledger_call list \<Rightarrow> string \<Rightarrow> time \<Rightarrow> time \<Rightarrow> int32 \<Rightarrow> string \<Rightarrow> ledger_db
     \<Rightarrow> (account_err + TransactionView list \<times> string) \<times> ledger_db" where
  "client_ListPostings c cs ext from to pageSize cursor l = (case ledger_rpc (exec_ListPostings ext from to pageSize cursor) c cs l of
      (Inl err, l') \<Rightarrow> (Inl (FromGRPC err), l')
    | (Inr (rows, nxt), l') \<Rightarrow> (Inr (map (\<lambda>p. \<lparr>txv_EntryID = pm_EntryId p, txv_AccountID = pm_ExternalAccountId p,
         txv_Amount = MinorUnits (pm_Amount p), txv_Currency = MoneyCurrency (pm_Amount p), txv_OccurredAt = pm_OccurredAt p\<rparr>) rows, nxt), l'))"

section \<open>service.go\<close>

record AccountView =
  av_ID :: string
  av_CustomerID :: string
  av_UserID :: string
  av_Number :: string
  av_Currency :: string
  av_Status :: string
  av_OpenedAt :: time

definition rowToView :: "AccountRow \<Rightarrow> string \<Rightarrow> AccountView" where
  "rowToView a userID = \<lparr>av_ID = ac_ID a, av_CustomerID = ac_CustomerID a, av_UserID = userID, av_Number = ac_Number a,
     av_Currency = ac_Currency a, av_Status = ac_Status a, av_OpenedAt = ac_OpenedAt a\<rparr>"

text \<open>The digits \<open>crypto/rand\<close> draws one by one; \<open>None\<close> when it fails.\<close>

fun randomDigits :: "nat \<Rightarrow> (nat \<Rightarrow> nat option) \<Rightarrow> account_err + string" where
  "randomDigits 0 draw = Inr ''''"
| "randomDigits (Suc n) draw = sum_bind (randomDigits n draw) (\<lambda>ds. case draw n of
     None \<Rightarrow> Inl (Opaque ''rand'') | Some d \<Rightarrow> Inr (ds @ [digit_char d]))"

definition TopicAccountsEvents :: string where "TopicAccountsEvents = ''accounts.events''"

definition accountMsg :: "AccountRow \<Rightarrow> string \<Rightarrow> AccountMsg" where
  "accountMsg a userID = \<lparr>am_Id = ac_ID a, am_CustomerId = ac_CustomerID a, am_UserId = userID, am_Number = ac_Number a,
     am_Currency = ac_Currency a, am_Status = ac_Status a, am_OpenedAt = ac_OpenedAt a\<rparr>"

definition openTx :: "tx_env \<Rightarrow> string \<Rightarrow> string \<Rightarrow> string \<Rightarrow> string \<Rightarrow> string \<Rightarrow> account_db \<Rightarrow> account_err + AccountView \<times> account_db" where
  "openTx env ident customerID userID number currency s =
    sum_bind (map_left rawErr (q_CreateAccount env ident customerID number currency s)) (\<lambda>(acc, s1).
    sum_bind (NewProtoMessage env 1 TopicAccountsEvents (ac_ID acc) (env_request_id env) (AccountOpened (accountMsg acc userID))) (\<lambda>msg.
    sum_bind (outbox_Insert env msg (a_outbox s1)) (\<lambda>ob. Inr (rowToView acc userID, s1\<lparr>a_outbox := ob\<rparr>))))"

text \<open>The inputs of \<open>OpenAccount\<close>: the random digits, the upsert, the ledger call, what others do meanwhile, the transaction.\<close>

record open_env =
  oe_draw :: "nat \<Rightarrow> nat option"
  oe_upsert :: tx_env
  oe_call :: ledger_call
  oe_retries :: "ledger_call list"
  oe_others :: "account_db \<times> ledger_db \<Rightarrow> account_db \<times> ledger_db"
  oe_tx :: tx_env

definition OpenAccount :: "open_env \<Rightarrow> Claims \<Rightarrow> string \<Rightarrow> account_db \<times> ledger_db \<Rightarrow> (account_err + AccountView) \<times> account_db \<times> ledger_db" where
  "OpenAccount oe caller currency st = (case st of (s, l) \<Rightarrow>
    (if cl_CustomerID caller = '''' then (Inl (app_New CodeUnauthenticated ''no caller identity''), s, l)
     else if \<not> ValidCurrency currency then (Inl (app_New CodeInvalidArgument (''unsupported currency '' @ currency)), s, l)
     else case randomDigits 13 (oe_draw oe) of
       Inl err \<Rightarrow> (Inl (app_Wrap CodeInternal ''entropy'' err), s, l)
     | Inr random \<Rightarrow> (case GenerateNumber random of
       Inl err \<Rightarrow> (Inl (app_Wrap CodeInternal ''generate number'' err), s, l)
     | Inr number \<Rightarrow> (case uuid_NewV7 (oe_tx oe) 0 of
       Inl err \<Rightarrow> (Inl (app_Wrap CodeInternal ''uuid'' err), s, l)
     | Inr ident \<Rightarrow> (case statement (oe_upsert oe) (q_UpsertCustomer (oe_upsert oe) (cl_CustomerID caller)) s of
       (Inl err, s1) \<Rightarrow> (Inl err, s1, l)
     | (Inr customer, s1) \<Rightarrow> (case client_CreateAccount (oe_call oe) (oe_retries oe) ident currency l of
       (Inl err, l1) \<Rightarrow> (Inl err, s1, l1)
     | (Inr _, l1) \<Rightarrow>
         (case oe_others oe (s1, l1) of (s2, l2) \<Rightarrow>
         (case WithTx (\<lambda>_. True) (oe_tx oe) (openTx (oe_tx oe) ident (cu_ID customer) (cl_CustomerID caller) number currency) s2 of
            (res, s3) \<Rightarrow> (res, s3, l2)))))))))"

definition account_GetAccount :: "Claims \<Rightarrow> account_db \<Rightarrow> string \<Rightarrow> account_err + AccountView" where
  "account_GetAccount caller s accountID = (case q_account_GetAccountByID s accountID of
      Inl err \<Rightarrow> Inl (if err = ErrNoRows then app_New CodeNotFound ''account not found'' else rawErr err)
    | Inr (a, c) \<Rightarrow>
        if \<not> IsStaff caller \<and> cu_UserID c \<noteq> cl_CustomerID caller
        then Inl (app_New CodeForbidden ''account does not belong to caller'') else Inr (rowToView a (cu_UserID c)))"

definition ResolveByNumber :: "account_db \<Rightarrow> string \<Rightarrow> account_err + AccountView" where
  "ResolveByNumber s number =
    (if \<not> ValidNumber number then Inl (app_New CodeInvalidArgument ''malformed account number'')
     else case q_GetAccountByNumber s number of
         Inl err \<Rightarrow> Inl (if err = ErrNoRows then app_New CodeNotFound ''account not found'' else rawErr err)
       | Inr (a, c) \<Rightarrow> Inr (rowToView a (cu_UserID c)))"

definition projectedView :: "account_db \<Rightarrow> string list \<Rightarrow> string \<Rightarrow> BalanceView" where
  "projectedView s ids ident = (case map_of (rev (map (\<lambda>b. (pb_AccountID b, b)) (if ids = [] then [] else q_GetBalancesForAccounts s ids))) ident of
      Some b \<Rightarrow> \<lparr>bv_AccountID = pb_AccountID b, bv_Balance = pb_Balance b, bv_Held = 0, bv_Available = pb_Balance b, bv_AsOf = pb_AsOf b\<rparr>
    | None \<Rightarrow> \<lparr>bv_AccountID = ident, bv_Balance = 0, bv_Held = 0, bv_Available = 0, bv_AsOf = zeroTime\<rparr>)"

definition ListAccounts :: "Claims \<Rightarrow> account_db \<Rightarrow> string \<Rightarrow> account_err + (AccountView \<times> BalanceView) list" where
  "ListAccounts caller s userID =
    sum_bind (if userID \<noteq> '''' \<and> userID \<noteq> cl_CustomerID caller
        then if \<not> IsStaff caller then Inl (app_New CodeForbidden ''cannot list another customer's accounts'') else Inr userID
        else Inr (cl_CustomerID caller)) (\<lambda>target.
      if target = '''' then Inl (app_New CodeUnauthenticated ''no caller identity'')
      else let rows = q_ListAccountsByUser s target; ids = map (\<lambda>(a, _). ac_ID a) rows
           in Inr (map (\<lambda>(a, c). (rowToView a (cu_UserID c), projectedView s ids (ac_ID a))) rows))"

text \<open>\<open>between\<close>: what others commit between the read and the update.\<close>

definition setStatus :: "tx_env \<Rightarrow> (account_db \<Rightarrow> account_db) \<Rightarrow> Claims \<Rightarrow> string \<Rightarrow> string \<Rightarrow> account_db \<Rightarrow> (account_err + AccountView) \<times> account_db" where
  "setStatus env between caller accountID to s =
    (if \<not> IsStaff caller then (Inl (app_New CodeForbidden ''support/admin role required''), s)
     else case q_account_GetAccountByID s accountID of
         Inl err \<Rightarrow> (Inl (if err = ErrNoRows then app_New CodeNotFound ''account not found'' else rawErr err), s)
       | Inr (a, c) \<Rightarrow>
           if ac_Status a = to then (Inr (rowToView a (cu_UserID c)), s)
           else if \<not> CanTransition (ac_Status a) to
           then (Inl (app_New CodeInvalidArgument (''cannot transition '' @ ac_Status a @ '' to '' @ to)), s)
           else (case statement env (q_UpdateAccountStatus accountID to) (between s) of
               (Inl err, s') \<Rightarrow> (Inl err, s')
             | (Inr acc, s') \<Rightarrow> (Inr (rowToView acc (cu_UserID c)), s')))"

definition Freeze :: "tx_env \<Rightarrow> (account_db \<Rightarrow> account_db) \<Rightarrow> Claims \<Rightarrow> string \<Rightarrow> account_db \<Rightarrow> (account_err + AccountView) \<times> account_db" where
  "Freeze env between caller accountID s = setStatus env between caller accountID StatusFrozen s"

definition Unfreeze :: "tx_env \<Rightarrow> (account_db \<Rightarrow> account_db) \<Rightarrow> Claims \<Rightarrow> string \<Rightarrow> account_db \<Rightarrow> (account_err + AccountView) \<times> account_db" where
  "Unfreeze env between caller accountID s = setStatus env between caller accountID StatusActive s"

definition account_GetBalances :: "ledger_call \<Rightarrow> ledger_call list \<Rightarrow> Claims \<Rightarrow> account_db \<Rightarrow> string list \<Rightarrow> ledger_db
     \<Rightarrow> (account_err + BalanceView list) \<times> ledger_db" where
  "account_GetBalances c cs caller s ids l =
    (if ids = [] then (Inl (app_New CodeInvalidArgument ''account_ids required''), l)
     else case map_err (account_GetAccount caller s) ids of
         Inl err \<Rightarrow> (Inl err, l)
       | Inr _ \<Rightarrow> (case client_GetBalances c cs ids l of
           (Inl err, l') \<Rightarrow> (Inl err, l')
         | (Inr m, l') \<Rightarrow> (Inr (concat (map (\<lambda>k. case m k of Some b \<Rightarrow> [b] | None \<Rightarrow> []) ids)), l')))"

definition ListTransactions :: "ledger_call \<Rightarrow> ledger_call list \<Rightarrow> Claims \<Rightarrow> account_db \<Rightarrow> string \<Rightarrow> time \<Rightarrow> time \<Rightarrow> int32 \<Rightarrow> string \<Rightarrow> ledger_db
     \<Rightarrow> (account_err + TransactionView list \<times> string) \<times> ledger_db" where
  "ListTransactions c cs caller s accountID from to pageSize cursor l = (case account_GetAccount caller s accountID of
      Inl err \<Rightarrow> (Inl err, l)
    | Inr _ \<Rightarrow> client_ListPostings c cs accountID from to pageSize cursor l)"

section \<open>consumers.go\<close>

definition applyProjection :: "TransactionPostedMsg \<Rightarrow> account_db \<Rightarrow> account_err + account_db" where
  "applyProjection event s =
    (if tp_ExternalAccountId event = '''' then Inr s
     else case q_UpsertBalanceGuarded \<lparr>pb_AccountID = tp_ExternalAccountId event, pb_Balance = tp_BalanceAfter event,
           pb_Version = tp_Version event, pb_AsOf = jm_OccurredAt (tp_Entry event)\<rparr> s of
         Inl err \<Rightarrow> Inl (Wrapped ''projection upsert'' (rawErr err))
       | Inr (n, s') \<Rightarrow> Inr s')"

definition applyFreeze :: "tx_env \<Rightarrow> FraudAlertMsg \<Rightarrow> account_db \<Rightarrow> account_err + account_db" where
  "applyFreeze env event s =
    (if fa_Severity event \<noteq> ''HIGH'' \<or> fa_AccountId event = '''' then Inr s
     else case q_GetAccountStatus s (fa_AccountId event) of
         Inl err \<Rightarrow> if err = ErrNoRows then Inr s else Inl (rawErr err)
       | Inr current \<Rightarrow>
           if current \<noteq> StatusActive then Inr s
           else sum_bind (map_left (\<lambda>e. Wrapped ''freeze'' (rawErr e)) (q_UpdateAccountStatus (fa_AccountId event) StatusFrozen s)) (\<lambda>(_, s1).
             sum_bind (NewProtoMessage env 0 TopicAccountsEvents (fa_AccountId event) (env_request_id env)
                 (AccountFrozen (fa_AccountId event) (''fraud:'' @ fa_Rule event))) (\<lambda>msg.
             sum_bind (outbox_Insert env msg (a_outbox s1)) (\<lambda>ob. Inr (s1\<lparr>a_outbox := ob\<rparr>)))))"

definition bootstrapCustomer :: "tx_env \<Rightarrow> string \<Rightarrow> account_db \<Rightarrow> account_err + account_db" where
  "bootstrapCustomer env userID s =
    (if userID = '''' then Inr s
     else case q_UpsertCustomer env userID s of
         Inl err \<Rightarrow> Inl (Wrapped ''customer bootstrap'' (rawErr err)) | Inr (_, s') \<Rightarrow> Inr s')"

definition Handle :: "(account_sentinel, account_db) handler" where
  "Handle env msg s = (case ev_Payload (em_Envelope msg) of
      TransactionPosted event \<Rightarrow> applyProjection event s
    | FraudAlertRaised event \<Rightarrow> applyFreeze env event s
    | CustomerRegistered userID _ _ \<Rightarrow> bootstrapCustomer env userID s
    | _ \<Rightarrow> Inr s)"

abbreviation account_group :: string where "account_group \<equiv> ''account''"

section \<open>grpc/server.go\<close>

definition account_toProto :: "AccountView \<Rightarrow> AccountMsg" where
  "account_toProto a = \<lparr>am_Id = av_ID a, am_CustomerId = av_CustomerID a, am_UserId = av_UserID a, am_Number = av_Number a,
     am_Currency = av_Currency a, am_Status = av_Status a, am_OpenedAt = av_OpenedAt a\<rparr>"

definition account_edge :: "('a \<Rightarrow> 'b) \<Rightarrow> account_err + 'a \<Rightarrow> account_err + 'b" where
  "account_edge f res = (case res of Inl err \<Rightarrow> Inl (ToGRPC err) | Inr x \<Rightarrow> Inr (f x))"

definition server_OpenAccount :: "open_env \<Rightarrow> call_ctx \<Rightarrow> string \<Rightarrow> account_db \<times> ledger_db \<Rightarrow> (account_err + AccountMsg) \<times> account_db \<times> ledger_db" where
  "server_OpenAccount oe ctx currency st = (case OpenAccount oe (ctx_Claims ctx) currency st of
     (res, st') \<Rightarrow> (account_edge account_toProto res, st'))"

definition server_GetAccount :: "call_ctx \<Rightarrow> account_db \<Rightarrow> string \<Rightarrow> account_err + AccountMsg" where
  "server_GetAccount ctx s ident = account_edge account_toProto (account_GetAccount (ctx_Claims ctx) s ident)"

definition server_ListAccountsByCustomer :: "call_ctx \<Rightarrow> account_db \<Rightarrow> string \<Rightarrow> account_err + (AccountMsg \<times> BalanceView) list" where
  "server_ListAccountsByCustomer ctx s userID =
     account_edge (map (\<lambda>(a, b). (account_toProto a, b))) (ListAccounts (ctx_Claims ctx) s userID)"

definition server_ResolveByNumber :: "account_db \<Rightarrow> string \<Rightarrow> account_err + AccountMsg" where
  "server_ResolveByNumber s number = account_edge account_toProto (ResolveByNumber s number)"

definition server_Freeze :: "tx_env \<Rightarrow> (account_db \<Rightarrow> account_db) \<Rightarrow> call_ctx \<Rightarrow> string \<Rightarrow> account_db \<Rightarrow> (account_err + AccountMsg) \<times> account_db" where
  "server_Freeze env between ctx ident s = (case Freeze env between (ctx_Claims ctx) ident s of (res, s') \<Rightarrow> (account_edge account_toProto res, s'))"

definition server_Unfreeze :: "tx_env \<Rightarrow> (account_db \<Rightarrow> account_db) \<Rightarrow> call_ctx \<Rightarrow> string \<Rightarrow> account_db \<Rightarrow> (account_err + AccountMsg) \<times> account_db" where
  "server_Unfreeze env between ctx ident s = (case Unfreeze env between (ctx_Claims ctx) ident s of (res, s') \<Rightarrow> (account_edge account_toProto res, s'))"

definition server_account_GetBalances :: "ledger_call \<Rightarrow> ledger_call list \<Rightarrow> call_ctx \<Rightarrow> account_db \<Rightarrow> string list \<Rightarrow> ledger_db
     \<Rightarrow> (account_err + BalanceView list) \<times> ledger_db" where
  "server_account_GetBalances c cs ctx s ids l = (case account_GetBalances c cs (ctx_Claims ctx) s ids l of
     (res, l') \<Rightarrow> (account_edge (\<lambda>x. x) res, l'))"

text \<open>Without a lower bound the time range starts at the zero time.\<close>

definition server_ListTransactions :: "ledger_call \<Rightarrow> ledger_call list \<Rightarrow> time \<Rightarrow> call_ctx \<Rightarrow> account_db \<Rightarrow> string \<Rightarrow> time option \<Rightarrow> time option
     \<Rightarrow> int32 \<Rightarrow> string \<Rightarrow> ledger_db \<Rightarrow> (account_err + TransactionView list \<times> string) \<times> ledger_db" where
  "server_ListTransactions c cs now ctx s accountID from to pageSize cursor l =
    (case ListTransactions c cs (ctx_Claims ctx) s accountID (case from of None \<Rightarrow> zeroTime | Some t \<Rightarrow> t)
        (case to of None \<Rightarrow> now | Some t \<Rightarrow> t) pageSize cursor l of
       (res, l') \<Rightarrow> (account_edge (\<lambda>x. x) res, l'))"

end
