(* ===== verification/Ledger_Names.thy ===== *)
theory Ledger_Names
  imports Ledger_Replay
begin

text \<open>
  The events of the ledger and the accounts they are about: an invariant of every reachable ledger that
  the consumers of the events rely on.
\<close>

section \<open>The events of the ledger name their accounts\<close>

text \<open>
  An event carries the identifiers of one account row; no two rows share an external
  identifier and none is empty.
\<close>

definition names :: "LedgerAccount \<Rightarrow> string \<times> string" where
  "names row = (la_ID row, text_or_empty (la_ExternalAccountID row))"

definition events_named :: "ledger_db \<Rightarrow> bool" where
  "events_named l \<longleftrightarrow> (\<forall>m. TransactionPosted m \<in> ob_event ` set (outbox l)
     \<longrightarrow> (tp_AccountId m, tp_ExternalAccountId m) \<in> names ` set (ledger_accounts l))"

definition external_ids :: "LedgerAccount list \<Rightarrow> string list" where
  "external_ids rows = map the (filter (\<lambda>e. e \<noteq> None) (map la_ExternalAccountID rows))"

definition names_ok :: "ledger_db \<Rightarrow> bool" where
  "names_ok l \<longleftrightarrow> events_named l \<and> distinct (external_ids (ledger_accounts l)) \<and> '''' \<notin> set (external_ids (ledger_accounts l))"

lemma external_ids_set: "x \<in> set (external_ids rows) \<longleftrightarrow> Some x \<in> la_ExternalAccountID ` set rows"
  by (induction rows) (auto simp: external_ids_def)

lemma external_ids_append [simp]: "external_ids (rows @ rows') = external_ids rows @ external_ids rows'"
  by (simp add: external_ids_def)

text \<open>So an external identifier belongs to one row.\<close>

lemma external_ids_inj:
  assumes "distinct (external_ids rows)" and "a \<in> set rows" "b \<in> set rows" "la_ExternalAccountID a = Some e" "la_ExternalAccountID b = Some e"
  shows "a = b"
  using assms
proof (induction rows)
  case (Cons r rows)
  have *: "la_ExternalAccountID r = Some e \<Longrightarrow> e \<notin> set (external_ids rows)" "distinct (external_ids rows)"
    using Cons.prems(1) external_ids_append [of "[r]" rows] by (auto simp: external_ids_def [of "[r]"])
  have "x \<in> set rows \<Longrightarrow> la_ExternalAccountID x = Some e \<Longrightarrow> e \<in> set (external_ids rows)" for x
    unfolding external_ids_set by (metis imageI)
  then show ?case using Cons.IH [OF *(2)] Cons.prems *(1) by auto
qed simp

lemma names_ok_cong:
  "ledger_accounts l' = ledger_accounts l \<Longrightarrow> ob_event ` set (outbox l') = ob_event ` set (outbox l) \<Longrightarrow> names_ok l' \<longleftrightarrow> names_ok l"
  by (simp add: names_ok_def events_named_def)

lemma placeHoldTx_names:
  "placeHoldTx env snap ref amount cur refType refID ttl s = Inr (h, s') \<Longrightarrow> names_ok s' = names_ok s"
  by (auto simp: placeHoldTx_def placeNewHold_def Let_def tx_InsertHold_def q_InsertHold_def tx_UpdateBalance_Inr
      split: sum.splits if_splits intro!: names_ok_cong)

lemma releaseHoldTx_names: "releaseHoldTx env holdID s = Inr (h, s') \<Longrightarrow> names_ok s' = names_ok s"
  by (auto simp: releaseHoldTx_def Let_def tx_UpdateBalance_Inr tx_SetHoldStatus_Inr split: if_splits intro!: names_ok_cong)

lemma UpsertCustomerAccount_names:
  assumes "names_ok s" and "ext \<noteq> ''''" and up: "UpsertCustomerAccount env ext cur s = Inr (acc, s')"
  shows "names_ok s'"
  using up
proof (cases rule: UpsertCustomerAccount_Inr)
  case existing
  then show ?thesis using assms(1) by simp
next
  case (created row)
  have rows: "ledger_accounts s' = ledger_accounts s @ [row]" "outbox s' = outbox s"
    using created(6) by (auto simp: q_InsertBalanceRow_def split: if_splits)
  have "Some ext \<notin> la_ExternalAccountID ` set (ledger_accounts s)"
  proof
    assume "Some ext \<in> la_ExternalAccountID ` set (ledger_accounts s)"
    then have "s' = s" using up
      by (auto simp: UpsertCustomerAccount_def q_InsertCustomerAccount_def split: sum.splits if_splits)
    then show False using rows(1) by simp
  qed
  then have "ext \<notin> set (external_ids (ledger_accounts s))" by (simp add: external_ids_set)
  moreover have "external_ids [row] = [ext]" using created(5) by (simp add: external_ids_def)
  moreover have "events_named s'" using assms(1) by (simp add: names_ok_def events_named_def rows)
  ultimately show ?thesis using assms(1,2) by (simp add: names_ok_def rows)
qed

lemma post_effect_names:
  assumes "names_ok s" and eff: "post_effect env refType refID accounts ps delta heldAdj bs view new s s1 s'"
    and out: "outbox s1 = outbox s"
  shows "names_ok s'"
proof -
  let ?ks = "sort (map fst delta)"
  have net: "netDelta ps = Inr delta" and acc: "accounts_from s accounts"
    and valid: "ValidateEntry ps accounts = Inr ()"
    and new: "map ob_event new = map (\<lambda>(k, b). postedEvent (account_at accounts k) view k b) (zip ?ks bs)"
    and s': "outbox s' = outbox s @ new" "ledger_accounts s' = ledger_accounts s"
    using eff by (simp_all add: post_effect_def)
  have "(tp_AccountId m, tp_ExternalAccountId m) \<in> names ` set (ledger_accounts s)" if "TransactionPosted m \<in> ob_event ` set new" for m
  proof -
    have "TransactionPosted m \<in> set (map ob_event new)" using that by simp
    then obtain k b where kb: "(k, b) \<in> set (zip ?ks bs)" and m: "TransactionPosted m = postedEvent (account_at accounts k) view k b"
      unfolding new by auto
    have k: "k \<in> set ?ks" "TransactionPosted m = postedEvent (account_at accounts k) view k b"
      using set_zip_leftD [OF kb] m by auto
    then have "k \<in> post_AccountID ` set ps" using netDelta_Inr(2) [OF net] by simp
    then obtain a where a: "map_of accounts k = Some a"
      using ValidateEntry_sound(2) [OF valid] by (fastforce simp: list_all_iff well_formed_leg_def)
    from accounts_fromD [OF acc a] obtain row where "row \<in> set (ledger_accounts s)" "a = accountFromRow row" "la_ID row = k" .
    then show ?thesis using k(2) a by (intro image_eqI [of _ _ row]) (auto simp: names_def postedEvent_def account_at_def accountFromRow_def)
  qed
  then have "events_named s'" using assms(1) by (auto simp: names_ok_def events_named_def s')
  then show ?thesis using assms(1) by (simp add: names_ok_def s')
qed

lemma postOnceTx_names:
  assumes "names_ok s" and "snapshot_of snap s" and "postOnceTx env snap refType refID holdID specs s = Inr (view, s')"
  shows "names_ok s'"
  using assms(3,2)
proof (cases rule: postOnceTx_cases)
  case (fresh accounts ps)
  obtain delta heldAdj s1 bs new where cap: "captureHoldStep refType refID holdID delta s = Inr (heldAdj, s1)"
    and eff: "post_effect env refType refID accounts ps delta heldAdj bs view new s s1 s'" by (rule postNew_effect [OF fresh(3,2)])
  have "outbox s1 = outbox s" by (rule captureHoldStep_Inr [OF cap]; simp)
  then show ?thesis by (rule post_effect_names [OF assms(1) eff])
qed (use assms(1) in simp)

lemma WithinTx_names:
  assumes "names_ok s" and "WithinTx env fn s = (res, s')" and "\<And>x s'. fn s = Inr (x, s') \<Longrightarrow> names_ok s'"
  shows "names_ok s'"
  using WithTx_state [of check_entry_zero_sum env fn s res s'] assms by (auto simp: WithinTx_def)

lemma ledger_step_names: "ledger_step s s' \<Longrightarrow> names_ok s \<Longrightarrow> names_ok s'"
proof (induction rule: ledger_step.induct)
  case (create env ext cur s res s')
  then show ?case
    by (auto simp: CreateAccount_def split: if_splits prod.splits sum.splits intro: WithinTx_names UpsertCustomerAccount_names)
next
  case (hold snap s env ref amount cur refType refID ttl res s')
  then show ?case using WithinTx_names placeHoldTx_names by metis
next
  case (release env holdID s res s')
  then show ?case
    by (auto simp: ReleaseHold_def releaseHoldTx_names split: prod.splits sum.splits intro: WithinTx_names)
next
  case (post snap s env refType refID holdID specs res s')
  from post(2) show ?case
  proof (cases rule: PostTransaction_cases)
    case (ran res')
    then show ?thesis using post by (auto simp: postOnce_def intro: WithinTx_names postOnceTx_names)
  qed (use post in simp)
next
  case (relay env locked produce s log res t log')
  have "map ob_event t = map ob_event (outbox s)"
    using arg_cong [OF relayOnce_cases(1) [OF relay(1)], of "map (\<lambda>m. ev_Payload (msg_Payload m))"]
    by (simp add: ob_event_def [abs_def] comp_def)
  from arg_cong [OF this, of set] show ?case using relay(2) names_ok_cong [of "s\<lparr>outbox := t\<rparr>" s] by simp
qed

lemma reachable_names: "ledger_reachable s \<Longrightarrow> names_ok s"
proof -
  have "names_ok (initial_db now)" for now
    by (simp add: names_ok_def events_named_def external_ids_def initial_db_def internal_account_def)
  moreover have "ledger_step\<^sup>*\<^sup>* s s' \<Longrightarrow> names_ok s \<Longrightarrow> names_ok s'" for s s'
    by (induction rule: rtranclp_induct) (auto intro: ledger_step_names)
  ultimately show "ledger_reachable s \<Longrightarrow> names_ok s" by (auto simp: ledger_reachable_def)
qed

end
