(* ===== verification/Account_Safety.thy ===== *)
theory Account_Safety
  imports Account Ledger_Names
begin

text \<open>
  Correctness of the account service: the balances it projects from the events of the ledger, the
  invariant of its tables, the mirroring of every account in the ledger, and who may read what.
\<close>

section \<open>The projected balances\<close>

text \<open>
  What the consumer is given: the events of the ledger come from its outbox, and no other
  event carries the identifier of one of them.
\<close>

definition ledger_envelopes :: "ledger_db \<Rightarrow> EventEnvelope list" where
  "ledger_envelopes l = map (msg_Payload \<circ> ob_Message) (outbox l)"

definition is_posted :: "EventEnvelope \<Rightarrow> bool" where
  "is_posted e = (case ev_Payload e of TransactionPosted _ \<Rightarrow> True | _ \<Rightarrow> False)"

definition published_by :: "ledger_db \<Rightarrow> (record_input \<times> FetchedRecord) list \<Rightarrow> bool" where
  "published_by l ds \<longleftrightarrow> list_all (\<lambda>d. case fr_Value (snd d) of None \<Rightarrow> True
     | Some e \<Rightarrow> (is_posted e \<longrightarrow> e \<in> set (ledger_envelopes l))
         \<and> list_all (\<lambda>e'. ev_EventId e' = ev_EventId e \<longrightarrow> e' = e) (ledger_envelopes l)) ds"

text \<open>A row of the projection is what some event of the account said.\<close>

definition projects :: "ledger_db \<Rightarrow> account_db \<Rightarrow> bool" where
  "projects l s \<longleftrightarrow> distinct (map pb_AccountID (balances s)) \<and> (\<forall>p \<in> set (balances s). \<exists>m.
     TransactionPosted m \<in> ob_event ` set (outbox l) \<and> tp_ExternalAccountId m = pb_AccountID p \<and> pb_AccountID p \<noteq> ''''
     \<and> tp_BalanceAfter m = pb_Balance p \<and> tp_Version m = pb_Version p)"

definition projected_from :: "string \<Rightarrow> int64 \<Rightarrow> account_db \<Rightarrow> bool" where
  "projected_from ext v s \<longleftrightarrow> (\<exists>p \<in> set (balances s). pb_AccountID p = ext \<and> sint v \<le> sint (pb_Version p))"

interpretation projection_table: keyed_table pb_AccountID
    "\<lambda>k. select_one (\<lambda>b. pb_AccountID b = k)" "\<lambda>k. update_where (\<lambda>b. pb_AccountID b = k)"
  by unfold_locales simp_all

lemma Upsert_guarded_effect:
  assumes "q_UpsertBalanceGuarded row s = Inr (n, s')"
  obtains (kept) b where "s' = s" "b \<in> set (balances s)" "pb_AccountID b = pb_AccountID row" "sint (pb_Version row) \<le> sint (pb_Version b)"
  | (added) "pb_AccountID row \<notin> pb_AccountID ` set (balances s)" "balances s' = balances s @ [row]" "pb_AccountID row \<in> ac_ID ` set (accounts s)"
  | (raised) "balances s' = update_where (\<lambda>b. pb_AccountID b = pb_AccountID row) (\<lambda>_. row) (balances s)"
      "pb_AccountID row \<in> pb_AccountID ` set (balances s)"
      "\<And>b. distinct (map pb_AccountID (balances s)) \<Longrightarrow> b \<in> set (balances s) \<Longrightarrow> pb_AccountID b = pb_AccountID row
         \<Longrightarrow> sint (pb_Version b) < sint (pb_Version row)"
proof (cases "select_one (\<lambda>b. pb_AccountID b = pb_AccountID row) (balances s)")
  case None
  then have "pb_AccountID row \<notin> pb_AccountID ` set (balances s)" by (auto simp: select_one_None)
  then show ?thesis using assms None added by (auto simp: q_UpsertBalanceGuarded_def split: if_splits)
next
  case (Some b)
  then have b: "b \<in> set (balances s)" "pb_AccountID b = pb_AccountID row" by (auto dest: select_one_Some)
  show ?thesis
  proof (cases "pb_Version b <s pb_Version row")
    case True
    have "b' = b" if "distinct (map pb_AccountID (balances s))" "b' \<in> set (balances s)" "pb_AccountID b' = pb_AccountID row" for b'
      using that b by (metis distinct_map inj_onD)
    then have above: "sint (pb_Version b') < sint (pb_Version row)"
      if "distinct (map pb_AccountID (balances s))" "b' \<in> set (balances s)" "pb_AccountID b' = pb_AccountID row" for b'
      using that True by (metis word_sless_alt)
    have s': "s' = s\<lparr>balances := update_where (\<lambda>b. pb_AccountID b = pb_AccountID row) (\<lambda>_. row) (balances s)\<rparr>"
      using assms Some True by (simp add: q_UpsertBalanceGuarded_def)
    have "pb_AccountID row \<in> pb_AccountID ` set (balances s)" using b by (metis imageI)
    then show ?thesis using s' above by (intro raised) simp_all
  next
    case False
    then have "s' = s" "sint (pb_Version row) \<le> sint (pb_Version b)"
      using assms Some by (simp_all add: q_UpsertBalanceGuarded_def word_sless_alt)
    then show ?thesis using b by (intro kept)
  qed
qed

lemma Handle_cases:
  assumes "Handle env msg s = Inr s'"
  obtains (projected) m n where "ev_Payload (em_Envelope msg) = TransactionPosted m" "tp_ExternalAccountId m \<noteq> ''''"
      "q_UpsertBalanceGuarded \<lparr>pb_AccountID = tp_ExternalAccountId m, pb_Balance = tp_BalanceAfter m,
           pb_Version = tp_Version m, pb_AsOf = jm_OccurredAt (tp_Entry m)\<rparr> s = Inr (n, s')"
  | (internal) m where "ev_Payload (em_Envelope msg) = TransactionPosted m" "tp_ExternalAccountId m = ''''" "s' = s"
  | (other) "\<And>m. ev_Payload (em_Envelope msg) \<noteq> TransactionPosted m" "balances s' = balances s"
  using assms
  by (auto simp: Handle_def applyProjection_def applyFreeze_def bootstrapCustomer_def q_UpdateAccountStatus_def q_UpsertCustomer_def
      Let_def split: Event.splits if_splits sum.splits option.splits)

text \<open>Handling an event keeps the projection correct, never lowers a version, and reaches the version of the event.\<close>

lemma Handle_projects:
  assumes "projects l s" and "Handle env msg s = Inr s'"
    and "\<And>m. ev_Payload (em_Envelope msg) = TransactionPosted m \<Longrightarrow> TransactionPosted m \<in> ob_event ` set (outbox l)"
  shows "projects l s'"
  using assms(2)
proof (cases rule: Handle_cases)
  case (projected m n)
  let ?row = "\<lparr>pb_AccountID = tp_ExternalAccountId m, pb_Balance = tp_BalanceAfter m, pb_Version = tp_Version m, pb_AsOf = jm_OccurredAt (tp_Entry m)\<rparr>"
  have m: "TransactionPosted m \<in> ob_event ` set (outbox l)" using assms(3) projected(1) by blast
  from projected(3) show ?thesis
  proof (cases rule: Upsert_guarded_effect)
    case kept
    then show ?thesis using assms(1) by simp
  next
    case added
    then show ?thesis using assms(1) m projected(2) by (auto simp: projects_def)
  next
    case raised
    have "map pb_AccountID (balances s') = map pb_AccountID (balances s)"
      unfolding raised(1) update_where_def by (simp add: comp_def)
    moreover have "p \<in> set (balances s') \<Longrightarrow> p \<in> set (balances s) \<or> p = ?row" for p
      unfolding raised(1) update_where_def by auto
    ultimately show ?thesis using assms(1) m projected(2) unfolding projects_def by fastforce
  qed
next
  case internal
  then show ?thesis using assms(1) by simp
next
  case other
  then show ?thesis using assms(1) by (simp add: projects_def)
qed

lemma Handle_projected_from:
  assumes "distinct (map pb_AccountID (balances s))" and "Handle env msg s = Inr s'"
  shows "projected_from ext v s \<Longrightarrow> projected_from ext v s'"
    and "ev_Payload (em_Envelope msg) = TransactionPosted m \<Longrightarrow> tp_ExternalAccountId m \<noteq> '''' \<Longrightarrow> projected_from (tp_ExternalAccountId m) (tp_Version m) s'"
proof -
  have "(projected_from ext v s \<longrightarrow> projected_from ext v s')
    \<and> (ev_Payload (em_Envelope msg) = TransactionPosted m \<longrightarrow> tp_ExternalAccountId m \<noteq> '''' \<longrightarrow> projected_from (tp_ExternalAccountId m) (tp_Version m) s')"
    using assms(2)
  proof (cases rule: Handle_cases)
    case (projected m' n)
    from projected(3) show ?thesis
    proof (cases rule: Upsert_guarded_effect)
      case (kept b)
      then show ?thesis using projected(1) by (auto simp: projected_from_def)
    next
      case added
      then show ?thesis using projected(1) by (auto simp: projected_from_def)
    next
      case raised
      let ?row = "\<lparr>pb_AccountID = tp_ExternalAccountId m', pb_Balance = tp_BalanceAfter m', pb_Version = tp_Version m', pb_AsOf = jm_OccurredAt (tp_Entry m')\<rparr>"
      have row: "?row \<in> set (balances s')" using raised(2) unfolding raised(1) update_where_def by auto
      have keep: "p \<in> set (balances s')" if "p \<in> set (balances s)" "pb_AccountID p \<noteq> tp_ExternalAccountId m'" for p
        using that unfolding raised(1) update_where_def by force
      have "projected_from ext v s'" if "p \<in> set (balances s)" "pb_AccountID p = ext" "sint v \<le> sint (pb_Version p)" for p
      proof (cases "pb_AccountID p = tp_ExternalAccountId m'")
        case True
        then have "sint v \<le> sint (tp_Version m')" using raised(3) [OF assms(1) that(1)] that(3) by simp
        then show ?thesis using row True that(2) unfolding projected_from_def by (intro bexI [of _ ?row]) simp_all
      next
        case False
        then show ?thesis using keep that unfolding projected_from_def by blast
      qed
      moreover have "projected_from (tp_ExternalAccountId m') (tp_Version m') s'"
        using row unfolding projected_from_def by (intro bexI [of _ ?row]) simp_all
      ultimately show ?thesis using projected(1) by (auto simp: projected_from_def [of ext v s])
    qed
  qed (auto simp: projected_from_def)
  then show "projected_from ext v s \<Longrightarrow> projected_from ext v s'"
    "ev_Payload (em_Envelope msg) = TransactionPosted m \<Longrightarrow> tp_ExternalAccountId m \<noteq> '''' \<Longrightarrow> projected_from (tp_ExternalAccountId m) (tp_Version m) s'"
    by blast+
qed

lemma handle_all_projects:
  assumes "projects l s" and "handle_all Handle ps s = Inr s'"
    and "\<And>p m. p \<in> set ps \<Longrightarrow> ev_Payload (em_Envelope (snd p)) = TransactionPosted m \<Longrightarrow> TransactionPosted m \<in> ob_event ` set (outbox l)"
  shows "projects l s'" and "projected_from ext v s \<Longrightarrow> projected_from ext v s'"
    and "p \<in> set ps \<Longrightarrow> ev_Payload (em_Envelope (snd p)) = TransactionPosted m \<Longrightarrow> tp_ExternalAccountId m \<noteq> ''''
      \<Longrightarrow> projected_from (tp_ExternalAccountId m) (tp_Version m) s'"
proof -
  have "projects l s' \<and> (\<forall>ext v. projected_from ext v s \<longrightarrow> projected_from ext v s')
    \<and> (\<forall>p \<in> set ps. \<forall>m. ev_Payload (em_Envelope (snd p)) = TransactionPosted m \<longrightarrow> tp_ExternalAccountId m \<noteq> ''''
      \<longrightarrow> projected_from (tp_ExternalAccountId m) (tp_Version m) s')"
    using assms
  proof (induction ps arbitrary: s)
    case (Cons q ps)
    obtain env msg where q: "q = (env, msg)" by fastforce
    obtain s1 where s1: "Handle env msg s = Inr s1" "handle_all Handle ps s1 = Inr s'" using Cons.prems(2) by (auto simp: q)
    have p1: "projects l s1" using Handle_projects [OF Cons.prems(1) s1(1)] Cons.prems(3) [of q] by (simp add: q)
    have dist: "distinct (map pb_AccountID (balances s))" using Cons.prems(1) by (simp add: projects_def)
    note h = Handle_projected_from [OF dist s1(1)]
    note IH = Cons.IH [OF p1 s1(2)] 
    have IH': "projects l s'" "\<And>ext v. projected_from ext v s1 \<Longrightarrow> projected_from ext v s'"
      "\<And>p m. p \<in> set ps \<Longrightarrow> ev_Payload (em_Envelope (snd p)) = TransactionPosted m \<Longrightarrow> tp_ExternalAccountId m \<noteq> ''''
        \<Longrightarrow> projected_from (tp_ExternalAccountId m) (tp_Version m) s'"
      using IH Cons.prems(3) by (meson list.set_intros(2))+
    show ?case using IH' h by (auto simp: q)
  qed simp
  then show "projects l s'" "projected_from ext v s \<Longrightarrow> projected_from ext v s'"
    "p \<in> set ps \<Longrightarrow> ev_Payload (em_Envelope (snd p)) = TransactionPosted m \<Longrightarrow> tp_ExternalAccountId m \<noteq> ''''
      \<Longrightarrow> projected_from (tp_ExternalAccountId m) (tp_Version m) s'"
    by blast+
qed

text \<open>Of the events about an account, the one with the highest version carries the balance of its row.\<close>

lemma account_events_set:
  "m \<in> set (account_events l k) \<longleftrightarrow> tp_AccountId m = k \<and> TransactionPosted m \<in> ob_event ` set (outbox l)"
proof -
  have "m \<in> set (posted_of k e) \<longleftrightarrow> tp_AccountId m = k \<and> e = TransactionPosted m" for e
    by (cases e) auto
  then show ?thesis by (simp add: account_events_def image_iff) metis
qed

lemma newest_event:
  assumes inv: "ledger_inv l" "names_ok l" and row: "row \<in> set (ledger_accounts l)" "la_ExternalAccountID row = Some ext"
    and r: "r \<in> set (account_balances l)" "ab_AccountID r = la_ID row"
    and es: "account_events l (la_ID row) \<noteq> []" "int (length (account_events l (la_ID row))) < 2 ^ 63"
    and m: "TransactionPosted m \<in> ob_event ` set (outbox l)" "tp_ExternalAccountId m = ext"
      "sint (tp_Version (last (account_events l (la_ID row)))) \<le> sint (tp_Version m)"
  shows "tp_Version m = ab_Version r" and "tp_BalanceAfter m = ab_Balance r"
proof -
  let ?es = "account_events l (la_ID row)" and ?n = "length (account_events l (la_ID row))"
  have ext: "ext \<noteq> ''''" using inv(2) row external_ids_set [of ext "ledger_accounts l"] unfolding names_ok_def by (metis imageI)
  obtain row' where row': "row' \<in> set (ledger_accounts l)" "names row' = (tp_AccountId m, ext)"
    using inv(2) m(1,2) by (auto simp: names_ok_def events_named_def)
  then have "la_ExternalAccountID row' = Some ext" using ext by (auto simp: names_def text_or_empty_def split: option.splits)
  then have "row' = row" using external_ids_inj [OF _ row'(1) row(1)] row(2) inv(2) by (auto simp: names_ok_def)
  then have "m \<in> set ?es" using row'(2) m(1) by (simp add: account_events_set names_def)
  then obtain i where i: "i < ?n" "m = ?es ! i" by (metis in_set_conv_nth)
  have ev: "map tp_Version ?es = map of_nat [1..<Suc ?n]" "ab_Version r = of_nat ?n" "ab_Balance r = tp_BalanceAfter (last ?es)"
    using ledger_invD(8) [OF inv(1)] r es(1) by (auto simp: events_ok_def Let_def simp del: upt_Suc)
  have version: "tp_Version (?es ! j) = of_nat (Suc j)" if "j < ?n" for j
    using arg_cong [OF ev(1), of "\<lambda>xs. xs ! j"] that by (simp del: upt_Suc)
  have small: "sint (of_nat j :: int64) = int j" if "j \<le> ?n" for j
  proof -
    have "int j < 2 ^ 63" using that es(2) by linarith
    then show ?thesis using sint_of_int_int64 [of "int j"] by simp
  qed
  have last: "last ?es = ?es ! (?n - 1)" "tp_Version (last ?es) = of_nat ?n"
    using es(1) version [of "?n - 1"] by (auto simp: last_conv_nth)
  have "int ?n \<le> int (Suc i)" using m(3) small [of ?n] small [of "Suc i"] i version [OF i(1)] unfolding last(2) by simp
  then have "m = last ?es" using i last(1) by (metis Suc_leI le_antisym of_nat_le_iff diff_Suc_1)
  then show "tp_Version m = ab_Version r" "tp_BalanceAfter m = ab_Balance r" using ev last(2) by simp_all
qed

text \<open>
  C11. The projection converges: whatever the consumer is given, in whatever order and however often, once it
  has handled the newest event of an account, its projected row is exactly the balance and the version the
  ledger has for the account. Fewer than \<open>2 ^ 63\<close> events keep the version from wrapping around.
\<close>

theorem projection_converges:
  assumes "ledger_reachable l" and "published_by l ds" and "balances s = []"
    and "row \<in> set (ledger_accounts l)" "la_ExternalAccountID row = Some ext"
    and "r \<in> set (account_balances l)" "ab_AccountID r = la_ID row"
    and "account_events l (la_ID row) \<noteq> []" "int (length (account_events l (la_ID row))) < 2 ^ 63"
    and "e \<in> set (ledger_envelopes l)" "ev_Payload e = TransactionPosted (last (account_events l (la_ID row)))"
    and "(account_group, ev_EventId e) \<in> set (processed_messages (deliver errText n account_group Handle ds \<lparr>processed_messages = [], tables = s\<rparr>))"
  shows "\<exists>t. q_GetBalancesForAccounts (tables (deliver errText n account_group Handle ds \<lparr>processed_messages = [], tables = s\<rparr>)) [ext]
     = [\<lparr>pb_AccountID = ext, pb_Balance = ab_Balance r, pb_Version = ab_Version r, pb_AsOf = t\<rparr>]"
proof -
  define db where "db = deliver errText n account_group Handle ds \<lparr>processed_messages = [], tables = s\<rparr>"
  let ?newest = "last (account_events l (la_ID row))"
  obtain ps where ps: "once account_group Handle \<lparr>processed_messages = [], tables = s\<rparr> db ps"
    "\<forall>p \<in> set ps. \<exists>d \<in> set ds. \<exists>env. fr_Value (snd d) = Some env \<and> snd p = envelope_message (snd d) env"
    using deliver_once [of account_group Handle "\<lparr>processed_messages = [], tables = s\<rparr>" errText n ds] unfolding db_def by blast
  have src: "(is_posted (em_Envelope (snd p)) \<longrightarrow> em_Envelope (snd p) \<in> set (ledger_envelopes l))
      \<and> (\<forall>e' \<in> set (ledger_envelopes l). ev_EventId e' = em_EventID (snd p) \<longrightarrow> e' = em_Envelope (snd p))" if p: "p \<in> set ps" for p
  proof -
    obtain d env where d: "d \<in> set ds" "fr_Value (snd d) = Some env" "snd p = envelope_message (snd d) env" using ps(2) p by blast
    then show ?thesis using assms(2) by (fastforce simp: published_by_def list_all_iff envelope_message_def)
  qed
  have posted: "TransactionPosted m \<in> ob_event ` set (outbox l)"
    if "p \<in> set ps" "ev_Payload (em_Envelope (snd p)) = TransactionPosted m" for p m
    using src [OF that(1)] that(2) by (force simp: is_posted_def ledger_envelopes_def ob_event_def [abs_def])
  have all: "handle_all Handle ps s = Inr (tables db)" using ps(1) by (simp add: once_def)
  have start: "projects l s" using assms(3) by (simp add: projects_def)
  have fin: "projects l (tables db)" by (rule handle_all_projects(1) [OF start all]) (rule posted)
  have inv: "ledger_inv l" "names_ok l" using assms(1) reachable_inv reachable_names by auto
  have "?newest \<in> set (account_events l (la_ID row))" using assms(8) by simp
  then have new: "tp_AccountId ?newest = la_ID row" "TransactionPosted ?newest \<in> ob_event ` set (outbox l)"
    by (simp_all only: account_events_set)
  obtain row' where row': "row' \<in> set (ledger_accounts l)" "names row' = (la_ID row, tp_ExternalAccountId ?newest)"
    using inv(2) new unfolding names_ok_def events_named_def by (metis imageE)
  have "row' = row" using row' assms(4) ledger_invD(1) [OF inv(1)] by (auto simp: accounts_ok_def names_def distinct_map dest: inj_onD)
  then have ext: "tp_ExternalAccountId ?newest = ext" using row'(2) assms(5) by (simp add: names_def text_or_empty_def)
  have "ext \<noteq> ''''" using inv(2) assms(4,5) external_ids_set [of ext "ledger_accounts l"] unfolding names_ok_def by (metis imageI)
  moreover obtain p where p: "p \<in> set ps" "em_EventID (snd p) = ev_EventId e"
    using assms(12) ps(1) unfolding db_def [symmetric] by (auto simp: once_def)
  have "em_Envelope (snd p) = e" using src [OF p(1)] assms(10) p(2) by auto
  have "projected_from (tp_ExternalAccountId ?newest) (tp_Version ?newest) (tables db)" if "ext \<noteq> ''''"
    by (rule handle_all_projects(3) [OF start all _ p(1)]) (use posted that ext \<open>em_Envelope (snd p) = e\<close> assms(11) in simp_all)
  ultimately have "projected_from ext (tp_Version ?newest) (tables db)" using ext by simp
  then obtain b where b: "b \<in> set (balances (tables db))" "pb_AccountID b = ext" "sint (tp_Version ?newest) \<le> sint (pb_Version b)"
    by (auto simp: projected_from_def)
  obtain m where m: "TransactionPosted m \<in> ob_event ` set (outbox l)" "tp_ExternalAccountId m = ext" "tp_BalanceAfter m = pb_Balance b" "tp_Version m = pb_Version b"
    using fin b(1,2) unfolding projects_def by metis
  have "pb_Version b = ab_Version r" "pb_Balance b = ab_Balance r"
    using newest_event [OF inv assms(4-9) m(1,2)] b(3) m(3,4) by simp_all
  moreover have "filter (\<lambda>b. pb_AccountID b = ext) (balances (tables db)) = [b]"
    using fin filter_key_single [OF _ b(1), of pb_AccountID] b(2) by (simp add: projects_def)
  ultimately show ?thesis using b(2) unfolding db_def [symmetric]
    by (intro exI [of _ "pb_AsOf b"]) (simp add: q_GetBalancesForAccounts_def)
qed

end
