(* ===== verification/Account_Invariant.thy ===== *)
theory Account_Invariant
  imports Account Ledger_Replay
begin

text \<open>
  The invariant of the account service's tables, kept by every transaction of the service and of its event
  consumer, and the mirroring of accounts: a row is only written once the ledger has the account.
\<close>

section \<open>The tables\<close>

definition customers_ok :: "account_db \<Rightarrow> bool" where
  "customers_ok s \<longleftrightarrow> distinct (map cu_ID (customers s)) \<and> distinct (map cu_UserID (customers s))"

definition account_ok :: "account_db \<Rightarrow> AccountRow \<Rightarrow> bool" where
  "account_ok s a \<longleftrightarrow> ValidNumber (ac_Number a) \<and> status_ok (ac_Status a) \<and> ac_Currency a \<in> {''KZT'', ''USD''}
     \<and> ac_CustomerID a \<in> cu_ID ` set (customers s)"

definition registry_ok :: "account_db \<Rightarrow> bool" where
  "registry_ok s \<longleftrightarrow> distinct (map ac_ID (accounts s)) \<and> distinct (map ac_Number (accounts s)) \<and> (\<forall>a \<in> set (accounts s). account_ok s a)"

definition projection_ok :: "account_db \<Rightarrow> bool" where
  "projection_ok s \<longleftrightarrow> distinct (map pb_AccountID (balances s)) \<and> pb_AccountID ` set (balances s) \<subseteq> ac_ID ` set (accounts s)"

definition account_inv :: "account_db \<Rightarrow> bool" where
  "account_inv s \<longleftrightarrow> customers_ok s \<and> registry_ok s \<and> projection_ok s"

lemma account_inv_cong:
  "customers s' = customers s \<Longrightarrow> accounts s' = accounts s \<Longrightarrow> balances s' = balances s \<Longrightarrow> account_inv s' = account_inv s"
  by (simp add: account_inv_def customers_ok_def registry_ok_def account_ok_def [abs_def] projection_ok_def)

section \<open>Statements\<close>

lemma q_UpsertCustomer_effect:
  assumes "q_UpsertCustomer env userID s = Inr (c, s')"
  shows "c \<in> set (customers s') \<and> cu_UserID c = userID" and "account_inv s \<Longrightarrow> account_inv s'"
    and "accounts s' = accounts s" and "balances s' = balances s" and "a_outbox s' = a_outbox s" and "set (customers s) \<subseteq> set (customers s')"
proof -
  have cases: "(c \<in> set (customers s) \<and> cu_UserID c = userID \<and> s' = s)
    \<or> (cu_ID c \<notin> cu_ID ` set (customers s) \<and> userID \<notin> cu_UserID ` set (customers s) \<and> cu_UserID c = userID
        \<and> s' = s\<lparr>customers := customers s @ [c]\<rparr>)"
  proof (cases "select_one (\<lambda>c. cu_UserID c = userID) (customers s)")
    case None
    then have new: "userID \<notin> cu_UserID ` set (customers s)" by (auto simp: select_one_None)
    have "cu_ID c \<notin> cu_ID ` set (customers s) \<and> cu_UserID c = userID \<and> s' = s\<lparr>customers := customers s @ [c]\<rparr>"
      using assms None by (auto simp: q_UpsertCustomer_def Let_def split: if_splits)
    then show ?thesis using new by blast
  next
    case (Some c')
    then show ?thesis using assms select_one_Some [OF Some] by (auto simp: q_UpsertCustomer_def)
  qed
  then show "c \<in> set (customers s') \<and> cu_UserID c = userID" "accounts s' = accounts s" "balances s' = balances s"
    "a_outbox s' = a_outbox s" "set (customers s) \<subseteq> set (customers s')" by auto
  show "account_inv s'" if inv: "account_inv s"
    using cases
  proof (elim disjE conjE)
    assume s': "s' = s\<lparr>customers := customers s @ [c]\<rparr>" and new: "cu_ID c \<notin> cu_ID ` set (customers s)"
      "userID \<notin> cu_UserID ` set (customers s)" "cu_UserID c = userID"
    have "customers_ok s'" using inv new by (simp add: account_inv_def customers_ok_def s')
    moreover have "account_ok s a \<Longrightarrow> account_ok s' a" for a by (simp add: account_ok_def s')
    then have "registry_ok s'" using inv by (simp add: account_inv_def registry_ok_def s')
    ultimately show ?thesis using inv by (simp add: account_inv_def projection_ok_def s')
  qed (use inv in simp)
qed

lemma q_UpdateAccountStatus_effect:
  assumes "q_UpdateAccountStatus ident st s = Inr (a, s')"
  shows "account_inv s \<Longrightarrow> account_inv s'" and "map ac_ID (accounts s') = map ac_ID (accounts s)"
    and "map (\<lambda>a. (ac_ID a, ac_Currency a)) (accounts s') = map (\<lambda>a. (ac_ID a, ac_Currency a)) (accounts s)"
proof -
  let ?upd = "update_where (\<lambda>a. ac_ID a = ident) (\<lambda>a. a\<lparr>ac_Status := st\<rparr>) (accounts s)"
  have s': "s' = s\<lparr>accounts := ?upd\<rparr>" and st: "status_ok st"
    using assms by (auto simp: q_UpdateAccountStatus_def split: option.splits if_splits)
  note same = map_update_where [of _ "\<lambda>a. a\<lparr>ac_Status := st\<rparr>" "\<lambda>a. ac_ID a = ident" "accounts s"]
  show ids: "map ac_ID (accounts s') = map ac_ID (accounts s)"
    and "map (\<lambda>a. (ac_ID a, ac_Currency a)) (accounts s') = map (\<lambda>a. (ac_ID a, ac_Currency a)) (accounts s)"
    by (simp_all add: s' same)
  assume inv: "account_inv s"
  have "account_ok s' a" if "a \<in> set (accounts s')" for a
    using that inv st by (auto simp: s' update_where_def account_inv_def registry_ok_def account_ok_def)
  moreover have "ac_ID ` set (accounts s') = ac_ID ` set (accounts s)" using arg_cong [OF ids, of set] by simp
  ultimately show "account_inv s'"
    using inv ids by (simp add: account_inv_def customers_ok_def registry_ok_def projection_ok_def s' same)
qed

lemma openTx_effect:
  assumes "openTx env ident customerID userID number currency s = Inr (view, s')"
  obtains row msg where "accounts s' = accounts s @ [row]" "view = rowToView row userID"
    "row = \<lparr>ac_ID = ident, ac_CustomerID = customerID, ac_Number = number, ac_Currency = currency, ac_Status = StatusActive, ac_OpenedAt = env_now env\<rparr>"
    "ident \<notin> ac_ID ` set (accounts s)" "number \<notin> ac_Number ` set (accounts s)" "customerID \<in> cu_ID ` set (customers s)" "currency \<in> {''KZT'', ''USD''}"
    "customers s' = customers s" "balances s' = balances s" "a_outbox s' = a_outbox s @ [msg]" "ev_Payload (msg_Payload (ob_Message msg)) = AccountOpened (accountMsg row userID)"
  using assms
  by (auto simp: openTx_def q_CreateAccount_def Let_def outbox_Insert_Inr split: if_splits dest!: NewProtoMessage_Inr)

lemma openTx_inv:
  assumes "account_inv s" and "ValidNumber number" and "openTx env ident customerID userID number currency s = Inr (view, s')"
  shows "account_inv s'"
proof (rule openTx_effect [OF assms(3)])
  fix row msg
  assume rows: "accounts s' = accounts s @ [row]"
    "row = \<lparr>ac_ID = ident, ac_CustomerID = customerID, ac_Number = number, ac_Currency = currency, ac_Status = StatusActive, ac_OpenedAt = env_now env\<rparr>"
    "ident \<notin> ac_ID ` set (accounts s)" "number \<notin> ac_Number ` set (accounts s)" "customerID \<in> cu_ID ` set (customers s)" "currency \<in> {''KZT'', ''USD''}"
    "customers s' = customers s" "balances s' = balances s"
  have "account_ok s' row" using rows assms(2) by (simp add: account_ok_def status_ok_def)
  moreover have "account_ok s' = account_ok s" using rows(7) by (simp add: account_ok_def [abs_def])
  ultimately have "registry_ok s'" using assms(1) rows by (simp add: account_inv_def registry_ok_def)
  then show "account_inv s'" using assms(1) rows by (auto simp: account_inv_def customers_ok_def projection_ok_def)
qed

lemma q_UpsertBalanceGuarded_inv:
  assumes "account_inv s" and "q_UpsertBalanceGuarded row s = Inr (n, s')"
  shows "account_inv s'"
proof -
  have "s' = s \<or> (pb_AccountID row \<notin> pb_AccountID ` set (balances s) \<and> pb_AccountID row \<in> ac_ID ` set (accounts s) \<and> s' = s\<lparr>balances := balances s @ [row]\<rparr>)
    \<or> s' = s\<lparr>balances := update_where (\<lambda>b. pb_AccountID b = pb_AccountID row) (\<lambda>_. row) (balances s)\<rparr>"
  proof (cases "select_one (\<lambda>b. pb_AccountID b = pb_AccountID row) (balances s)")
    case None
    then have new: "pb_AccountID row \<notin> pb_AccountID ` set (balances s)" by (auto simp: select_one_None)
    have "pb_AccountID row \<in> ac_ID ` set (accounts s) \<and> s' = s\<lparr>balances := balances s @ [row]\<rparr>"
      using assms(2) None by (simp add: q_UpsertBalanceGuarded_def split: if_splits)
    then show ?thesis using new by blast
  next
    case (Some b)
    then show ?thesis using assms(2) by (simp add: q_UpsertBalanceGuarded_def split: if_splits)
  qed
  then consider "s' = s" | "pb_AccountID row \<notin> pb_AccountID ` set (balances s)" "pb_AccountID row \<in> ac_ID ` set (accounts s)" "s' = s\<lparr>balances := balances s @ [row]\<rparr>"
    | "s' = s\<lparr>balances := update_where (\<lambda>b. pb_AccountID b = pb_AccountID row) (\<lambda>_. row) (balances s)\<rparr>"
    by blast
  then show ?thesis
  proof cases
    case 3
    have ids: "map pb_AccountID (balances s') = map pb_AccountID (balances s)" by (simp add: 3 update_where_def)
    have rest: "accounts s' = accounts s" "customers s' = customers s" by (simp_all add: 3)
    have "pb_AccountID ` set (balances s') = pb_AccountID ` set (balances s)" using arg_cong [OF ids, of set] unfolding set_map .
    then show ?thesis using assms(1) ids rest
      by (simp add: account_inv_def customers_ok_def registry_ok_def account_ok_def [abs_def] projection_ok_def)
  qed (use assms(1) in \<open>auto simp: account_inv_def customers_ok_def registry_ok_def account_ok_def [abs_def] projection_ok_def\<close>)
qed

section \<open>The event consumer\<close>

lemma Handle_inv:
  assumes "account_inv s" and "Handle env msg s = Inr s'"
  shows "account_inv s'"
proof (cases "ev_Payload (em_Envelope msg)")
  case (TransactionPosted m)
  then show ?thesis using assms q_UpsertBalanceGuarded_inv
    by (auto simp: Handle_def applyProjection_def split: if_splits sum.splits)
next
  case (FraudAlertRaised m)
  then consider "s' = s" | a s1 where "q_UpdateAccountStatus (fa_AccountId m) StatusFrozen s = Inr (a, s1)"
      "customers s' = customers s1" "accounts s' = accounts s1" "balances s' = balances s1"
    using assms(2) by (auto simp: Handle_def applyFreeze_def split: if_splits sum.splits)
  then show ?thesis by cases (use assms(1) q_UpdateAccountStatus_effect(1) account_inv_cong in metis)+
next
  case (CustomerRegistered u x y)
  then show ?thesis using assms q_UpsertCustomer_effect(2)
    by (auto simp: Handle_def bootstrapCustomer_def split: if_splits sum.splits)
qed (use assms in \<open>simp_all add: Handle_def\<close>)

lemma Handle_accounts:
  assumes "Handle env msg s = Inr s'"
  shows "map (\<lambda>a. (ac_ID a, ac_Currency a)) (accounts s') = map (\<lambda>a. (ac_ID a, ac_Currency a)) (accounts s)"
proof (cases "ev_Payload (em_Envelope msg)")
  case (FraudAlertRaised m)
  then consider "s' = s" | a s1 where "q_UpdateAccountStatus (fa_AccountId m) StatusFrozen s = Inr (a, s1)" "accounts s' = accounts s1"
    using assms by (auto simp: Handle_def applyFreeze_def split: if_splits sum.splits)
  then show ?thesis by cases (auto dest: q_UpdateAccountStatus_effect(3))
qed (use assms in \<open>auto simp: Handle_def applyProjection_def bootstrapCustomer_def q_UpsertBalanceGuarded_def
  split: if_splits sum.splits option.splits dest: q_UpsertCustomer_effect(3)\<close>)

interpretation account_consumer: consumer_handler Handle account_inv
  by unfold_locales (rule Handle_inv)

section \<open>Reachable states\<close>

text \<open>The ledger has a customer account of this identifier and currency.\<close>

definition mirrored :: "ledger_db \<Rightarrow> string \<Rightarrow> string \<Rightarrow> bool" where
  "mirrored l ident currency \<longleftrightarrow> list_ex (\<lambda>row. la_ExternalAccountID row = Some ident \<and> la_Currency row = currency) (ledger_accounts l)"

text \<open>
  One transaction of the account service, of its consumer or relay, or of the ledger. A row is inserted by
  \<open>OpenAccount\<close> after the ledger has answered.
\<close>

inductive account_step :: "account_db \<times> ledger_db \<Rightarrow> account_db \<times> ledger_db \<Rightarrow> bool" where
  ledger: "ledger_step l l' \<Longrightarrow> account_step (s, l) (s, l')"
| upsert: "q_UpsertCustomer env userID s = Inr (c, s') \<Longrightarrow> account_step (s, l) (s', l)"
| insert: "mirrored l ident currency \<Longrightarrow> ValidNumber number
    \<Longrightarrow> openTx env ident customerID userID number currency s = Inr (view, s') \<Longrightarrow> account_step (s, l) (s', l)"
| status: "q_UpdateAccountStatus ident st s = Inr (a, s') \<Longrightarrow> account_step (s, l) (s', l)"
| consume: "Handle env msg s = Inr s' \<Longrightarrow> account_step (s, l) (s', l)"
| relay: "relayOnce env locked produce (a_outbox s, log) = (res :: account_err + nat, t, log') \<Longrightarrow> account_step (s, l) (s\<lparr>a_outbox := t\<rparr>, l)"

definition empty_account_db :: account_db where
  "empty_account_db = \<lparr>customers = [], accounts = [], balances = [], a_outbox = []\<rparr>"

definition account_reachable :: "account_db \<times> ledger_db \<Rightarrow> bool" where
  "account_reachable st \<longleftrightarrow> (\<exists>now. account_step\<^sup>*\<^sup>* (empty_account_db, initial_db now) st)"

definition bank_accounts_inv :: "account_db \<times> ledger_db \<Rightarrow> bool" where
  "bank_accounts_inv st \<longleftrightarrow> account_inv (fst st) \<and> ledger_inv (snd st) \<and> (\<forall>a \<in> set (accounts (fst st)). mirrored (snd st) (ac_ID a) (ac_Currency a))"

lemma mirrored_steps: "ledger_step\<^sup>*\<^sup>* l l' \<Longrightarrow> mirrored l ident currency \<Longrightarrow> mirrored l' ident currency"
  using ledger_steps_grow by (fastforce simp: mirrored_def grows_def)

lemma mirrored_keys:
  assumes "map (\<lambda>a. (ac_ID a, ac_Currency a)) xs = map (\<lambda>a. (ac_ID a, ac_Currency a)) ys"
  shows "(\<forall>a \<in> set xs. mirrored l (ac_ID a) (ac_Currency a)) \<longleftrightarrow> (\<forall>a \<in> set ys. mirrored l (ac_ID a) (ac_Currency a))"
  using arg_cong [OF assms, of "\<lambda>ps. \<forall>p \<in> set ps. mirrored l (fst p) (snd p)"] by simp

lemma account_step_inv: "account_step st st' \<Longrightarrow> bank_accounts_inv st \<Longrightarrow> bank_accounts_inv st'"
proof (induction rule: account_step.induct)
  case (ledger l l' s)
  then show ?case using ledger_step_inv mirrored_steps [OF r_into_rtranclp [of ledger_step, OF ledger(1)]]
    by (simp add: bank_accounts_inv_def)
next
  case (insert l ident currency number env customerID userID s view s')
  have "account_inv s'" using insert by (auto simp: bank_accounts_inv_def intro: openTx_inv)
  moreover have "\<forall>a \<in> set (accounts s'). mirrored l (ac_ID a) (ac_Currency a)"
    by (rule openTx_effect [OF insert(3)]) (use insert(1,4) in \<open>auto simp: bank_accounts_inv_def\<close>)
  ultimately show ?case using insert(4) by (simp add: bank_accounts_inv_def)
next
  case (upsert env userID s c s' l)
  then show ?case by (simp add: bank_accounts_inv_def q_UpsertCustomer_effect(2) [OF upsert(1)] q_UpsertCustomer_effect(3) [OF upsert(1)])
next
  case (status ident st s a s' l)
  then show ?case by (simp add: bank_accounts_inv_def q_UpdateAccountStatus_effect(1) [OF status(1)]
      mirrored_keys [OF q_UpdateAccountStatus_effect(3) [OF status(1)]])
next
  case (consume env msg s s' l)
  then show ?case by (simp add: bank_accounts_inv_def Handle_inv [OF _ consume(1)] mirrored_keys [OF Handle_accounts [OF consume(1)]])
next
  case (relay env locked produce s log res t log' l)
  then show ?case using account_inv_cong [of "s\<lparr>a_outbox := t\<rparr>" s] by (simp add: bank_accounts_inv_def)
qed

lemma account_steps_inv: "account_step\<^sup>*\<^sup>* st st' \<Longrightarrow> bank_accounts_inv st \<Longrightarrow> bank_accounts_inv st'"
  by (induction rule: rtranclp_induct) (auto intro: account_step_inv)

lemma account_reachable_inv: "account_reachable st \<Longrightarrow> bank_accounts_inv st"
proof -
  have "bank_accounts_inv (empty_account_db, initial_db now)" for now
    using initial_db_inv by (simp add: bank_accounts_inv_def empty_account_db_def account_inv_def customers_ok_def registry_ok_def projection_ok_def)
  then show "account_reachable st \<Longrightarrow> bank_accounts_inv st" unfolding account_reachable_def using account_steps_inv by metis
qed


end
