(* ===== verification/Account_Opening.thy ===== *)
theory Account_Opening
  imports Account_Invariant
begin

text \<open>
  \<open>OpenAccount\<close> as a run of the transactions of \<open>Account_Invariant\<close>: the ledger first, the row second; and
  what a caller of the account service may see.
\<close>

interpretation customer_table: keyed_table cu_ID
    "\<lambda>k. select_one (\<lambda>c. cu_ID c = k)" "\<lambda>k. update_where (\<lambda>c. cu_ID c = k)"
  by unfold_locales simp_all

section \<open>Reading an account\<close>

lemma owner_of_unique:
  "account_inv s \<Longrightarrow> c \<in> set (customers s) \<Longrightarrow> cu_ID c = ac_CustomerID a \<Longrightarrow> owner_of s a = Some c"
  using customer_table.lookup_unique [of "customers s" c] by (simp add: account_inv_def customers_ok_def owner_of_def)

lemma with_owner_mem: "(a, c) \<in> set (with_owner s rows) \<longleftrightarrow> a \<in> set rows \<and> owner_of s a = Some c"
  by (induction rows) (auto simp: with_owner_def split: option.splits)

lemma owner_of_Some: "owner_of s a = Some c \<Longrightarrow> c \<in> set (customers s) \<and> cu_ID c = ac_CustomerID a"
  by (auto simp: owner_of_def dest: select_one_Some)

lemma GetAccountByID_unique:
  assumes inv: "account_inv s" and "a \<in> set (accounts s)" and "owner_of s a = Some c"
  shows "q_account_GetAccountByID s (ac_ID a) = Inr (a, c)"
proof (cases "select_one (\<lambda>(x, _). ac_ID x = ac_ID a) (with_owner s (accounts s))")
  case None
  have "(a, c) \<in> set (with_owner s (accounts s))" using assms(2,3) by (simp add: with_owner_mem)
  then show ?thesis using None unfolding select_one_None by fastforce
next
  case (Some p)
  obtain a' c' where p: "p = (a', c')" by fastforce
  have a': "a' \<in> set (accounts s)" "ac_ID a' = ac_ID a" "owner_of s a' = Some c'"
    using select_one_Some [OF Some] by (auto simp: p with_owner_mem)
  have "distinct (map ac_ID (accounts s))" using inv by (simp add: account_inv_def registry_ok_def)
  then have "a' = a" using a'(1,2) assms(2) by (metis distinct_map inj_onD)
  then show ?thesis using Some a'(3) assms(3) by (simp add: q_account_GetAccountByID_def p)
qed

section \<open>The ledger call\<close>

text \<open>Others only run transactions, on either side.\<close>

definition open_ok :: "open_env \<Rightarrow> bool" where
  "open_ok oe \<longleftrightarrow> (\<forall>c \<in> set (oe_call oe # oe_retries oe). \<forall>l. ledger_step\<^sup>*\<^sup>* l (at_others (lc_first c) l))
     \<and> (\<forall>st. account_step\<^sup>*\<^sup>* st (oe_others oe st))"

lemma CreateAccount_mirrors:
  assumes "CreateAccount env ext cur l = (Inr acc, l')"
  shows "mirrored l' ext cur"
proof -
  have up: "UpsertCustomerAccount env ext cur l = Inr (acc, l')" and cur: "acct_Currency acc = cur"
    using assms by (auto simp: CreateAccount_def WithinTx_def split: if_splits prod.splits sum.splits dest!: WithTx_Inr)
  from up show ?thesis
  proof (cases rule: UpsertCustomerAccount_Inr)
    case (existing row)
    then show ?thesis using cur by (auto simp: mirrored_def list_ex_iff)
  next
    case (created row)
    have "row \<in> set (ledger_accounts l')" using created(6) by (auto simp: q_InsertBalanceRow_def split: if_splits)
    then show ?thesis using created(4,5) by (auto simp: mirrored_def list_ex_iff)
  qed
qed

lemma client_CreateAccount_effect:
  assumes ok: "\<forall>c' \<in> set (c # cs). \<forall>l. ledger_step\<^sup>*\<^sup>* l (at_others (lc_first c') l)"
    and call: "client_CreateAccount c cs ext cur l = (res, l')"
  shows "ledger_step\<^sup>*\<^sup>* l l'" and "res = Inr () \<Longrightarrow> mirrored l' ext cur"
proof -
  let ?inv = "\<lambda>c'. invoke (lc_fate c') (exec_CreateAccount ext cur c') :: ledger_db \<Rightarrow> (account_err + LedgerAccountMsg) \<times> ledger_db"
  obtain r where rpc: "ledger_rpc (exec_CreateAccount ext cur) c cs l = (r :: account_err + LedgerAccountMsg, l')"
    and r: "res = Inr () \<longrightarrow> (\<exists>x. r = Inr x)"
    using call by (auto simp: client_CreateAccount_def split: prod.splits sum.splits)
  have exec: "ledger_step\<^sup>*\<^sup>* l1 l2 \<and> (\<forall>x. r2 = Inr x \<longrightarrow> mirrored l2 ext cur)"
    if mem: "c' \<in> set (c # cs)" and ex: "exec_CreateAccount ext cur c' l1 = (r2, l2)" for c' l1 l2 r2
  proof -
    obtain r3 where r3: "CreateAccount (at_env (lc_first c')) ext cur (at_others (lc_first c') l1) = (r3, l2)" "r2 = grpc_edge accountToProto r3"
      using ex by (auto simp: exec_CreateAccount_def server_CreateAccount_def split: prod.splits)
    have "ledger_step (at_others (lc_first c') l1) l2" using ledger_step.create [OF r3(1)] .
    then have "ledger_step\<^sup>*\<^sup>* l1 l2" using ok mem by (meson rtranclp.rtrancl_into_rtrancl)
    then show ?thesis using CreateAccount_mirrors r3 by (cases r3) (auto simp: grpc_edge_def)
  qed
  have step: "ledger_step\<^sup>*\<^sup>* l1 l2 \<and> (\<forall>x. r2 = Inr x \<longrightarrow> mirrored l2 ext cur)" if "c' \<in> set (c # cs)" "?inv c' l1 = (r2, l2)" for c' l1 l2 r2
  proof -
    obtain r3 l3 where e: "exec_CreateAccount ext cur c' l1 = (r3, l3)" by fastforce
    show ?thesis using exec [OF that(1) e] that(2) e by (cases "lc_fate c'"; cases r3) (auto simp: invoke_def map_left_def)
  qed
  have "ledger_step\<^sup>*\<^sup>* l l' \<and> (\<forall>x. r = Inr x \<longrightarrow> mirrored l' ext cur)"
  proof (rule retryInterceptor_invariant [OF rpc [unfolded ledger_rpc_def], where P = "ledger_step\<^sup>*\<^sup>* l"])
    show "ledger_step\<^sup>*\<^sup>* l l" by simp
    show "ledger_step\<^sup>*\<^sup>* l s'" if "c' \<in> set (c # cs)" "ledger_step\<^sup>*\<^sup>* l s" "?inv c' s = (res, s')" for c' s s' res
      using step [OF that(1,3)] that(2) by (meson rtranclp_trans)
    show "\<forall>x. res = Inr x \<longrightarrow> mirrored s' ext cur" if "c' \<in> set (c # cs)" "ledger_step\<^sup>*\<^sup>* l s" "?inv c' s = (res, s')" for c' s s' res
      using step [OF that(1,3)] by simp
  qed
  then show "ledger_step\<^sup>*\<^sup>* l l'" "res = Inr () \<Longrightarrow> mirrored l' ext cur" using r by auto
qed

section \<open>Opening an account\<close>

lemma ledger_account_steps: "ledger_step\<^sup>*\<^sup>* l l' \<Longrightarrow> account_step\<^sup>*\<^sup>* (s, l) (s, l')"
  by (induction rule: rtranclp_induct) (auto intro: account_step.ledger rtranclp.rtrancl_into_rtrancl)

text \<open>Customers are never changed or removed, and a ledger account stays.\<close>

lemma account_step_keeps:
  "account_step st st' \<Longrightarrow> set (customers (fst st)) \<subseteq> set (customers (fst st')) \<and> (mirrored (snd st) ident cur \<longrightarrow> mirrored (snd st') ident cur)"
proof (induction rule: account_step.induct)
  case (ledger l l' s)
  then show ?case using mirrored_steps [OF r_into_rtranclp [of ledger_step, OF ledger]] by simp
next
  case (insert l ident currency number env customerID userID s view s')
  show ?case by (rule openTx_effect [OF insert(3)]) simp
next
  case (consume env msg s s' l)
  have "set (customers s) \<subseteq> set (customers s')"
  proof (cases "ev_Payload (em_Envelope msg)")
    case (CustomerRegistered u x y)
    then show ?thesis using consume
      by (auto simp: Handle_def bootstrapCustomer_def split: if_splits sum.splits dest: q_UpsertCustomer_effect(6) [THEN subsetD])
  qed (use consume in \<open>auto simp: Handle_def applyProjection_def applyFreeze_def q_UpsertBalanceGuarded_def q_UpdateAccountStatus_def
    split: if_splits sum.splits option.splits\<close>)
  then show ?case by simp
qed (use q_UpsertCustomer_effect(6) in \<open>auto simp: q_UpdateAccountStatus_def split: option.splits if_splits\<close>)

lemma account_steps_keep:
  "account_step\<^sup>*\<^sup>* st st' \<Longrightarrow> set (customers (fst st)) \<subseteq> set (customers (fst st')) \<and> (mirrored (snd st) ident cur \<longrightarrow> mirrored (snd st') ident cur)"
proof (induction rule: rtranclp_induct)
  case (step y z)
  then show ?case using account_step_keeps [OF step(2), of ident cur] by blast
qed simp

text \<open>The stages of \<open>OpenAccount\<close> after its checks.\<close>

lemma OpenAccount_cases:
  assumes "OpenAccount oe caller currency (s, l) = (res, s', l')"
  obtains (refused) err where "res = Inl err" "s' = s" "l' = l"
  | (upsert) err r where "statement (oe_upsert oe) (q_UpsertCustomer (oe_upsert oe) (cl_CustomerID caller)) s = (r :: account_err + Customer, s')" "res = Inl err" "l' = l"
  | (call) err r customer ident where "statement (oe_upsert oe) (q_UpsertCustomer (oe_upsert oe) (cl_CustomerID caller)) s = (Inr customer :: account_err + Customer, s')"
      "client_CreateAccount (oe_call oe) (oe_retries oe) ident currency l = (r, l')" "res = Inl err"
  | (row) random number ident customer s1 l1 s2 where "GenerateNumber random = Inr number" "ValidCurrency currency"
      "statement (oe_upsert oe) (q_UpsertCustomer (oe_upsert oe) (cl_CustomerID caller)) s = (Inr customer :: account_err + Customer, s1)"
      "client_CreateAccount (oe_call oe) (oe_retries oe) ident currency l = (Inr (), l1)" "oe_others oe (s1, l1) = (s2, l')"
      "WithTx (\<lambda>_. True) (oe_tx oe) (openTx (oe_tx oe) ident (cu_ID customer) (cl_CustomerID caller) number currency) s2 = (res, s')"
proof (cases "cl_CustomerID caller = '''' \<or> \<not> ValidCurrency currency \<or> (\<exists>e. randomDigits 13 (oe_draw oe) = Inl e)
    \<or> (\<exists>r e. randomDigits 13 (oe_draw oe) = Inr r \<and> GenerateNumber r = Inl e) \<or> (\<exists>e :: account_err. uuid_NewV7 (oe_tx oe) 0 = Inl e)")
  case True
  then show ?thesis using assms refused by (auto simp: OpenAccount_def split: sum.splits if_splits)
next
  case False
  obtain random where random: "randomDigits 13 (oe_draw oe) = Inr random" using False by (cases "randomDigits 13 (oe_draw oe)") auto
  obtain number where number: "GenerateNumber random = Inr number" using False random by (cases "GenerateNumber random") auto
  obtain ident where ident: "(uuid_NewV7 (oe_tx oe) 0 :: account_err + string) = Inr ident" using False by (cases "uuid_NewV7 (oe_tx oe) 0 :: account_err + string") auto
  obtain r1 s1 where st: "statement (oe_upsert oe) (q_UpsertCustomer (oe_upsert oe) (cl_CustomerID caller)) s = (r1 :: account_err + Customer, s1)" by fastforce
  obtain r2 l1 where cl: "client_CreateAccount (oe_call oe) (oe_retries oe) ident currency l = (r2, l1)" by fastforce
  obtain s2 l2 where ot: "oe_others oe (s1, l1) = (s2, l2)" by fastforce
  note run = assms [unfolded OpenAccount_def] random number ident st cl ot
  show ?thesis
  proof (cases r1)
    case (Inl err)
    then show ?thesis using run False upsert [of r1 err] by simp
  next
    case (Inr customer)
    show ?thesis
    proof (cases r2)
      case e: (Inl err)
      then show ?thesis using run False Inr call [of customer ident r2 err] by simp
    next
      case ok: (Inr x)
      obtain r3 s3 where tx: "WithTx (\<lambda>_. True) (oe_tx oe) (openTx (oe_tx oe) ident (cu_ID customer) (cl_CustomerID caller) number currency) s2 = (r3, s3)" by fastforce
      then have "res = r3" "s' = s3" "l' = l2" using run False Inr ok by simp_all
      then show ?thesis using run False Inr ok tx row [of random number customer s1 ident l1 s2] by simp
    qed
  qed
qed

lemma upsert_steps:
  assumes "statement env (q_UpsertCustomer env' u) s = (r, s')"
  shows "account_step\<^sup>*\<^sup>* (s, l) (s', l)"
  using statement_state [OF assms] by (auto intro: account_step.upsert)

lemma openTx_steps:
  assumes "mirrored l ident cur" and "ValidNumber number"
    and "WithTx (\<lambda>_. True) env (openTx env ident customerID userID number cur) s = (r, s')"
  shows "account_step\<^sup>*\<^sup>* (s, l) (s', l)"
  using WithTx_state [OF assms(3)] account_step.insert [OF assms(1,2)] by auto

lemma OpenAccount_run:
  assumes "account_reachable (s, l)" and "open_ok oe" and "OpenAccount oe caller currency (s, l) = (res, s', l')"
  shows "account_step\<^sup>*\<^sup>* (s, l) (s', l') \<and> (case res of Inl _ \<Rightarrow> True | Inr v \<Rightarrow>
     mirrored l' (av_ID v) currency \<and> av_Currency v = currency \<and> ValidNumber (av_Number v) \<and> av_Status v = StatusActive
     \<and> account_GetAccount caller s' (av_ID v) = Inr v
     \<and> ev_Payload (msg_Payload (ob_Message (last (a_outbox s')))) = AccountOpened (account_toProto v))"
proof -
  have calls: "\<forall>c \<in> set (oe_call oe # oe_retries oe). \<forall>l. ledger_step\<^sup>*\<^sup>* l (at_others (lc_first c) l)"
    and others: "\<And>st. account_step\<^sup>*\<^sup>* st (oe_others oe st)" using assms(2) by (auto simp: open_ok_def)
  from assms(3) show ?thesis
  proof (cases rule: OpenAccount_cases)
    case refused
    then show ?thesis by simp
  next
    case (upsert err r)
    then show ?thesis using upsert_steps by auto
  next
    case (call err r customer ident)
    have "account_step\<^sup>*\<^sup>* (s, l) (s', l)" by (rule upsert_steps [OF call(1)])
    then show ?thesis using ledger_account_steps [OF client_CreateAccount_effect(1) [OF calls call(2)], of s'] call(3)
      by (simp add: rtranclp_trans)
  next
    case (row random number ident customer s1 l1 s2)
    have up: "account_step\<^sup>*\<^sup>* (s, l) (s1, l)" by (rule upsert_steps [OF row(3)])
    have led: "account_step\<^sup>*\<^sup>* (s1, l) (s1, l1)" "mirrored l1 ident currency"
      using ledger_account_steps client_CreateAccount_effect [OF calls row(4)] by simp_all
    have oth: "account_step\<^sup>*\<^sup>* (s1, l1) (s2, l')" using others [of "(s1, l1)"] row(5) by simp
    have mir: "mirrored l' ident currency" "customer \<in> set (customers s2)"
      using account_steps_keep [OF oth, of ident currency] led(2) q_UpsertCustomer_effect(1) [OF statement_Inr [OF row(3)]] by auto
    have number: "ValidNumber number" using GenerateNumber_valid [of random] row(1) by simp
    have "account_step\<^sup>*\<^sup>* (s2, l') (s', l')" by (rule openTx_steps [OF mir(1) number row(6)])
    then have steps: "account_step\<^sup>*\<^sup>* (s, l) (s', l')" using up led(1) oth by (meson rtranclp_trans)
    have inv: "account_inv s'" using account_steps_inv [OF steps account_reachable_inv [OF assms(1)]] by (simp add: bank_accounts_inv_def)
    show ?thesis
    proof (cases res)
      case (Inr v)
      then have "openTx (oe_tx oe) ident (cu_ID customer) (cl_CustomerID caller) number currency s2 = Inr (v, s')"
        using WithTx_Inr [OF row(6) [unfolded Inr]] by simp
      then show ?thesis
      proof (rule openTx_effect)
        fix a msg
        assume a: "accounts s' = accounts s2 @ [a]" "v = rowToView a (cl_CustomerID caller)"
          "a = \<lparr>ac_ID = ident, ac_CustomerID = cu_ID customer, ac_Number = number, ac_Currency = currency, ac_Status = StatusActive,
            ac_OpenedAt = env_now (oe_tx oe)\<rparr>" "customers s' = customers s2" "a_outbox s' = a_outbox s2 @ [msg]"
          "ev_Payload (msg_Payload (ob_Message msg)) = AccountOpened (accountMsg a (cl_CustomerID caller))"
        have owner: "owner_of s' a = Some customer" using owner_of_unique [OF inv] mir(2) a(3,4) by simp
        have "cu_UserID customer = cl_CustomerID caller" using q_UpsertCustomer_effect(1) [OF statement_Inr [OF row(3)]] by simp
        then have "account_GetAccount caller s' (ac_ID a) = Inr v"
          using GetAccountByID_unique [OF inv _ owner] a(1,2) by (simp add: account_GetAccount_def)
        then show ?thesis using steps mir(1) number a Inr by (simp add: rowToView_def account_toProto_def accountMsg_def)
      qed
    qed (use steps in simp)
  qed
qed

text \<open>
  C13. Opening an account mirrors it first: however the ledger call, the transactions and the other clients
  behave, \<open>OpenAccount\<close> only makes the steps in which a row is inserted after the ledger has the account.
  When it succeeds, the ledger has an account of the new identifier and currency, the number has valid
  check digits, the account is active, its owner reads back exactly the returned view, and the opening is
  announced in the outbox.
\<close>

theorem OpenAccount_opens:
  assumes "account_reachable (s, l)" and "open_ok oe" and "OpenAccount oe caller currency (s, l) = (res, s', l')"
  shows "account_step\<^sup>*\<^sup>* (s, l) (s', l') \<and> (case res of Inl _ \<Rightarrow> True | Inr v \<Rightarrow>
     mirrored l' (av_ID v) currency \<and> av_Currency v = currency \<and> ValidNumber (av_Number v) \<and> av_Status v = StatusActive
     \<and> account_GetAccount caller s' (av_ID v) = Inr v
     \<and> ev_Payload (msg_Payload (ob_Message (last (a_outbox s')))) = AccountOpened (account_toProto v))"
  by (rule OpenAccount_run [OF assms])

section \<open>Who may read\<close>

lemma GetAccount_owned:
  assumes "account_GetAccount caller s ident = Inr v"
  shows "av_ID v = ident" and "\<exists>a \<in> set (accounts s). ac_ID a = ident \<and> map_option cu_UserID (owner_of s a) = Some (av_UserID v)"
    and "IsStaff caller \<or> av_UserID v = cl_CustomerID caller"
proof -
  obtain a c where q: "q_account_GetAccountByID s ident = Inr (a, c)" "v = rowToView a (cu_UserID c)" "IsStaff caller \<or> cu_UserID c = cl_CustomerID caller"
    using assms by (auto simp: account_GetAccount_def split: sum.splits if_splits)
  have "(a, c) \<in> set (with_owner s (accounts s))" "ac_ID a = ident" using q(1) by (auto simp: q_account_GetAccountByID_def dest!: select_one_Some)
  then show "av_ID v = ident" "\<exists>a \<in> set (accounts s). ac_ID a = ident \<and> map_option cu_UserID (owner_of s a) = Some (av_UserID v)"
    "IsStaff caller \<or> av_UserID v = cl_CustomerID caller" using q(2,3) by (auto simp: with_owner_mem rowToView_def)
qed

text \<open>The account belongs to this user.\<close>

definition owned_by :: "account_db \<Rightarrow> string \<Rightarrow> string \<Rightarrow> bool" where
  "owned_by s userID ident \<longleftrightarrow> list_ex (\<lambda>a. ac_ID a = ident \<and> map_option cu_UserID (owner_of s a) = Some userID) (accounts s)"

lemma GetAccounts_owned:
  assumes "map_err (account_GetAccount caller s) ids = Inr vs" and "\<not> IsStaff caller" and "ident \<in> set ids"
  shows "owned_by s (cl_CustomerID caller) ident"
proof -
  obtain v where "account_GetAccount caller s ident = Inr v" using assms(1,3) by (auto simp: map_err_Inr_iff list_all2_conv_all_nth in_set_conv_nth)
  then show ?thesis using GetAccount_owned [of caller s ident v] assms(2) by (auto simp: owned_by_def list_ex_iff)
qed

lemma ListAccounts_owned:
  assumes "ListAccounts caller s userID = Inr xs" and "\<not> IsStaff caller" and "x \<in> set xs"
  shows "owned_by s (cl_CustomerID caller) (av_ID (fst x)) \<and> av_UserID (fst x) = cl_CustomerID caller"
proof -
  have "\<exists>a c. (a, c) \<in> set (with_owner s (accounts s)) \<and> cu_UserID c = cl_CustomerID caller \<and> fst x = rowToView a (cu_UserID c)"
    using assms by (auto simp: ListAccounts_def q_ListAccountsByUser_def Let_def split: if_splits) metis+
  then show ?thesis by (fastforce simp: owned_by_def list_ex_iff with_owner_mem rowToView_def)
qed


end
