(* ===== verification/Account_Examples.thy ===== *)
theory Account_Examples
  imports Account_Safety Account_Opening Ledger_Examples
begin

text \<open>
  A worked run of the account service: an account is opened, the events of the ledger are delivered out of
  order and twice, and the hypotheses of the theorems about the account service and the consumer are met.
\<close>

section \<open>Opening\<close>

definition quiet :: hold_attempt where
  "quiet = \<lparr>at_env = demo_env 12, at_others = (\<lambda>l. l), at_snap = (\<lambda>l. l)\<rparr>"

definition demo_open :: open_env where
  "demo_open = \<lparr>oe_draw = (\<lambda>i. Some (i mod 10)), oe_upsert = demo_env 11, oe_call = \<lparr>lc_fate = Delivered, lc_first = quiet, lc_more = []\<rparr>,
     oe_retries = [], oe_others = (\<lambda>st. st), oe_tx = demo_env 13\<rparr>"

definition demo_caller :: Claims where
  "demo_caller = \<lparr>cl_CustomerID = ''user-1'', cl_Roles = [''customer'']\<rparr>"

definition demo_opened :: "(account_err + AccountView) \<times> account_db \<times> ledger_db" where
  "demo_opened = OpenAccount demo_open demo_caller ''KZT'' (empty_account_db, initial_db 0)"

definition opened_view :: AccountView where
  "opened_view = \<lparr>av_ID = ''u1300'', av_CustomerID = ''acc11'', av_UserID = ''user-1'', av_Number = ''KZ151250123456789012'',
     av_Currency = ''KZT'', av_Status = ''ACTIVE'', av_OpenedAt = 13000000\<rparr>"

lemma demo_open_ok: "open_ok demo_open"
  by (simp add: open_ok_def demo_open_def quiet_def)

lemma start_reachable: "account_reachable (empty_account_db, initial_db 0)"
  unfolding account_reachable_def by blast

lemma demo_opened_result: "fst demo_opened = Inr opened_view"
  by code_simp

lemma demo_opened_eq: "OpenAccount demo_open demo_caller ''KZT'' (empty_account_db, initial_db 0) = (Inr opened_view, fst (snd demo_opened), snd (snd demo_opened))"
  using demo_opened_result unfolding demo_opened_def by (metis prod.collapse)

theorem OpenAccount_opens_witness:
  "mirrored (snd (snd demo_opened)) ''u1300'' ''KZT'' \<and> account_GetAccount demo_caller (fst (snd demo_opened)) ''u1300'' = Inr opened_view"
  using OpenAccount_opens [OF start_reachable demo_open_ok demo_opened_eq] by (simp add: opened_view_def)

lemma opened_reachable: "account_reachable (snd demo_opened)"
proof -
  have "account_step\<^sup>*\<^sup>* (empty_account_db, initial_db 0) (fst (snd demo_opened), snd (snd demo_opened))"
    using OpenAccount_run [OF start_reachable demo_open_ok demo_opened_eq] by simp
  then show ?thesis unfolding account_reachable_def by (metis prod.collapse)
qed

lemma opened_account: "map ac_ID (accounts (fst (snd demo_opened))) = [''u1300'']"
  by code_simp


section \<open>Reading\<close>

definition two_owners :: account_db where
  "two_owners = \<lparr>customers = [\<lparr>cu_ID = ''c1'', cu_UserID = ''user-1'', cu_Tier = ''default'', cu_CreatedAt = 0\<rparr>,
       \<lparr>cu_ID = ''c2'', cu_UserID = ''user-2'', cu_Tier = ''default'', cu_CreatedAt = 0\<rparr>],
     accounts = [\<lparr>ac_ID = ''alice'', ac_CustomerID = ''c1'', ac_Number = ''n1'', ac_Currency = ''KZT'', ac_Status = ''ACTIVE'', ac_OpenedAt = 1\<rparr>,
       \<lparr>ac_ID = ''bob'', ac_CustomerID = ''c2'', ac_Number = ''n2'', ac_Currency = ''KZT'', ac_Status = ''ACTIVE'', ac_OpenedAt = 2\<rparr>],
     balances = [], a_outbox = []\<rparr>"

definition demo_call :: ledger_call where
  "demo_call = \<lparr>lc_fate = Delivered, lc_first = quiet, lc_more = []\<rparr>"

definition alice_balances :: "account_err + BalanceView list" where
  "alice_balances = fst (account_GetBalances demo_call [] demo_caller two_owners [''alice''] demo_posted)"

lemma alice_balances_result: "case alice_balances of Inl _ \<Rightarrow> False | Inr bs \<Rightarrow> map bv_Balance bs = [300]"
  by code_simp

lemma bob_refused: "fst (account_GetBalances demo_call [] demo_caller two_owners [''alice'', ''bob''] demo_posted)
     = Inl (app_New CodeForbidden ''account does not belong to caller'')"
  by code_simp


section \<open>Consuming\<close>

definition demo_input :: record_input where
  "demo_input = \<lparr>ri_Attempts = (\<lambda>_. \<lparr>ai_Tx = demo_env 20, ai_Interrupted = False, ai_Cancelled = False\<rparr>), ri_Now = 0, ri_Produced = True, ri_Alive = True\<rparr>"

definition fetched :: "OutboxRow \<Rightarrow> record_input \<times> FetchedRecord" where
  "fetched r = (demo_input, \<lparr>fr_Topic = msg_Topic (ob_Message r), fr_Key = msg_Key (ob_Message r), fr_Value = Some (msg_Payload (ob_Message r))\<rparr>)"

text \<open>The events of the ledger, the newest first, and then all of them again.\<close>

definition demo_records :: "ledger_db \<Rightarrow> (record_input \<times> FetchedRecord) list" where
  "demo_records l = map fetched (rev (outbox l) @ outbox l)"

definition demo_projected :: "ledger_db \<Rightarrow> account_db inbox_db" where
  "demo_projected l = deliver (\<lambda>_. ''error'') 5 account_group Handle (demo_records l) \<lparr>processed_messages = [], tables = two_owners\<rparr>"

lemma projected_facts:
  "let l = demo_posted in published_by l (demo_records l) \<and> (account_group, ev_EventId (ledger_envelopes l ! 2)) \<in> set (processed_messages (demo_projected l))
   \<and> ev_Payload (ledger_envelopes l ! 2) = TransactionPosted (last (account_events l ''acc1'')) \<and> length (ledger_envelopes l) = 4
   \<and> length (ledger_accounts l) = 6 \<and> la_ID (ledger_accounts l ! 4) = ''acc1'' \<and> la_ExternalAccountID (ledger_accounts l ! 4) = Some ''alice''
   \<and> ab_Balance (account_balances l ! 4) = 300 \<and> ab_Version (account_balances l ! 4) = 2"
  by code_simp

lemmas projected = projected_facts [unfolded Let_def]

theorem projection_converges_witness:
  "\<exists>t. q_GetBalancesForAccounts (tables (demo_projected demo_posted)) [''alice''] = [\<lparr>pb_AccountID = ''alice'', pb_Balance = 300, pb_Version = 2, pb_AsOf = t\<rparr>]"
proof -
  let ?row = "ledger_accounts demo_posted ! 4" and ?e = "ledger_envelopes demo_posted ! 2"
  have ev: "account_events demo_posted ''acc1'' \<noteq> []" "int (length (account_events demo_posted ''acc1'')) < 2 ^ 63" using demo_facts by auto
  have "?row \<in> set (ledger_accounts demo_posted)" "?e \<in> set (ledger_envelopes demo_posted)" using projected by simp_all
  moreover have "balances two_owners = []" by (simp add: two_owners_def)
  moreover have "ab_Balance demo_row = 300" "ab_Version demo_row = 2" using projected by (simp_all add: demo_row_def)
  ultimately show ?thesis
    using projection_converges [OF demo_reachable(4) _ _ _ _ demo_rows(1), of "demo_records demo_posted" two_owners ?row "''alice''" ?e "\<lambda>_. ''error''" 5]
      projected demo_rows(2) ev unfolding demo_projected_def by simp
qed

definition broken_record :: FetchedRecord where
  "broken_record = \<lparr>fr_Topic = ''ledger.transactions'', fr_Key = ''k'', fr_Value = None\<rparr>"

theorem consumer_marks_settled_witness:
  "\<exists>dl db. processWithRetry (\<lambda>_. ''error'') 5 account_group Handle demo_input broken_record \<lparr>processed_messages = [], tables = two_owners\<rparr> = (True, dl, db)
     \<and> dl \<noteq> []"
proof -
  let ?db = "\<lparr>processed_messages = [], tables = two_owners\<rparr>"
  obtain dl where run: "processWithRetry (\<lambda>_. ''error'') 5 account_group Handle demo_input broken_record ?db = (True, dl, ?db)"
    by (simp add: processWithRetry_def demo_input_def broken_record_def)
  have "ri_Produced demo_input" by (simp add: demo_input_def)
  then show ?thesis using consumer_marks_settled [OF run] run by (auto simp: broken_record_def)
qed

end
