(* ===== verification/Identity_Domain.thy ===== *)
theory Identity_Domain
  imports Grpcx Go_Text
begin

text \<open>
  The pure rules of the identity service: \<open>src/services/identity/internal/domain/domain.go\<close> and the password
  hashes of \<open>app/password.go\<close>. Texts are byte strings. Code outside the repository is a parameter:
  the parser of mail addresses, the Unicode tables of \<open>strings.ToLower\<close> and \<open>strings.TrimSpace\<close>, SHA-256 and
  argon2id.
\<close>

section \<open>The libraries\<close>

text \<open>\<open>lib_argon2 password salt time memory threads keyLen\<close>.\<close>

record identity_lib =
  lib_ParseAddress :: "string \<Rightarrow> bool"
  lib_UnicodeLower :: "string \<Rightarrow> string"
  lib_UnicodeTrim :: "string \<Rightarrow> string"
  lib_Sha256 :: "string \<Rightarrow> string"
  lib_argon2 :: "string \<Rightarrow> string \<Rightarrow> nat \<Rightarrow> nat \<Rightarrow> nat \<Rightarrow> nat \<Rightarrow> string"

text \<open>\<open>strings.ToLower\<close> and \<open>strings.TrimSpace\<close>: an ASCII text byte by byte.\<close>

definition ToLower :: "identity_lib \<Rightarrow> string \<Rightarrow> string" where
  "ToLower lib s = (if list_all (\<lambda>c. byte c < 128) s then map lower_byte s else lib_UnicodeLower lib s)"

definition TrimText :: "identity_lib \<Rightarrow> string \<Rightarrow> string" where
  "TrimText lib s = (if list_all (\<lambda>c. byte c < 128) s then TrimSpace s else lib_UnicodeTrim lib s)"

text \<open>\<open>utf8.RuneCountInString\<close>: a well-formed sequence counts as one rune, any other byte as one.\<close>

definition cont_byte :: "nat \<Rightarrow> nat \<Rightarrow> char \<Rightarrow> bool" where
  "cont_byte lo hi c \<longleftrightarrow> lo \<le> byte c \<and> byte c \<le> hi"

definition rune_size :: "string \<Rightarrow> nat" where
  "rune_size s = (case s of
      c1 # c2 # c3 # c4 # _ \<Rightarrow>
        (let b = byte c1; lo = (if b = 240 then 144 else 128); hi = (if b = 244 then 143 else 191) in
         if 240 \<le> b \<and> b \<le> 244 \<and> cont_byte lo hi c2 \<and> cont_byte 128 191 c3 \<and> cont_byte 128 191 c4 then 4 else 0)
    | _ \<Rightarrow> 0)"

definition rune_size3 :: "string \<Rightarrow> nat" where
  "rune_size3 s = (case s of
      c1 # c2 # c3 # _ \<Rightarrow>
        (let b = byte c1; lo = (if b = 224 then 160 else 128); hi = (if b = 237 then 159 else 191) in
         if 224 \<le> b \<and> b \<le> 239 \<and> cont_byte lo hi c2 \<and> cont_byte 128 191 c3 then 3 else 0)
    | _ \<Rightarrow> 0)"

definition rune_size2 :: "string \<Rightarrow> nat" where
  "rune_size2 s = (case s of
      c1 # c2 # _ \<Rightarrow> if 194 \<le> byte c1 \<and> byte c1 \<le> 223 \<and> cont_byte 128 191 c2 then 2 else 0
    | _ \<Rightarrow> 0)"

definition rune_len :: "string \<Rightarrow> nat" where
  "rune_len s = max 1 (max (rune_size2 s) (max (rune_size3 s) (rune_size s)))"

function RuneCountInString :: "string \<Rightarrow> nat" where
  "RuneCountInString s = (if s = [] then 0 else Suc (RuneCountInString (drop (rune_len s) s)))"
  by pat_completeness auto
termination by (relation "measure length") (auto simp: rune_len_def)

declare RuneCountInString.simps [simp del]

section \<open>domain.go\<close>

datatype identity_sentinel = ErrInvalidEmail | ErrWeakPassword | ErrEmptyName | ErrInvalidCredentials | ErrSessionNotFound
  | ErrSessionExpired | ErrSessionRevoked | ErrRefreshReuse | ErrEmailTaken | ErrForbidden

type_synonym identity_err = "identity_sentinel goerr"

definition identity_text :: "identity_sentinel \<Rightarrow> string" where
  "identity_text e = (case e of ErrInvalidEmail \<Rightarrow> ''invalid email'' | ErrWeakPassword \<Rightarrow> ''password must be at least 8 characters''
     | ErrEmptyName \<Rightarrow> ''name is required'' | ErrInvalidCredentials \<Rightarrow> ''invalid credentials'' | ErrSessionNotFound \<Rightarrow> ''session not found''
     | ErrSessionExpired \<Rightarrow> ''session expired'' | ErrSessionRevoked \<Rightarrow> ''session revoked'' | ErrRefreshReuse \<Rightarrow> ''refresh token reuse detected''
     | ErrEmailTaken \<Rightarrow> ''email already registered'' | ErrForbidden \<Rightarrow> ''forbidden'')"

definition ValidateRegistration :: "identity_lib \<Rightarrow> string \<Rightarrow> string \<Rightarrow> string \<Rightarrow> identity_err + unit" where
  "ValidateRegistration lib email password name =
    (if \<not> lib_ParseAddress lib email then Inl (Sentinel ErrInvalidEmail)
     else if RuneCountInString password < 8 then Inl (Sentinel ErrWeakPassword)
     else if name = '''' then Inl (Sentinel ErrEmptyName)
     else Inr ())"

record Session =
  sn_ID :: string
  sn_UserID :: string
  sn_FamilyID :: string
  sn_RotatedTo :: string
  sn_ExpiresAt :: time
  sn_RevokedAt :: "time option"

datatype RefreshDecision = DecisionRotate | DecisionReuse | DecisionDenied | DecisionExpired

definition DecideRefresh :: "Session \<Rightarrow> time \<Rightarrow> RefreshDecision" where
  "DecideRefresh s now =
    (if sn_RevokedAt s \<noteq> None then if sn_RotatedTo s \<noteq> '''' then DecisionReuse else DecisionDenied
     else if sn_ExpiresAt s < now then DecisionExpired
     else DecisionRotate)"

section \<open>password.go\<close>

text \<open>\<open>base64.RawStdEncoding\<close> is the URL encoding with other letters for 62 and 63.\<close>

definition std_letter :: "char \<Rightarrow> char" where
  "std_letter c = (if c = CHR ''-'' then CHR ''+'' else if c = CHR ''_'' then CHR ''/'' else c)"

definition url_letter :: "char \<Rightarrow> char" where
  "url_letter c = (if c = CHR ''+'' then CHR ''-'' else if c = CHR ''/'' then CHR ''_'' else c)"

definition StdEncodeToString :: "string \<Rightarrow> string" where
  "StdEncodeToString s = map std_letter (EncodeToString s)"

definition StdDecodeString :: "string \<Rightarrow> string option" where
  "StdDecodeString s = (if CHR ''-'' \<in> set s \<or> CHR ''_'' \<in> set s then None else DecodeString (map url_letter s))"

text \<open>
  \<open>fmt.Sscanf\<close> with \<open>m=%d,t=%d,p=%d\<close>: each literal byte, then a decimal number that fits its unsigned type. Spaces
  before a number are skipped, what follows the last number is not looked at.
\<close>

definition scan_lit :: "string \<Rightarrow> string \<Rightarrow> string option" where
  "scan_lit lit s = (if take (length lit) s = lit then Some (drop (length lit) s) else None)"

definition scan_uint :: "nat \<Rightarrow> string \<Rightarrow> (nat \<times> string) option" where
  "scan_uint width s = (let s' = dropWhile (\<lambda>c. c = CHR '' '' \<or> byte c = 9) s; ds = takeWhile is_digit s'
     in if ds = [] \<or> 2 ^ width \<le> dec_val ds then None else Some (dec_val ds, dropWhile is_digit s'))"

definition scan_params :: "string \<Rightarrow> (nat \<times> nat \<times> nat) option" where
  "scan_params s = Option.bind (scan_lit ''m='' s) (\<lambda>s1. Option.bind (scan_uint 32 s1) (\<lambda>(m, s2).
     Option.bind (scan_lit '',t='' s2) (\<lambda>s3. Option.bind (scan_uint 32 s3) (\<lambda>(t, s4).
     Option.bind (scan_lit '',p='' s4) (\<lambda>s5. Option.bind (scan_uint 8 s5) (\<lambda>(p, _). Some (m, t, p)))))))"

definition argonTime :: nat where "argonTime = 2"
definition argonMemory :: nat where "argonMemory = 19456"
definition argonThreads :: nat where "argonThreads = 1"
definition argonKeyLen :: nat where "argonKeyLen = 32"
definition argonSaltLen :: nat where "argonSaltLen = 16"

text \<open>The salt is what \<open>rand.Read\<close> draws, \<open>None\<close> when it fails; 19 is \<open>argon2.Version\<close>.\<close>

definition phc_text :: "string \<Rightarrow> string \<Rightarrow> string" where
  "phc_text salt key = ''$argon2id$v='' @ fmt_d 19 @ ''$m='' @ fmt_d (int argonMemory) @ '',t='' @ fmt_d (int argonTime) @ '',p='' @ fmt_d (int argonThreads)
     @ ''$'' @ StdEncodeToString salt @ ''$'' @ StdEncodeToString key"

definition hashPassword :: "identity_lib \<Rightarrow> string option \<Rightarrow> string \<Rightarrow> identity_err + string" where
  "hashPassword lib salt password = (case salt of
      None \<Rightarrow> Inl (Opaque ''rand'')
    | Some sa \<Rightarrow> Inr (phc_text sa (lib_argon2 lib password sa argonTime argonMemory argonThreads argonKeyLen)))"

definition errBadHashFormat :: identity_err where "errBadHashFormat = Opaque ''malformed password hash''"

definition verifyPassword :: "identity_lib \<Rightarrow> string \<Rightarrow> string \<Rightarrow> identity_err + bool" where
  "verifyPassword lib password phc = (let parts = Split CHR ''$'' phc in
     if length parts \<noteq> 6 \<or> parts ! 1 \<noteq> ''argon2id'' then Inl errBadHashFormat
     else case scan_params (parts ! 3) of None \<Rightarrow> Inl errBadHashFormat
       | Some (mem, iters, par) \<Rightarrow> (case StdDecodeString (parts ! 4) of None \<Rightarrow> Inl errBadHashFormat
       | Some salt \<Rightarrow> (case StdDecodeString (parts ! 5) of None \<Rightarrow> Inl errBadHashFormat
       | Some want \<Rightarrow> if length want = 0 \<or> 1024 < length want then Inl errBadHashFormat
           else Inr (lib_argon2 lib password salt iters mem par (length want) = want))))"

section \<open>Properties\<close>

text \<open>The letters of an encoded text.\<close>

lemma EncodeToString_letters: "c \<in> set (EncodeToString s) \<Longrightarrow> c \<noteq> CHR ''+'' \<and> c \<noteq> CHR ''/'' \<and> c \<noteq> CHR ''$''"
proof -
  assume "c \<in> set (EncodeToString s)"
  then obtain n where n: "n < 64" "c = b64_alphabet ! n" using b64_sextets_less by (auto simp: EncodeToString_sextets b64_char_def)
  moreover have "length b64_alphabet = 64" by (simp add: b64_alphabet_def)
  ultimately have "c \<in> set b64_alphabet" by simp
  then show "c \<noteq> CHR ''+'' \<and> c \<noteq> CHR ''/'' \<and> c \<noteq> CHR ''$''" by (auto simp: b64_alphabet_def)
qed

lemma StdDecodeString_StdEncodeToString: "StdDecodeString (StdEncodeToString s) = Some s"
proof -
  have same: "map url_letter (map std_letter (EncodeToString s)) = EncodeToString s"
    using EncodeToString_letters [of _ s] by (auto simp: map_idI url_letter_def std_letter_def)
  moreover have "CHR ''-'' \<notin> set (map std_letter (EncodeToString s))" "CHR ''_'' \<notin> set (map std_letter (EncodeToString s))"
    by (auto simp: std_letter_def split: if_splits)
  ultimately show ?thesis using DecodeString_EncodeToString [of s] by (simp add: StdDecodeString_def StdEncodeToString_def)
qed

lemma StdEncodeToString_dollar: "CHR ''$'' \<notin> set (StdEncodeToString s)"
  using EncodeToString_letters [of _ s] by (auto simp: StdEncodeToString_def std_letter_def split: if_splits)

lemma phc_parts:
  "Split CHR ''$'' (phc_text salt key) = [[], ''argon2id'', ''v=19'', ''m=19456,t=2,p=1'', StdEncodeToString salt, StdEncodeToString key]"
proof -
  have digits: "fmt_d 19 = ''19''" "fmt_d (int argonMemory) = ''19456''" "fmt_d (int argonTime) = ''2''" "fmt_d (int argonThreads) = ''1''"
    by (simp_all add: fmt_d_def argonMemory_def argonTime_def argonThreads_def dec_digits.simps digit_char_def char_of_def bit_0)
  have "phc_text salt key = [] @ CHR ''$'' # ''argon2id'' @ CHR ''$'' # ''v=19'' @ CHR ''$'' # ''m=19456,t=2,p=1'' @ CHR ''$'' #
      StdEncodeToString salt @ CHR ''$'' # StdEncodeToString key" by (simp add: phc_text_def digits)
  then show ?thesis using StdEncodeToString_dollar [of salt] StdEncodeToString_dollar [of key]
    by (simp only: Split_append Split_none) (simp add: Split_append Split_none)
qed

lemma verifyPassword_phc:
  assumes "\<And>pw sa t m p n. length (lib_argon2 lib pw sa t m p n) = n"
  shows "verifyPassword lib password' (phc_text salt (lib_argon2 lib password salt 2 19456 1 32))
     = Inr (lib_argon2 lib password' salt 2 19456 1 32 = lib_argon2 lib password salt 2 19456 1 32)"
proof -
  have "scan_params ''m=19456,t=2,p=1'' = Some (19456, 2, 1)"
    by (simp add: scan_params_def scan_lit_def scan_uint_def dec_val_def digit_val_def is_digit_def)
  then show ?thesis
    by (simp add: verifyPassword_def phc_parts Let_def StdDecodeString_StdEncodeToString assms eval_nat_numeral(1))
qed

text \<open>
  C39. A stored password hash verifies exactly the password: for the text that \<open>hashPassword\<close> stores, with any salt,
  \<open>verifyPassword\<close> never fails, accepts the password it was made of, and accepts another one only if argon2id gives
  both the same key. argon2id returns as many bytes as it is asked for.
\<close>

theorem password_roundtrip:
  assumes "\<And>pw sa t m p n. length (lib_argon2 lib pw sa t m p n) = n" and "hashPassword lib (Some salt) password = Inr phc"
  shows "verifyPassword lib password' phc = Inr (lib_argon2 lib password' salt 2 19456 1 32 = lib_argon2 lib password salt 2 19456 1 32)
     \<and> verifyPassword lib password phc = Inr True"
proof -
  have "phc = phc_text salt (lib_argon2 lib password salt 2 19456 1 32)"
    using assms(2) by (simp add: hashPassword_def argonTime_def argonMemory_def argonThreads_def argonKeyLen_def)
  then show ?thesis using verifyPassword_phc [OF assms(1)] by simp
qed

end
