(* ===== verification/Identity.thy ===== *)
theory Identity
  imports Identity_Domain
begin

text \<open>
  The identity service, \<open>src/services/identity/internal\<close>: its tables and statements (\<open>adapters/postgres\<close>), the use
  cases (\<open>app/service.go\<close>), the claims it signs (\<open>adapters/keys/signer.go\<close>) and the gRPC surface
  (\<open>adapters/grpc/server.go\<close>). Signing itself is the JWT library's: \<open>sign\<close> below.
\<close>

section \<open>Tables\<close>

record User =
  us_ID :: string
  us_Email :: string
  us_PasswordHash :: string
  us_Name :: string
  us_Phone :: string
  us_CreatedAt :: time

record RoleRow =
  ro_UserID :: string
  ro_Role :: string

record SessionRow =
  ss_ID :: string
  ss_UserID :: string
  ss_FamilyID :: string
  ss_RefreshHash :: string
  ss_RotatedFrom :: "string option"
  ss_RotatedTo :: "string option"
  ss_ExpiresAt :: time
  ss_RevokedAt :: "time option"
  ss_Ip :: string
  ss_UserAgent :: string
  ss_CreatedAt :: time

record identity_db =
  users :: "User list"
  user_roles :: "RoleRow list"
  sessions :: "SessionRow list"
  i_outbox :: "OutboxRow list"

section \<open>queries.sql.go\<close>

definition q_AddRole :: "string \<Rightarrow> string \<Rightarrow> identity_db \<Rightarrow> pg_error + identity_db" where
  "q_AddRole userID role s =
    (if role \<notin> {''customer'', ''support'', ''admin''} then Inl CheckViolation
     else if userID \<notin> us_ID ` set (users s) then Inl ForeignKeyViolation
     else if \<lparr>ro_UserID = userID, ro_Role = role\<rparr> \<in> set (user_roles s) then Inr s
     else Inr (s\<lparr>user_roles := user_roles s @ [\<lparr>ro_UserID = userID, ro_Role = role\<rparr>]\<rparr>))"

record CreateSessionParams =
  cs_UserID :: string
  cs_FamilyID :: string
  cs_RefreshHash :: string
  cs_RotatedFrom :: "string option"
  cs_ExpiresAt :: time
  cs_Ip :: string
  cs_UserAgent :: string

definition q_CreateSession :: "tx_env \<Rightarrow> CreateSessionParams \<Rightarrow> identity_db \<Rightarrow> pg_error + SessionRow \<times> identity_db" where
  "q_CreateSession env arg s =
    (if env_gen_uuid env \<in> ss_ID ` set (sessions s) \<or> cs_RefreshHash arg \<in> ss_RefreshHash ` set (sessions s) then Inl UniqueViolation
     else if cs_UserID arg \<notin> us_ID ` set (users s) then Inl ForeignKeyViolation
     else let row = \<lparr>ss_ID = env_gen_uuid env, ss_UserID = cs_UserID arg, ss_FamilyID = cs_FamilyID arg, ss_RefreshHash = cs_RefreshHash arg,
                ss_RotatedFrom = cs_RotatedFrom arg, ss_RotatedTo = None, ss_ExpiresAt = pg_timestamptz (cs_ExpiresAt arg), ss_RevokedAt = None,
                ss_Ip = cs_Ip arg, ss_UserAgent = cs_UserAgent arg, ss_CreatedAt = env_now env\<rparr>
          in Inr (row, s\<lparr>sessions := sessions s @ [row]\<rparr>))"

definition q_CreateUser :: "tx_env \<Rightarrow> string \<Rightarrow> string \<Rightarrow> string \<Rightarrow> string \<Rightarrow> identity_db \<Rightarrow> pg_error + User \<times> identity_db" where
  "q_CreateUser env email hash name phone s =
    (if env_gen_uuid env \<in> us_ID ` set (users s) \<or> email \<in> us_Email ` set (users s) then Inl UniqueViolation
     else let u = \<lparr>us_ID = env_gen_uuid env, us_Email = email, us_PasswordHash = hash, us_Name = name, us_Phone = phone, us_CreatedAt = env_now env\<rparr>
          in Inr (u, s\<lparr>users := users s @ [u]\<rparr>))"

definition q_GetRoles :: "identity_db \<Rightarrow> string \<Rightarrow> string list" where
  "q_GetRoles s userID = sort (map ro_Role (filter (\<lambda>r. ro_UserID r = userID) (user_roles s)))"

definition q_GetSessionByID :: "identity_db \<Rightarrow> string \<Rightarrow> pg_error + SessionRow" where
  "q_GetSessionByID s ident = one_row (select_one (\<lambda>x. ss_ID x = ident) (sessions s))"

definition q_GetSessionByRefreshHash :: "identity_db \<Rightarrow> string \<Rightarrow> pg_error + SessionRow" where
  "q_GetSessionByRefreshHash s hash = one_row (select_one (\<lambda>x. ss_RefreshHash x = hash) (sessions s))"

definition q_GetUserByEmail :: "identity_db \<Rightarrow> string \<Rightarrow> pg_error + User" where
  "q_GetUserByEmail s email = one_row (select_one (\<lambda>u. us_Email u = email) (users s))"

definition q_GetUserByID :: "identity_db \<Rightarrow> string \<Rightarrow> pg_error + User" where
  "q_GetUserByID s ident = one_row (select_one (\<lambda>u. us_ID u = ident) (users s))"

text \<open>\<open>now\<close> is the database's clock.\<close>

definition q_ListActiveSessions :: "identity_db \<Rightarrow> time \<Rightarrow> string \<Rightarrow> SessionRow list" where
  "q_ListActiveSessions s now userID = rev (sort_key ss_CreatedAt (rev (filter (\<lambda>x. ss_UserID x = userID \<and> ss_RevokedAt x = None \<and> now < ss_ExpiresAt x) (sessions s))))"

text \<open>The number of rows changed.\<close>

definition q_MarkSessionRotated :: "tx_env \<Rightarrow> string \<Rightarrow> string option \<Rightarrow> identity_db \<Rightarrow> nat \<times> identity_db" where
  "q_MarkSessionRotated env ident rotatedTo s = (let hit = (\<lambda>x. ss_ID x = ident \<and> ss_RevokedAt x = None) in
     (length (filter hit (sessions s)),
      s\<lparr>sessions := update_where hit (\<lambda>x. x\<lparr>ss_RevokedAt := Some (env_now env), ss_RotatedTo := rotatedTo\<rparr>) (sessions s)\<rparr>))"

definition q_RevokeSessionFamily :: "tx_env \<Rightarrow> string \<Rightarrow> identity_db \<Rightarrow> identity_db" where
  "q_RevokeSessionFamily env familyID s =
     s\<lparr>sessions := update_where (\<lambda>x. ss_FamilyID x = familyID \<and> ss_RevokedAt x = None) (\<lambda>x. x\<lparr>ss_RevokedAt := Some (env_now env)\<rparr>) (sessions s)\<rparr>"

section \<open>signer.go\<close>

record AccessClaims =
  jc_Iss :: string
  jc_Sub :: string
  jc_Sid :: string
  jc_Roles :: "string list"
  jc_Iat :: int
  jc_Exp :: int

text \<open>The configuration of the service: issuer, key identifier and lifetimes.\<close>

record signer =
  sg_Issuer :: string
  sg_Kid :: string
  sg_AccessTTL :: duration
  sg_RefreshTTL :: duration

type_synonym sign_lib = "string \<Rightarrow> AccessClaims \<Rightarrow> identity_err + string"

definition SignAccess :: "sign_lib \<Rightarrow> signer \<Rightarrow> time \<Rightarrow> string \<Rightarrow> string \<Rightarrow> string list \<Rightarrow> identity_err + string" where
  "SignAccess sign sg now userID familyID roles = sign (sg_Kid sg) \<lparr>jc_Iss = sg_Issuer sg, jc_Sub = userID, jc_Sid = familyID, jc_Roles = roles,
     jc_Iat = unix now, jc_Exp = unix (now + sint (sg_AccessTTL sg))\<rparr>"

section \<open>service.go\<close>

record UserView =
  uv_ID :: string
  uv_Email :: string
  uv_Name :: string
  uv_Phone :: string
  uv_Roles :: "string list"
  uv_CreatedAt :: time

record TokenPair =
  tk_AccessToken :: string
  tk_RefreshToken :: string
  tk_ExpiresInSeconds :: int
  tk_User :: "UserView option"

definition userView :: "User \<Rightarrow> string list \<Rightarrow> UserView" where
  "userView u roles = \<lparr>uv_ID = us_ID u, uv_Email = us_Email u, uv_Name = us_Name u, uv_Phone = us_Phone u, uv_Roles = roles, uv_CreatedAt = us_CreatedAt u\<rparr>"

definition registerTx :: "tx_env \<Rightarrow> string \<Rightarrow> string \<Rightarrow> string \<Rightarrow> string \<Rightarrow> identity_db \<Rightarrow> identity_err + UserView \<times> identity_db" where
  "registerTx env email hash name phone s = (case q_CreateUser env email hash name phone s of
      Inl UniqueViolation \<Rightarrow> Inl (app_Wrap CodeAlreadyExists ''email already registered'' (Sentinel ErrEmailTaken))
    | Inl err \<Rightarrow> Inl (rawErr err)
    | Inr (u, s1) \<Rightarrow>
        sum_bind (map_left rawErr (q_AddRole (us_ID u) RoleCustomer s1)) (\<lambda>s2.
        sum_bind (NewProtoMessage env 0 ''customers.registered'' (us_ID u) (env_request_id env) (CustomerRegistered (us_ID u) (us_Email u) (us_Name u))) (\<lambda>msg.
        sum_bind (outbox_Insert env msg (i_outbox s2)) (\<lambda>ob. Inr (userView u [RoleCustomer], s2\<lparr>i_outbox := ob\<rparr>)))))"

definition Register :: "identity_lib \<Rightarrow> string option \<Rightarrow> tx_env \<Rightarrow> string \<Rightarrow> string \<Rightarrow> string \<Rightarrow> string \<Rightarrow> identity_db \<Rightarrow> (identity_err + UserView) \<times> identity_db" where
  "Register lib salt env email password name phone s = (let email' = ToLower lib (TrimText lib email) in
     case ValidateRegistration lib email' password name of
       Inl err \<Rightarrow> (Inl (app_Wrap CodeInvalidArgument (err_Error identity_text err) err), s)
     | Inr _ \<Rightarrow> (case hashPassword lib salt password of
         Inl err \<Rightarrow> (Inl (app_Wrap CodeInternal ''hash password'' err), s)
       | Inr hash \<Rightarrow> WithTx (\<lambda>_. True) env (registerTx env email' hash name phone) s))"

text \<open>The 32 random bytes of a refresh token, \<open>None\<close> when the entropy source fails.\<close>

definition newRefreshToken :: "identity_lib \<Rightarrow> string option \<Rightarrow> identity_err + string \<times> string" where
  "newRefreshToken lib draw = (case draw of
      None \<Rightarrow> Inl (app_Wrap CodeInternal ''entropy'' (Opaque ''rand''))
    | Some buf \<Rightarrow> Inr (EncodeToString buf, lib_Sha256 lib buf))"

definition hashRefreshToken :: "identity_lib \<Rightarrow> string \<Rightarrow> string" where
  "hashRefreshToken lib raw = (case DecodeString raw of None \<Rightarrow> lib_Sha256 lib raw | Some buf \<Rightarrow> lib_Sha256 lib buf)"

text \<open>
  The inputs of \<open>Login\<close> and \<open>Refresh\<close>: the clock of the service, the family identifier (\<open>uuid.NewString\<close>), the random
  bytes, what others commit between the read and the write, and the transaction.
\<close>

record session_env =
  se_Now :: time
  se_Family :: string
  se_Draw :: "string option"
  se_Between :: "identity_db \<Rightarrow> identity_db"
  se_Tx :: tx_env

text \<open>Whole seconds, rounded towards zero (\<open>Seconds\<close> is a float, exact enough for lifetimes below 97 days).\<close>

definition expires_in :: "signer \<Rightarrow> int" where
  "expires_in sg = (let d = sint (sg_AccessTTL sg) in if d < 0 then - (- d div 1000000000) else d div 1000000000)"

definition Login :: "identity_lib \<Rightarrow> sign_lib \<Rightarrow> signer \<Rightarrow> session_env \<Rightarrow> string \<Rightarrow> string \<Rightarrow> string \<Rightarrow> string \<Rightarrow> identity_db
     \<Rightarrow> (identity_err + TokenPair) \<times> identity_db" where
  "Login lib sign sg env email password ip userAgent s = (case q_GetUserByEmail s (ToLower lib (TrimText lib email)) of
      Inl err \<Rightarrow> (Inl (if err = ErrNoRows then app_New CodeUnauthenticated ''invalid credentials'' else rawErr err), s)
    | Inr u \<Rightarrow>
        if verifyPassword lib password (us_PasswordHash u) \<noteq> Inr True then (Inl (app_New CodeUnauthenticated ''invalid credentials''), s)
        else (let roles = q_GetRoles s (us_ID u) in
          case newRefreshToken lib (se_Draw env) of Inl err \<Rightarrow> (Inl err, s)
        | Inr (raw, hash) \<Rightarrow>
          (case statement (se_Tx env) (q_CreateSession (se_Tx env) \<lparr>cs_UserID = us_ID u, cs_FamilyID = se_Family env, cs_RefreshHash = hash,
                cs_RotatedFrom = None, cs_ExpiresAt = se_Now env + sint (sg_RefreshTTL sg), cs_Ip = ip, cs_UserAgent = userAgent\<rparr>) (se_Between env s) of
             (Inl err, s') \<Rightarrow> (Inl err, s')
           | (Inr _, s') \<Rightarrow> (case SignAccess sign sg (se_Now env) (us_ID u) (se_Family env) roles of
               Inl err \<Rightarrow> (Inl (app_Wrap CodeInternal ''sign token'' err), s')
             | Inr access \<Rightarrow> (Inr \<lparr>tk_AccessToken = access, tk_RefreshToken = raw, tk_ExpiresInSeconds = expires_in sg, tk_User = Some (userView u roles)\<rparr>, s')))))"

definition toDomainSession :: "SessionRow \<Rightarrow> Session" where
  "toDomainSession x = \<lparr>sn_ID = ss_ID x, sn_UserID = ss_UserID x, sn_FamilyID = ss_FamilyID x, sn_RotatedTo = text_or_empty (ss_RotatedTo x),
     sn_ExpiresAt = ss_ExpiresAt x, sn_RevokedAt = ss_RevokedAt x\<rparr>"

text \<open>The transaction of a rotation: the loser of a race finds the token rotated, revokes the family and fails.\<close>

definition rotateTx :: "sign_lib \<Rightarrow> signer \<Rightarrow> session_env \<Rightarrow> SessionRow \<Rightarrow> string \<Rightarrow> string \<Rightarrow> string \<Rightarrow> identity_db \<Rightarrow> identity_err + string \<times> identity_db" where
  "rotateTx sign sg env sess newHash ip userAgent s =
    sum_bind (map_left rawErr (q_CreateSession (se_Tx env) \<lparr>cs_UserID = ss_UserID sess, cs_FamilyID = ss_FamilyID sess, cs_RefreshHash = newHash,
        cs_RotatedFrom = Some (ss_ID sess), cs_ExpiresAt = se_Now env + sint (sg_RefreshTTL sg), cs_Ip = ip, cs_UserAgent = userAgent\<rparr> s)) (\<lambda>(nxt, s1).
    (case q_MarkSessionRotated (se_Tx env) (ss_ID sess) (Some (ss_ID nxt)) s1 of (n, s2) \<Rightarrow>
       if n = 0 then (let s3 = q_RevokeSessionFamily (se_Tx env) (ss_FamilyID sess) s2 in Inl (app_New CodeUnauthenticated ''refresh token reuse detected''))
       else sum_bind (SignAccess sign sg (se_Now env) (ss_UserID sess) (ss_FamilyID sess) (q_GetRoles s2 (ss_UserID sess))) (\<lambda>access. Inr (access, s2))))"

definition Refresh :: "identity_lib \<Rightarrow> sign_lib \<Rightarrow> signer \<Rightarrow> session_env \<Rightarrow> string \<Rightarrow> string \<Rightarrow> string \<Rightarrow> identity_db
     \<Rightarrow> (identity_err + TokenPair) \<times> identity_db" where
  "Refresh lib sign sg env rawToken ip userAgent s = (case q_GetSessionByRefreshHash s (hashRefreshToken lib rawToken) of
      Inl err \<Rightarrow> (Inl (if err = ErrNoRows then app_New CodeUnauthenticated ''invalid refresh token'' else rawErr err), s)
    | Inr sess \<Rightarrow> (case DecideRefresh (toDomainSession sess) (se_Now env) of
        DecisionReuse \<Rightarrow>
          (case statement (se_Tx env) (\<lambda>s. Inr ((), q_RevokeSessionFamily (se_Tx env) (ss_FamilyID sess) s)) (se_Between env s) of
             (Inl err, s') \<Rightarrow> (Inl err, s')
           | (Inr _, s') \<Rightarrow> (Inl (app_New CodeUnauthenticated ''refresh token reuse detected''), s'))
      | DecisionDenied \<Rightarrow> (Inl (app_New CodeUnauthenticated ''refresh token no longer valid''), s)
      | DecisionExpired \<Rightarrow> (Inl (app_New CodeUnauthenticated ''refresh token no longer valid''), s)
      | DecisionRotate \<Rightarrow> (case newRefreshToken lib (se_Draw env) of
            Inl err \<Rightarrow> (Inl err, s)
          | Inr (raw, newHash) \<Rightarrow>
              (case WithTx (\<lambda>_. True) (se_Tx env) (rotateTx sign sg env sess newHash ip userAgent) (se_Between env s) of
                 (Inl err, s') \<Rightarrow> (Inl err, s')
               | (Inr access, s') \<Rightarrow> (Inr \<lparr>tk_AccessToken = access, tk_RefreshToken = raw, tk_ExpiresInSeconds = expires_in sg, tk_User = None\<rparr>, s')))))"

definition Logout :: "identity_lib \<Rightarrow> session_env \<Rightarrow> string \<Rightarrow> identity_db \<Rightarrow> (identity_err + unit) \<times> identity_db" where
  "Logout lib env rawToken s = (case q_GetSessionByRefreshHash s (hashRefreshToken lib rawToken) of
      Inl err \<Rightarrow> (if err = ErrNoRows then Inr () else Inl (rawErr err), s)
    | Inr sess \<Rightarrow> statement (se_Tx env) (\<lambda>s. Inr ((), q_RevokeSessionFamily (se_Tx env) (ss_FamilyID sess) s)) (se_Between env s))"

definition GetMe :: "identity_db \<Rightarrow> string \<Rightarrow> identity_err + UserView" where
  "GetMe s userID =
    (if userID = '''' then Inl (app_New CodeUnauthenticated ''no caller identity'')
     else case q_GetUserByID s userID of
         Inl err \<Rightarrow> Inl (if err = ErrNoRows then app_New CodeNotFound ''user not found'' else rawErr err)
       | Inr u \<Rightarrow> Inr (userView u (q_GetRoles s (us_ID u))))"

record SessionView =
  sv_ID :: string
  sv_FamilyID :: string
  sv_CreatedAt :: time
  sv_ExpiresAt :: time
  sv_IP :: string
  sv_UserAgent :: string

definition ListSessions :: "identity_db \<Rightarrow> time \<Rightarrow> string \<Rightarrow> SessionView list" where
  "ListSessions s now userID = map (\<lambda>r. \<lparr>sv_ID = ss_ID r, sv_FamilyID = ss_FamilyID r, sv_CreatedAt = ss_CreatedAt r, sv_ExpiresAt = ss_ExpiresAt r,
     sv_IP = ss_Ip r, sv_UserAgent = ss_UserAgent r\<rparr>) (q_ListActiveSessions s now userID)"

definition RevokeSession :: "session_env \<Rightarrow> string \<Rightarrow> string \<Rightarrow> identity_db \<Rightarrow> (identity_err + unit) \<times> identity_db" where
  "RevokeSession env callerID sessionID s = (case q_GetSessionByID s sessionID of
      Inl err \<Rightarrow> (Inl (if err = ErrNoRows then app_New CodeNotFound ''session not found'' else rawErr err), s)
    | Inr sess \<Rightarrow>
        if ss_UserID sess \<noteq> callerID then (Inl (app_New CodeForbidden ''not your session''), s)
        else statement (se_Tx env) (\<lambda>s. Inr ((), q_RevokeSessionFamily (se_Tx env) (ss_FamilyID sess) s)) (se_Between env s))"

section \<open>grpc/server.go\<close>

definition identity_edge :: "identity_err + 'a \<Rightarrow> identity_err + 'a" where
  "identity_edge res = map_left ToGRPC res"

definition server_Register :: "identity_lib \<Rightarrow> string option \<Rightarrow> tx_env \<Rightarrow> string \<Rightarrow> string \<Rightarrow> string \<Rightarrow> string \<Rightarrow> identity_db \<Rightarrow> (identity_err + UserView) \<times> identity_db" where
  "server_Register lib salt env email password name phone s = map_prod identity_edge (\<lambda>s. s) (Register lib salt env email password name phone s)"

definition server_Login :: "identity_lib \<Rightarrow> sign_lib \<Rightarrow> signer \<Rightarrow> session_env \<Rightarrow> string \<Rightarrow> string \<Rightarrow> identity_db \<Rightarrow> (identity_err + TokenPair) \<times> identity_db" where
  "server_Login lib sign sg env email password s = map_prod identity_edge (\<lambda>s. s) (Login lib sign sg env email password '''' '''' s)"

definition server_Refresh :: "identity_lib \<Rightarrow> sign_lib \<Rightarrow> signer \<Rightarrow> session_env \<Rightarrow> string \<Rightarrow> identity_db \<Rightarrow> (identity_err + TokenPair) \<times> identity_db" where
  "server_Refresh lib sign sg env token s = map_prod identity_edge (\<lambda>s. s) (Refresh lib sign sg env token '''' '''' s)"

definition server_Logout :: "identity_lib \<Rightarrow> session_env \<Rightarrow> string \<Rightarrow> identity_db \<Rightarrow> (identity_err + unit) \<times> identity_db" where
  "server_Logout lib env token s = map_prod identity_edge (\<lambda>s. s) (Logout lib env token s)"

definition server_GetMe :: "call_ctx \<Rightarrow> identity_db \<Rightarrow> identity_err + UserView" where
  "server_GetMe ctx s = identity_edge (GetMe s (cl_CustomerID (ctx_Claims ctx)))"

definition server_ListSessions :: "call_ctx \<Rightarrow> time \<Rightarrow> identity_db \<Rightarrow> identity_err + SessionView list" where
  "server_ListSessions ctx now s =
    (if cl_CustomerID (ctx_Claims ctx) = '''' then Inl (ToGRPC (app_New CodeUnauthenticated ''no caller identity''))
     else Inr (ListSessions s now (cl_CustomerID (ctx_Claims ctx))))"

definition server_RevokeSession :: "session_env \<Rightarrow> call_ctx \<Rightarrow> string \<Rightarrow> identity_db \<Rightarrow> (identity_err + unit) \<times> identity_db" where
  "server_RevokeSession env ctx sessionID s =
    (if cl_CustomerID (ctx_Claims ctx) = '''' then (Inl (ToGRPC (app_New CodeUnauthenticated ''no caller identity'')), s)
     else map_prod identity_edge (\<lambda>s. s) (RevokeSession env (cl_CustomerID (ctx_Claims ctx)) sessionID s))"

end
