(* ===== verification/Identity_Safety.thy ===== *)
theory Identity_Safety
  imports Identity
begin

text \<open>
  Correctness of the identity service: the rotation of refresh tokens, the detection of their reuse, and the
  roles a user can get. The states are those any interleaving of the service's transactions reaches.
\<close>

section \<open>Transactions\<close>

text \<open>
  A session read earlier is known by its identifier, user and family, which never change. A new family has a new
  identifier, and identifiers are not empty.
\<close>

definition known_session :: "identity_db \<Rightarrow> SessionRow \<Rightarrow> bool" where
  "known_session s x \<longleftrightarrow> list_ex (\<lambda>y. ss_ID y = ss_ID x \<and> ss_UserID y = ss_UserID x \<and> ss_FamilyID y = ss_FamilyID x) (sessions s)"

inductive identity_step :: "identity_db \<Rightarrow> identity_db \<Rightarrow> bool" where
  register: "registerTx env email hash name phone s = Inr (u, s') \<Longrightarrow> identity_step s s'"
| login: "cs_FamilyID arg \<notin> ss_FamilyID ` set (sessions s) \<Longrightarrow> q_CreateSession env arg s = Inr (x, s') \<Longrightarrow> identity_step s s'"
| rotate: "known_session s sess \<Longrightarrow> env_gen_uuid (se_Tx env) \<noteq> '''' \<Longrightarrow> rotateTx sign sg env sess newHash ip userAgent s = Inr (access, s')
    \<Longrightarrow> identity_step s s'"
| revoke: "identity_step s (q_RevokeSessionFamily env familyID s)"
| relay: "relayOnce env locked produce (i_outbox s, log) = (res :: identity_err + nat, t, log') \<Longrightarrow> identity_step s (s\<lparr>i_outbox := t\<rparr>)"

text \<open>The database after the migration: one user of the staff.\<close>

definition seeded_admin :: string where "seeded_admin = ''00000000-0000-7000-8000-000000000001''"

definition initial_identity :: "time \<Rightarrow> identity_db" where
  "initial_identity now = \<lparr>users = [\<lparr>us_ID = seeded_admin, us_Email = ''admin@bank-core.local'',
       us_PasswordHash = ''$argon2id$v=19$m=19456,t=2,p=1$YmFuay1jb3JlLWRlbW8tc2FsdA$2GrBhgFqycQKm5+mhYWbynBXquRC16eBEFGvULSZ/Xo'',
       us_Name = ''Seeded Admin'', us_Phone = '''', us_CreatedAt = now\<rparr>],
     user_roles = map (\<lambda>r. \<lparr>ro_UserID = seeded_admin, ro_Role = r\<rparr>) [''admin'', ''support'', ''customer''],
     sessions = [], i_outbox = []\<rparr>"

definition identity_reachable :: "identity_db \<Rightarrow> bool" where
  "identity_reachable s \<longleftrightarrow> (\<exists>now. identity_step\<^sup>*\<^sup>* (initial_identity now) s)"

section \<open>The invariant\<close>

text \<open>
  Tokens are unique, a family has at most one token that is not revoked, a rotated token is revoked, and only the
  seeded user has a role besides \<open>customer\<close>.
\<close>

definition live :: "SessionRow \<Rightarrow> bool" where "live x \<longleftrightarrow> ss_RevokedAt x = None"

definition sessions_ok :: "SessionRow list \<Rightarrow> bool" where
  "sessions_ok xs \<longleftrightarrow> distinct (map ss_ID xs) \<and> distinct (map ss_RefreshHash xs) \<and> distinct (map ss_FamilyID (filter live xs))
     \<and> (\<forall>x \<in> set xs. ss_RotatedTo x \<noteq> None \<longrightarrow> \<not> live x \<and> ss_RotatedTo x \<noteq> Some '''')"

definition roles_ok :: "identity_db \<Rightarrow> bool" where
  "roles_ok s \<longleftrightarrow> (\<forall>r \<in> set (user_roles s). ro_UserID r \<in> us_ID ` set (users s) \<and> (ro_UserID r \<noteq> seeded_admin \<longrightarrow> ro_Role r = RoleCustomer))
     \<and> seeded_admin \<in> us_ID ` set (users s)"

definition identity_inv :: "identity_db \<Rightarrow> bool" where
  "identity_inv s \<longleftrightarrow> sessions_ok (sessions s) \<and> roles_ok s"

lemma q_CreateSession_effect:
  assumes "q_CreateSession env arg s = Inr (x, s')"
  shows "s' = s\<lparr>sessions := sessions s @ [x]\<rparr>" and "ss_ID x \<notin> ss_ID ` set (sessions s)" and "ss_RefreshHash x \<notin> ss_RefreshHash ` set (sessions s)"
    and "ss_RefreshHash x = cs_RefreshHash arg" and "ss_FamilyID x = cs_FamilyID arg" and "ss_UserID x = cs_UserID arg" and "ss_ID x = env_gen_uuid env"
    and "live x" and "ss_RotatedTo x = None"
  using assms by (auto simp: q_CreateSession_def Let_def live_def split: if_splits)

lemma registerTx_effect:
  assumes "registerTx env email hash name phone s = Inr (u, s')"
  shows "\<exists>x. users s' = users s @ [x] \<and> us_ID x \<notin> us_ID ` set (users s) \<and> sessions s' = sessions s
    \<and> set (user_roles s') \<subseteq> insert \<lparr>ro_UserID = us_ID x, ro_Role = RoleCustomer\<rparr> (set (user_roles s))"
proof -
  obtain x s1 where x: "q_CreateUser env email hash name phone s = Inr (x, s1)"
    using assms by (auto simp: registerTx_def split: sum.splits pg_error.splits)
  then have s1: "s1 = s\<lparr>users := users s @ [x]\<rparr>" "us_ID x \<notin> us_ID ` set (users s)"
    by (auto simp: q_CreateUser_def Let_def split: if_splits)
  obtain s2 where s2: "q_AddRole (us_ID x) RoleCustomer s1 = Inr s2" "users s' = users s2" "sessions s' = sessions s2" "user_roles s' = user_roles s2"
    using assms x by (auto simp: registerTx_def)
  have "users s2 = users s1 \<and> sessions s2 = sessions s1 \<and> set (user_roles s2) \<subseteq> insert \<lparr>ro_UserID = us_ID x, ro_Role = RoleCustomer\<rparr> (set (user_roles s1))"
    using s2(1) by (auto simp: q_AddRole_def split: if_splits)
  then show ?thesis using s1 s2(2-4) by simp
qed

text \<open>A rotation replaces the live token of its family.\<close>

definition rotated :: "tx_env \<Rightarrow> string \<Rightarrow> string \<Rightarrow> SessionRow \<Rightarrow> SessionRow" where
  "rotated env ident nxt y = (if ss_ID y = ident \<and> live y then y\<lparr>ss_RevokedAt := Some (env_now env), ss_RotatedTo := Some nxt\<rparr> else y)"

lemma rotateTx_effect:
  assumes "rotateTx sign sg env sess newHash ip userAgent s = Inr (access, s')" and known: "known_session s sess"
  shows "\<exists>x. sessions s' = map (rotated (se_Tx env) (ss_ID sess) (ss_ID x)) (sessions s) @ [x] \<and> users s' = users s \<and> user_roles s' = user_roles s
    \<and> ss_ID x \<notin> ss_ID ` set (sessions s) \<and> newHash \<notin> ss_RefreshHash ` set (sessions s) \<and> ss_RefreshHash x = newHash \<and> ss_FamilyID x = ss_FamilyID sess
    \<and> ss_UserID x = ss_UserID sess \<and> ss_ID x = env_gen_uuid (se_Tx env) \<and> live x \<and> ss_RotatedTo x = None
    \<and> (\<exists>y \<in> set (sessions s). ss_ID y = ss_ID sess \<and> live y)
    \<and> SignAccess sign sg (se_Now env) (ss_UserID sess) (ss_FamilyID sess) (q_GetRoles s (ss_UserID sess)) = Inr access"
proof -
  define arg where "arg = \<lparr>cs_UserID = ss_UserID sess, cs_FamilyID = ss_FamilyID sess, cs_RefreshHash = newHash,
        cs_RotatedFrom = Some (ss_ID sess), cs_ExpiresAt = se_Now env + sint (sg_RefreshTTL sg), cs_Ip = ip, cs_UserAgent = userAgent\<rparr>"
  obtain x s1 where c: "q_CreateSession (se_Tx env) arg s = Inr (x, s1)" using assms by (auto simp: rotateTx_def arg_def)
  note e = q_CreateSession_effect [OF c]
  have other: "ss_ID sess \<noteq> ss_ID x" using known e(2) unfolding known_session_def list_ex_iff by (metis imageI)
  define hit :: "SessionRow \<Rightarrow> bool" where "hit = (\<lambda>y. ss_ID y = ss_ID sess \<and> ss_RevokedAt y = None)"
  define mark where "mark = q_MarkSessionRotated (se_Tx env) (ss_ID sess) (Some (ss_ID x)) s1"
  have run: "fst mark \<noteq> 0 \<and> s' = snd mark \<and>
      SignAccess sign sg (se_Now env) (ss_UserID sess) (ss_FamilyID sess) (q_GetRoles s' (ss_UserID sess)) = Inr access"
    using assms(1) c by (auto simp: rotateTx_def arg_def [symmetric] mark_def [symmetric] Let_def split: prod.splits if_splits)
  have m: "fst mark = length (filter hit (sessions s1))"
    "snd mark = s1\<lparr>sessions := update_where hit (\<lambda>y. y\<lparr>ss_RevokedAt := Some (env_now (se_Tx env)), ss_RotatedTo := Some (ss_ID x)\<rparr>) (sessions s1)\<rparr>"
    by (simp_all add: mark_def q_MarkSessionRotated_def Let_def hit_def)
  have upd: "update_where hit (\<lambda>y. y\<lparr>ss_RevokedAt := Some (env_now (se_Tx env)), ss_RotatedTo := Some (ss_ID x)\<rparr>) ys
      = map (rotated (se_Tx env) (ss_ID sess) (ss_ID x)) ys" for ys
    by (simp add: update_where_def rotated_def live_def hit_def)
  have "rotated (se_Tx env) (ss_ID sess) (ss_ID x) x = x" "\<not> hit x" using other by (simp_all add: rotated_def hit_def)
  then have rows: "sessions s' = map (rotated (se_Tx env) (ss_ID sess) (ss_ID x)) (sessions s) @ [x]" and "filter hit (sessions s) \<noteq> []"
    using run m e(1) by (simp_all add: upd)
  moreover from this(2) have "\<exists>y \<in> set (sessions s). ss_ID y = ss_ID sess \<and> live y" by (auto simp: filter_empty_conv hit_def live_def)
  moreover have "users s' = users s" "user_roles s' = user_roles s" using run m(2) e(1) by simp_all
  moreover from this(2) have "q_GetRoles s' = q_GetRoles s" by (simp add: q_GetRoles_def [abs_def])
  moreover have "SignAccess sign sg (se_Now env) (ss_UserID sess) (ss_FamilyID sess) (q_GetRoles s (ss_UserID sess)) = Inr access"
    using run \<open>q_GetRoles s' = q_GetRoles s\<close> by metis
  ultimately show ?thesis using e(2-9) by (intro exI [of _ x]) (simp add: arg_def)
qed

text \<open>A session keeps its identity, and a revoked one does not change at all.\<close>

definition keeps :: "SessionRow \<Rightarrow> SessionRow \<Rightarrow> bool" where
  "keeps x x' \<longleftrightarrow> ss_ID x' = ss_ID x \<and> ss_UserID x' = ss_UserID x \<and> ss_FamilyID x' = ss_FamilyID x \<and> ss_RefreshHash x' = ss_RefreshHash x
     \<and> (\<not> live x \<longrightarrow> x' = x)"

definition sessions_kept :: "SessionRow list \<Rightarrow> SessionRow list \<Rightarrow> bool" where
  "sessions_kept xs xs' \<longleftrightarrow> (\<forall>x \<in> set xs. \<exists>x' \<in> set xs'. keeps x x')"

text \<open>No token of the family is live.\<close>

definition dead :: "string \<Rightarrow> SessionRow list \<Rightarrow> bool" where
  "dead fam xs \<longleftrightarrow> fam \<in> ss_FamilyID ` set xs \<and> (\<forall>x \<in> set xs. ss_FamilyID x = fam \<longrightarrow> \<not> live x)"

lemma keeps_refl [simp]: "keeps x x"
  by (simp add: keeps_def)

lemma keeps_trans: "keeps x y \<Longrightarrow> keeps y z \<Longrightarrow> keeps x z"
  by (auto simp: keeps_def)

lemma rotated_simps [simp]:
  "ss_ID (rotated env k n y) = ss_ID y" "ss_FamilyID (rotated env k n y) = ss_FamilyID y" "ss_RefreshHash (rotated env k n y) = ss_RefreshHash y"
  "live (rotated env k n y) \<longleftrightarrow> live y \<and> ss_ID y \<noteq> k" "keeps y (rotated env k n y)"
  by (auto simp: rotated_def live_def keeps_def)

definition revoked :: "tx_env \<Rightarrow> string \<Rightarrow> SessionRow \<Rightarrow> SessionRow" where
  "revoked env fam y = (if ss_FamilyID y = fam \<and> live y then y\<lparr>ss_RevokedAt := Some (env_now env)\<rparr> else y)"

lemma revoked_simps [simp]:
  "ss_ID (revoked env f y) = ss_ID y" "ss_FamilyID (revoked env f y) = ss_FamilyID y" "ss_RefreshHash (revoked env f y) = ss_RefreshHash y"
  "ss_RotatedTo (revoked env f y) = ss_RotatedTo y" "live (revoked env f y) \<longleftrightarrow> live y \<and> ss_FamilyID y \<noteq> f" "keeps y (revoked env f y)"
  by (auto simp: revoked_def live_def keeps_def)

lemma RevokeFamily_rows:
  "sessions (q_RevokeSessionFamily env f s) = map (revoked env f) (sessions s)" "users (q_RevokeSessionFamily env f s) = users s"
  "user_roles (q_RevokeSessionFamily env f s) = user_roles s"
  by (simp_all add: q_RevokeSessionFamily_def update_where_def revoked_def live_def)

lemma distinct_subfilter:
  assumes "distinct (map f (filter P xs))" and "\<And>x. Q x \<Longrightarrow> P x"
  shows "distinct (map f (filter Q xs))"
  using assms(1) by (induction xs) (auto dest: assms(2) split: if_splits)

lemma sessions_kept_append [simp]: "sessions_kept xs (xs @ ys)"
  unfolding sessions_kept_def using keeps_refl by (metis Un_iff set_append)

lemma sessions_kept_refl [simp]: "sessions_kept xs xs"
  using sessions_kept_append [of xs "[]"] by simp

text \<open>What one transaction does to the sessions.\<close>

lemma identity_step_sessions:
  assumes "identity_step s s'" and ok: "sessions_ok (sessions s)"
  shows "sessions_ok (sessions s') \<and> sessions_kept (sessions s) (sessions s') \<and> (\<forall>fam. dead fam (sessions s) \<longrightarrow> dead fam (sessions s'))"
  using assms
proof (induction rule: identity_step.induct)
  case (register env email hash name phone s u s')
  then show ?case using registerTx_effect [OF register(1)] by auto
next
  case (login arg s env x s')
  note e = q_CreateSession_effect [OF login(2)]
  have "cs_FamilyID arg \<notin> ss_FamilyID ` set (filter live (sessions s))" using login(1) by auto
  then have "sessions_ok (sessions s')" using login(3) e by (auto simp: sessions_ok_def)
  moreover have "sessions_kept (sessions s) (sessions s')" using e(1) by auto
  ultimately show ?case using login(1) e by (auto simp: dead_def)
next
  case (rotate s sess env sign sg newHash ip userAgent access s')
  obtain x y where x: "sessions s' = map (rotated (se_Tx env) (ss_ID sess) (ss_ID x)) (sessions s) @ [x]" "ss_ID x \<notin> ss_ID ` set (sessions s)"
    "newHash \<notin> ss_RefreshHash ` set (sessions s)" "ss_RefreshHash x = newHash" "ss_FamilyID x = ss_FamilyID sess" "ss_ID x = env_gen_uuid (se_Tx env)"
    "live x" "ss_RotatedTo x = None" and y: "y \<in> set (sessions s)" "ss_ID y = ss_ID sess" "live y"
    using rotateTx_effect [OF rotate(3,1)] by blast
  have ids: "distinct (map ss_ID (sessions s))" and fams: "distinct (map ss_FamilyID (filter live (sessions s)))" using rotate(4) by (simp_all add: sessions_ok_def)
  have fam: "ss_FamilyID y = ss_FamilyID sess"
    using rotate(1) y ids unfolding known_session_def list_ex_iff by (metis distinct_map inj_onD)
  let ?left = "\<lambda>z. live z \<and> ss_ID z \<noteq> ss_ID sess"
  have new: "ss_FamilyID sess \<notin> ss_FamilyID ` set (filter ?left (sessions s))"
  proof
    assume "ss_FamilyID sess \<in> ss_FamilyID ` set (filter ?left (sessions s))"
    then obtain z where z: "z \<in> set (sessions s)" "live z" "ss_ID z \<noteq> ss_ID sess" "ss_FamilyID z = ss_FamilyID y" using fam by auto
    then have "z = y" using fams y(1,3) by (auto simp: distinct_map dest: inj_onD)
    then show False using z(3) y(2) by simp
  qed
  have lives: "filter live (map (rotated (se_Tx env) (ss_ID sess) (ss_ID x)) (sessions s)) = map (rotated (se_Tx env) (ss_ID sess) (ss_ID x)) (filter ?left (sessions s))"
    by (simp add: filter_map comp_def)
  have "distinct (map ss_FamilyID (filter live (sessions s')))"
    using distinct_subfilter [OF fams, of ?left] new x(5,7) by (simp add: x(1) lives comp_def)
  moreover have "\<forall>z \<in> set (sessions s'). ss_RotatedTo z \<noteq> None \<longrightarrow> \<not> live z \<and> ss_RotatedTo z \<noteq> Some ''''"
    using rotate(2,4) x(6,8) by (auto simp: x(1) sessions_ok_def rotated_def live_def split: if_splits)
  ultimately have "sessions_ok (sessions s')" using rotate(4) x(2-4) by (simp add: sessions_ok_def x(1) comp_def)
  moreover have "sessions_kept (sessions s) (sessions s')" by (fastforce simp: x(1) sessions_kept_def)
  moreover have "dead f (sessions s')" if "dead f (sessions s)" for f
  proof -
    have "f \<noteq> ss_FamilyID sess" using that y fam by (auto simp: dead_def)
    then show ?thesis using that x(5) by (auto simp: x(1) dead_def image_Un image_comp comp_def)
  qed
  ultimately show ?case by blast
next
  case (revoke s env fam)
  have lives: "filter live (map (revoked env fam) (sessions s)) = map (revoked env fam) (filter (\<lambda>z. live z \<and> ss_FamilyID z \<noteq> fam) (sessions s))"
    by (simp add: filter_map comp_def)
  have "sessions_ok (map (revoked env fam) (sessions s))"
    using revoke distinct_subfilter [of ss_FamilyID live "sessions s" "\<lambda>z. live z \<and> ss_FamilyID z \<noteq> fam"]
    by (simp add: sessions_ok_def lives comp_def) 
  moreover have "sessions_kept (sessions s) (map (revoked env fam) (sessions s))" unfolding sessions_kept_def by (auto intro: revoked_simps(6))
  ultimately show ?case by (auto simp: RevokeFamily_rows dead_def image_comp comp_def)
next
  case (relay env locked produce s log res t log')
  then show ?case by auto
qed

lemma identity_step_roles:
  assumes "identity_step s s'" and "roles_ok s"
  shows "roles_ok s'"
  using assms
proof (induction rule: identity_step.induct)
  case (register env email hash name phone s u s')
  obtain x where x: "users s' = users s @ [x]" "us_ID x \<notin> us_ID ` set (users s)"
    "set (user_roles s') \<subseteq> insert \<lparr>ro_UserID = us_ID x, ro_Role = RoleCustomer\<rparr> (set (user_roles s))"
    using registerTx_effect [OF register(1)] by blast
  show ?case using register(2) x unfolding roles_ok_def by fastforce
next
  case (login arg s env x s')
  then show ?case using q_CreateSession_effect(1) [OF login(2)] by (simp add: roles_ok_def)
next
  case (rotate s sess env sign sg newHash ip userAgent access s')
  have "users s' = users s" "user_roles s' = user_roles s" using rotateTx_effect [OF rotate(3,1)] by blast+
  then show ?case using rotate(4) by (simp add: roles_ok_def)
qed (simp_all add: roles_ok_def RevokeFamily_rows)

lemma identity_steps:
  assumes "identity_step\<^sup>*\<^sup>* s s'" and "identity_inv s"
  shows "identity_inv s'" and "sessions_kept (sessions s) (sessions s')" and "dead fam (sessions s) \<Longrightarrow> dead fam (sessions s')"
proof -
  have "identity_inv s' \<and> sessions_kept (sessions s) (sessions s') \<and> (dead fam (sessions s) \<longrightarrow> dead fam (sessions s'))"
    using assms
  proof (induction rule: rtranclp_induct)
    case (step y z)
    have y: "sessions_ok (sessions y)" "roles_ok y" "sessions_kept (sessions s) (sessions y)" "dead fam (sessions s) \<longrightarrow> dead fam (sessions y)"
      using step by (simp_all add: identity_inv_def)
    note z = identity_step_sessions [OF step(2) y(1)]
    have "sessions_kept (sessions s) (sessions z)"
      using y(3) z unfolding sessions_kept_def by (metis keeps_trans)
    then show ?case using z y(4) identity_step_roles [OF step(2) y(2)] by (simp add: identity_inv_def)
  qed simp
  then show "identity_inv s'" "sessions_kept (sessions s) (sessions s')" "dead fam (sessions s) \<Longrightarrow> dead fam (sessions s')" by blast+
qed

lemma initial_identity_inv: "identity_inv (initial_identity now)"
  by (simp add: identity_inv_def sessions_ok_def roles_ok_def initial_identity_def)

lemma identity_reachable_inv: "identity_reachable s \<Longrightarrow> identity_inv s"
  using identity_steps(1) initial_identity_inv by (auto simp: identity_reachable_def)

section \<open>Looking up a token\<close>

interpretation token_table: keyed_table ss_RefreshHash
    "\<lambda>k. select_one (\<lambda>x. ss_RefreshHash x = k)" "\<lambda>k. update_where (\<lambda>x. ss_RefreshHash x = k)"
  by unfold_locales simp_all

lemma GetSession_unique:
  "identity_inv s \<Longrightarrow> x \<in> set (sessions s) \<Longrightarrow> q_GetSessionByRefreshHash s (ss_RefreshHash x) = Inr x"
  using token_table.lookup_unique [of "sessions s" x] by (simp add: q_GetSessionByRefreshHash_def identity_inv_def sessions_ok_def)

lemma GetSession_Inr: "q_GetSessionByRefreshHash s h = Inr x \<longleftrightarrow> select_one (\<lambda>x. ss_RefreshHash x = h) (sessions s) = Some x"
  by (simp add: q_GetSessionByRefreshHash_def)

lemma known_kept:
  assumes "x \<in> set (sessions s)" and "sessions_kept (sessions s) (sessions s')"
  shows "known_session s' x"
  using assms by (fastforce simp: sessions_kept_def known_session_def list_ex_iff keeps_def)

lemma dead_refused:
  assumes inv: "identity_inv s" and "dead (ss_FamilyID x) (sessions s)" and x: "x \<in> set (sessions s)" "ss_RefreshHash x = hashRefreshToken lib tok"
  shows "isl (fst (Refresh lib sign sg env tok ip userAgent s))"
proof -
  have "\<not> live x" using assms(2) x(1) by (auto simp: dead_def)
  then have "DecideRefresh (toDomainSession x) (se_Now env) \<in> {DecisionReuse, DecisionDenied}"
    by (simp add: DecideRefresh_def toDomainSession_def live_def)
  then show ?thesis using GetSession_unique [OF inv x(1)] x(2) by (auto simp: Refresh_def split: prod.splits sum.splits)
qed

section \<open>Rotation\<close>

text \<open>Others run transactions of the service, and a new session gets an identifier.\<close>

definition session_ok :: "session_env \<Rightarrow> bool" where
  "session_ok env \<longleftrightarrow> (\<forall>s. identity_step\<^sup>*\<^sup>* s (se_Between env s)) \<and> env_gen_uuid (se_Tx env) \<noteq> ''''"

lemma between_facts:
  assumes "session_ok env" and "identity_inv s"
  shows "identity_step\<^sup>*\<^sup>* s (se_Between env s)" "identity_inv (se_Between env s)" "sessions_kept (sessions s) (sessions (se_Between env s))"
  using assms identity_steps [of s "se_Between env s"] by (auto simp: session_ok_def)

lemma Refresh_Inr:
  assumes inv: "identity_inv s" and ok: "session_ok env" and run: "Refresh lib sign sg env tok ip userAgent s = (Inr pair, s1)"
  shows "identity_step\<^sup>*\<^sup>* s s1"
    and "\<exists>y x. y \<in> set (sessions s1) \<and> x \<in> set (sessions s1) \<and> ss_RefreshHash y = hashRefreshToken lib tok \<and> \<not> live y \<and> ss_RotatedTo y = Some (ss_ID x)
      \<and> ss_ID x \<noteq> '''' \<and> ss_RefreshHash x = hashRefreshToken lib (tk_RefreshToken pair) \<and> ss_FamilyID x = ss_FamilyID y \<and> ss_UserID x = ss_UserID y
      \<and> SignAccess sign sg (se_Now env) (ss_UserID y) (ss_FamilyID y) (q_GetRoles s1 (ss_UserID y)) = Inr (tk_AccessToken pair)"
proof -
  let ?s = "se_Between env s"
  note b = between_facts [OF ok inv]
  obtain sess where sess: "q_GetSessionByRefreshHash s (hashRefreshToken lib tok) = Inr sess" "DecideRefresh (toDomainSession sess) (se_Now env) = DecisionRotate"
    using run by (auto simp: Refresh_def split: sum.splits RefreshDecision.splits prod.splits)
  obtain raw newHash where tk: "newRefreshToken lib (se_Draw env) = Inr (raw, newHash)"
    and tx: "WithTx (\<lambda>_. True) (se_Tx env) (rotateTx sign sg env sess newHash ip userAgent) ?s = (Inr (tk_AccessToken pair), s1)"
    and raw: "tk_RefreshToken pair = raw"
    using run sess by (auto simp: Refresh_def split: sum.splits prod.splits)
  have rot: "rotateTx sign sg env sess newHash ip userAgent ?s = Inr (tk_AccessToken pair, s1)" using WithTx_Inr [OF tx] by simp
  have mem: "sess \<in> set (sessions s)" "ss_RefreshHash sess = hashRefreshToken lib tok" using select_one_Some [OF sess(1) [unfolded GetSession_Inr]] by auto
  have known: "known_session ?s sess" by (rule known_kept [OF mem(1) b(3)])
  have uuid: "env_gen_uuid (se_Tx env) \<noteq> ''''" using ok by (simp add: session_ok_def)
  show "identity_step\<^sup>*\<^sup>* s s1" using b(1) identity_step.rotate [OF known uuid rot] by (rule rtranclp.rtrancl_into_rtrancl)
  obtain x y where x: "sessions s1 = map (rotated (se_Tx env) (ss_ID sess) (ss_ID x)) (sessions ?s) @ [x]" "user_roles s1 = user_roles ?s"
    "ss_RefreshHash x = newHash" "ss_FamilyID x = ss_FamilyID sess" "ss_UserID x = ss_UserID sess" "ss_ID x = env_gen_uuid (se_Tx env)"
    and y: "y \<in> set (sessions ?s)" "ss_ID y = ss_ID sess" "live y"
    and sig: "SignAccess sign sg (se_Now env) (ss_UserID sess) (ss_FamilyID sess) (q_GetRoles ?s (ss_UserID sess)) = Inr (tk_AccessToken pair)"
    using rotateTx_effect [OF rot known] by blast
  obtain y' where y': "y' \<in> set (sessions ?s)" "keeps sess y'" using b(3) mem(1) by (auto simp: sessions_kept_def)
  have "distinct (map ss_ID (sessions ?s))" using b(2) by (simp add: identity_inv_def sessions_ok_def)
  then have "y' = y" using y(1,2) y'(1) y'(2) [unfolded keeps_def] by (metis distinct_map inj_onD)
  then have yy: "ss_RefreshHash y = hashRefreshToken lib tok" "ss_FamilyID y = ss_FamilyID sess" "ss_UserID y = ss_UserID sess"
    using y'(2) mem(2) by (simp_all add: keeps_def)
  define z where "z = rotated (se_Tx env) (ss_ID sess) (ss_ID x) y"
  have z: "z \<in> set (sessions s1)" "ss_RefreshHash z = hashRefreshToken lib tok" "\<not> live z" "ss_RotatedTo z = Some (ss_ID x)" "ss_FamilyID z = ss_FamilyID sess"
    "ss_UserID z = ss_UserID sess" using y yy x(1) by (auto simp: z_def rotated_def live_def)
  have "hashRefreshToken lib raw = newHash"
    using tk by (auto simp: newRefreshToken_def hashRefreshToken_def DecodeString_EncodeToString split: option.splits)
  moreover have "q_GetRoles s1 = q_GetRoles ?s" using x(2) by (simp add: q_GetRoles_def [abs_def])
  ultimately show "\<exists>y x. y \<in> set (sessions s1) \<and> x \<in> set (sessions s1) \<and> ss_RefreshHash y = hashRefreshToken lib tok \<and> \<not> live y \<and> ss_RotatedTo y = Some (ss_ID x)
      \<and> ss_ID x \<noteq> '''' \<and> ss_RefreshHash x = hashRefreshToken lib (tk_RefreshToken pair) \<and> ss_FamilyID x = ss_FamilyID y \<and> ss_UserID x = ss_UserID y
      \<and> SignAccess sign sg (se_Now env) (ss_UserID y) (ss_FamilyID y) (q_GetRoles s1 (ss_UserID y)) = Inr (tk_AccessToken pair)"
    using z x uuid sig raw by (intro exI [of _ z] exI [of _ x]) auto
qed

lemma kept_member:
  "sessions_kept xs xs' \<Longrightarrow> x \<in> set xs \<Longrightarrow> \<exists>x' \<in> set xs'. keeps x x'"
  by (simp add: sessions_kept_def)

text \<open>A used token is found rotated for ever, so presenting it revokes its family.\<close>

lemma reuse_revokes:
  assumes inv: "identity_inv s2" and y: "y \<in> set (sessions s2)" "ss_RefreshHash y = hashRefreshToken lib tok" "\<not> live y" "ss_RotatedTo y \<noteq> None"
    and ok: "session_ok env" and run: "Refresh lib sign sg env tok ip userAgent s2 = (res, s3)"
  shows "isl res \<and> identity_step\<^sup>*\<^sup>* s2 s3 \<and> (env_begin (se_Tx env) = None \<longrightarrow> env_commit (se_Tx env) = Committed \<longrightarrow> dead (ss_FamilyID y) (sessions s3))"
proof -
  let ?s = "se_Between env s2" and ?rev = "\<lambda>s. Inr ((), q_RevokeSessionFamily (se_Tx env) (ss_FamilyID y) s) :: pg_error + unit \<times> identity_db"
  note b = between_facts [OF ok inv]
  have "ss_RotatedTo y \<noteq> Some ''''" using inv y by (auto simp: identity_inv_def sessions_ok_def)
  then have dec: "DecideRefresh (toDomainSession y) (se_Now env) = DecisionReuse"
    using y(3,4) by (auto simp: DecideRefresh_def toDomainSession_def live_def text_or_empty_def split: option.splits)
  have found: "q_GetSessionByRefreshHash s2 (hashRefreshToken lib tok) = Inr y" using GetSession_unique [OF inv y(1)] y(2) by simp
  obtain r where st: "statement (se_Tx env) ?rev ?s = (r :: identity_err + unit, s3)" and res: "isl res"
    using run found dec by (auto simp: Refresh_def split: prod.splits sum.splits)
  have steps: "identity_step\<^sup>*\<^sup>* s2 s3"
    using statement_state [OF st] b(1) identity_step.revoke [of ?s "se_Tx env" "ss_FamilyID y"] by (auto intro: rtranclp.rtrancl_into_rtrancl)
  have "dead (ss_FamilyID y) (sessions s3)" if "env_begin (se_Tx env) = None" "env_commit (se_Tx env) = Committed"
  proof -
    have s3: "s3 = q_RevokeSessionFamily (se_Tx env) (ss_FamilyID y) ?s" using st that by (simp add: statement_def)
    obtain y' where "y' \<in> set (sessions ?s)" "ss_FamilyID y' = ss_FamilyID y" using kept_member [OF b(3) y(1)] by (auto simp: keeps_def)
    then show ?thesis by (auto simp: s3 RevokeFamily_rows dead_def image_comp comp_def) (metis imageI)
  qed
  then show ?thesis using steps res by blast
qed


text \<open>
  The loser of a race does not end the session: when two clients present the same live token at the same time,
  the second transaction finds it rotated, revokes the family and then returns an error, which rolls the
  revocation back. The database is left as the winner left it, so the theft signal is lost.
\<close>

theorem refresh_race_not_revoked:
  assumes "q_GetSessionByRefreshHash s (hashRefreshToken lib tok) = Inr sess" and "DecideRefresh (toDomainSession sess) (se_Now env) = DecisionRotate"
    and "se_Draw env \<noteq> None" and "\<not> list_ex (\<lambda>y. ss_ID y = ss_ID sess \<and> live y) (sessions (se_Between env s))"
    and "env_gen_uuid (se_Tx env) \<noteq> ss_ID sess"
  shows "snd (Refresh lib sign sg env tok ip userAgent s) = se_Between env s \<and> isl (fst (Refresh lib sign sg env tok ip userAgent s))"
proof -
  let ?s = "se_Between env s"
  obtain buf where buf: "se_Draw env = Some buf" using assms(3) by blast
  have none: "filter (\<lambda>y. ss_ID y = ss_ID sess \<and> ss_RevokedAt y = None) (sessions ?s) = []"
    using assms(4) by (auto simp: filter_empty_conv list_ex_iff live_def)
  have "isl (rotateTx sign sg env sess h ip userAgent ?s)" for h
  proof (cases "isl (rotateTx sign sg env sess h ip userAgent ?s)")
    case False
    then obtain access s' where r: "rotateTx sign sg env sess h ip userAgent ?s = Inr (access, s')" by (cases "rotateTx sign sg env sess h ip userAgent ?s") auto
    obtain x s1 where c: "q_CreateSession (se_Tx env) \<lparr>cs_UserID = ss_UserID sess, cs_FamilyID = ss_FamilyID sess, cs_RefreshHash = h,
        cs_RotatedFrom = Some (ss_ID sess), cs_ExpiresAt = se_Now env + sint (sg_RefreshTTL sg), cs_Ip = ip, cs_UserAgent = userAgent\<rparr> ?s = Inr (x, s1)"
      using r by (auto simp: rotateTx_def)
    have "sessions s1 = sessions ?s @ [x]" "ss_ID x \<noteq> ss_ID sess" using q_CreateSession_effect(1,7) [OF c] assms(5) by simp_all
    then have "fst (q_MarkSessionRotated (se_Tx env) (ss_ID sess) (Some (ss_ID x)) s1) = 0" using none by (simp add: q_MarkSessionRotated_def Let_def)
    then have False using r c by (auto simp: rotateTx_def Let_def split: prod.splits if_splits)
    then show ?thesis ..
  qed simp
  then show ?thesis using assms(1,2) buf
    by (auto simp: Refresh_def newRefreshToken_def WithTx_def isl_def split: option.splits prod.splits sum.splits) (metis Inl_Inr_False)+
qed

text \<open>The other operations of the service run these transactions too.\<close>

lemma Register_steps: "Register lib salt env email password name phone s = (res, s') \<Longrightarrow> identity_step\<^sup>*\<^sup>* s s'"
  by (auto simp: Register_def Let_def split: sum.splits dest!: WithTx_state intro: identity_step.register)

lemma Login_steps:
  assumes "session_ok env" and "se_Family env \<notin> ss_FamilyID ` set (sessions (se_Between env s))"
    and "Login lib sign sg env email password ip userAgent s = (res, s')"
  shows "identity_step\<^sup>*\<^sup>* s s'"
proof -
  have b: "identity_step\<^sup>*\<^sup>* s (se_Between env s)" using assms(1) by (simp add: session_ok_def)
  show ?thesis
  proof (cases "\<exists>u raw h. q_GetUserByEmail s (ToLower lib (TrimText lib email)) = Inr u \<and> newRefreshToken lib (se_Draw env) = Inr (raw, h)
      \<and> verifyPassword lib password (us_PasswordHash u) = Inr True")
    case False
    then have "s' = s" using assms(3) by (auto simp: Login_def Let_def split: sum.splits if_splits)
    then show ?thesis by simp
  next
    case True
    then obtain u raw h where u: "q_GetUserByEmail s (ToLower lib (TrimText lib email)) = Inr u" "newRefreshToken lib (se_Draw env) = Inr (raw, h)"
      "verifyPassword lib password (us_PasswordHash u) = Inr True" by blast
    define arg where "arg = \<lparr>cs_UserID = us_ID u, cs_FamilyID = se_Family env, cs_RefreshHash = h, cs_RotatedFrom = None,
      cs_ExpiresAt = se_Now env + sint (sg_RefreshTTL sg), cs_Ip = ip, cs_UserAgent = userAgent\<rparr>"
    obtain r s1 where st: "statement (se_Tx env) (q_CreateSession (se_Tx env) arg) (se_Between env s) = (r :: identity_err + SessionRow, s1)" by fastforce
    then have "s' = s1" using assms(3) u by (auto simp: Login_def Let_def arg_def [symmetric] split: sum.splits)
    moreover have "identity_step\<^sup>*\<^sup>* s s1"
      using statement_state [OF st] b identity_step.login [of arg "se_Between env s" "se_Tx env"] assms(2)
      by (auto simp: arg_def intro: rtranclp.rtrancl_into_rtrancl)
    ultimately show ?thesis by simp
  qed
qed

lemma revoke_steps:
  assumes "session_ok env" and "statement (se_Tx env) (\<lambda>s. Inr ((), q_RevokeSessionFamily (se_Tx env) f s)) (se_Between env s) = (res, s')"
  shows "identity_step\<^sup>*\<^sup>* s s'"
  using statement_state [OF assms(2)] assms(1) identity_step.revoke [of "se_Between env s" "se_Tx env" f]
  by (auto simp: session_ok_def intro: rtranclp.rtrancl_into_rtrancl)

lemma Logout_steps: "session_ok env \<Longrightarrow> Logout lib env tok s = (res, s') \<Longrightarrow> identity_step\<^sup>*\<^sup>* s s'"
  by (auto simp: Logout_def split: sum.splits if_splits intro: revoke_steps)

lemma RevokeSession_steps: "session_ok env \<Longrightarrow> RevokeSession env caller ident s = (res, s') \<Longrightarrow> identity_step\<^sup>*\<^sup>* s s'"
  by (auto simp: RevokeSession_def split: sum.splits if_splits intro: revoke_steps)

section \<open>Roles\<close>

lemma GetRoles_customer:
  assumes "roles_ok s" and "u \<noteq> seeded_admin"
  shows "set (q_GetRoles s u) \<subseteq> {RoleCustomer}"
  using assms by (auto simp: q_GetRoles_def roles_ok_def)

text \<open>An access token of this user, with the claims the service signed: no role but \<open>customer\<close>, the seeded user apart.\<close>

definition token_for :: "sign_lib \<Rightarrow> signer \<Rightarrow> time \<Rightarrow> string \<Rightarrow> string \<Rightarrow> bool" where
  "token_for sign sg now u access \<longleftrightarrow> (\<exists>sid roles. sign (sg_Kid sg) \<lparr>jc_Iss = sg_Issuer sg, jc_Sub = u, jc_Sid = sid, jc_Roles = roles,
       jc_Iat = unix now, jc_Exp = unix (now + sint (sg_AccessTTL sg))\<rparr> = Inr access \<and> (u \<noteq> seeded_admin \<longrightarrow> set roles \<subseteq> {RoleCustomer}))"

lemma SignAccess_for:
  "SignAccess sign sg now u f (q_GetRoles s u) = Inr access \<Longrightarrow> roles_ok s \<Longrightarrow> token_for sign sg now u access"
  using GetRoles_customer [of s u] unfolding token_for_def SignAccess_def by blast

lemma Login_Inr:
  assumes "Login lib sign sg env email password ip userAgent s = (Inr pair, s')"
  shows "\<exists>u \<in> set (users s). us_Email u = ToLower lib (TrimText lib email) \<and> verifyPassword lib password (us_PasswordHash u) = Inr True
    \<and> SignAccess sign sg (se_Now env) (us_ID u) (se_Family env) (q_GetRoles s (us_ID u)) = Inr (tk_AccessToken pair)"
  using assms
  by (auto simp: Login_def q_GetUserByEmail_def Let_def split: sum.splits if_splits prod.splits dest!: select_one_Some)

text \<open>
  C20. Nobody becomes staff through the API: in every reachable database a login only succeeds for a user with that
  address whose stored hash verifies the password, a refresh only for the user of the presented session, and the
  access token both sign is for that user, with no role but \<open>customer\<close> unless it is the user seeded by the migration.
\<close>

theorem access_tokens_sound:
  assumes "identity_reachable s" and "session_ok env"
  shows "(case fst (Login lib sign sg env email password ip userAgent s) of Inl _ \<Rightarrow> True
       | Inr pair \<Rightarrow> list_ex (\<lambda>u. us_Email u = ToLower lib (TrimText lib email) \<and> verifyPassword lib password (us_PasswordHash u) = Inr True
            \<and> token_for sign sg (se_Now env) (us_ID u) (tk_AccessToken pair)) (users s))
     \<and> (case Refresh lib sign sg env tok ip userAgent s of (Inl _, _) \<Rightarrow> True
       | (Inr pair, s') \<Rightarrow> list_ex (\<lambda>y. ss_RefreshHash y = hashRefreshToken lib tok \<and> token_for sign sg (se_Now env) (ss_UserID y) (tk_AccessToken pair)) (sessions s'))"
proof (rule conjI)
  have inv: "identity_inv s" using identity_reachable_inv [OF assms(1)] .
  then have roles: "roles_ok s" by (simp add: identity_inv_def)
  obtain res s' where l: "Login lib sign sg env email password ip userAgent s = (res, s')" by fastforce
  show "case fst (Login lib sign sg env email password ip userAgent s) of Inl _ \<Rightarrow> True
       | Inr pair \<Rightarrow> list_ex (\<lambda>u. us_Email u = ToLower lib (TrimText lib email) \<and> verifyPassword lib password (us_PasswordHash u) = Inr True
            \<and> token_for sign sg (se_Now env) (us_ID u) (tk_AccessToken pair)) (users s)"
    using Login_Inr [of lib sign sg env email password ip userAgent s _ s'] l SignAccess_for [OF _ roles]
    by (cases res) (fastforce simp: list_ex_iff)+
  obtain res2 s2 where r: "Refresh lib sign sg env tok ip userAgent s = (res2, s2)" by fastforce
  show "case Refresh lib sign sg env tok ip userAgent s of (Inl _, _) \<Rightarrow> True
       | (Inr pair, s') \<Rightarrow> list_ex (\<lambda>y. ss_RefreshHash y = hashRefreshToken lib tok \<and> token_for sign sg (se_Now env) (ss_UserID y) (tk_AccessToken pair)) (sessions s')"
  proof (cases res2)
    case (Inr pair)
    note ref = Refresh_Inr [OF inv assms(2) r [unfolded Inr]]
    have "roles_ok s2" using identity_steps(1) [OF ref(1) inv] by (simp add: identity_inv_def)
    then show ?thesis using ref(2) SignAccess_for r Inr by (auto simp: list_ex_iff)
  qed (simp add: r)
qed

end
