(* ===== verification/Identity_Examples.thy ===== *)
theory Identity_Examples
  imports Identity_Safety
begin

text \<open>A worked run of the identity service: registration, login, refresh, and the reuse of a token.\<close>

definition toy_lib :: identity_lib where
  "toy_lib = \<lparr>lib_ParseAddress = (\<lambda>a. CHR ''@'' \<in> set a), lib_UnicodeLower = (\<lambda>s. s), lib_UnicodeTrim = (\<lambda>s. s), lib_Sha256 = (\<lambda>s. ''#'' @ s),
     lib_argon2 = (\<lambda>pw sa t m p n. take n (pw @ sa @ replicate n CHR ''x''))\<rparr>"

definition toy_sign :: sign_lib where
  "toy_sign kid c = Inr (kid @ ''.'' @ jc_Sub c)"

definition toy_signer :: signer where
  "toy_signer = \<lparr>sg_Issuer = ''bank-core'', sg_Kid = ''k1'', sg_AccessTTL = 900000000000, sg_RefreshTTL = 2592000000000000\<rparr>"

definition session_tx :: "string \<Rightarrow> tx_env" where
  "session_tx u = \<lparr>env_now = 1000, env_uuid = (\<lambda>_. Some u), env_gen_uuid = u, env_request_id = ''req'', env_begin = None, env_commit = Committed\<rparr>"

definition at_session :: "string \<Rightarrow> session_env" where
  "at_session u = \<lparr>se_Now = 2000, se_Family = ''fam'', se_Draw = Some '''', se_Between = (\<lambda>s. s), se_Tx = session_tx u\<rparr>"

lemma at_session_ok: "u \<noteq> '''' \<Longrightarrow> session_ok (at_session u)"
  by (simp add: session_ok_def at_session_def session_tx_def)

definition registered :: identity_db where
  "registered = (case registerTx (session_tx ''user-1'') ''ann@bank.kz'' ''hash'' ''Ann'' '''' (initial_identity 0) of Inr (_, s) \<Rightarrow> s | Inl _ \<Rightarrow> initial_identity 0)"

definition first_session :: CreateSessionParams where
  "first_session = \<lparr>cs_UserID = ''user-1'', cs_FamilyID = ''fam'', cs_RefreshHash = ''#!s1'', cs_RotatedFrom = None, cs_ExpiresAt = 9000000, cs_Ip = '''', cs_UserAgent = ''''\<rparr>"

definition logged_in :: identity_db where
  "logged_in = (case q_CreateSession (session_tx ''s1'') first_session registered of Inr (_, s) \<Rightarrow> s | Inl _ \<Rightarrow> registered)"

text \<open>A token that is no base64 text is hashed as it is; the token drawn later consists of no bytes.\<close>

definition first_token :: string where "first_token = ''!s1''"

definition refreshed :: "(identity_err + TokenPair) \<times> identity_db" where
  "refreshed = Refresh toy_lib toy_sign toy_signer (at_session ''s2'') first_token '''' '''' logged_in"

theorem password_roundtrip_witness:
  "verifyPassword toy_lib ''password'' (phc_text ''salt'' (lib_argon2 toy_lib ''password'' ''salt'' 2 19456 1 32)) = Inr True"
proof -
  have len: "length (lib_argon2 toy_lib pw sa t m p n) = n" for pw sa t m p n by (simp add: toy_lib_def)
  have "hashPassword toy_lib (Some ''salt'') ''password'' = Inr (phc_text ''salt'' (lib_argon2 toy_lib ''password'' ''salt'' 2 19456 1 32))"
    by (simp add: hashPassword_def argonTime_def argonMemory_def argonThreads_def argonKeyLen_def)
  from password_roundtrip [OF len this] show ?thesis by blast
qed

lemma run_facts:
  "case refreshed of (Inr pair, s) \<Rightarrow> tk_AccessToken pair = ''k1.user-1'' \<and> tk_RefreshToken pair = ''''
      \<and> map (\<lambda>x. (ss_ID x, live x)) (sessions s) = [(''s1'', False), (''s2'', True)] | _ \<Rightarrow> False"
  by code_simp

lemma logged_in_reachable: "identity_reachable logged_in"
proof -
  have "identity_step\<^sup>*\<^sup>* (initial_identity 0) registered"
    by (auto simp: registered_def split: sum.splits intro: identity_step.register)
  moreover have "sessions registered = []" by code_simp
  then have "identity_step\<^sup>*\<^sup>* registered logged_in"
    using identity_step.login [of first_session registered "session_tx ''s1''"] by (auto simp: logged_in_def split: sum.splits)
  ultimately show ?thesis unfolding identity_reachable_def by (meson rtranclp_trans)
qed

lemma refreshed_pair: "\<exists>pair s. refreshed = (Inr pair, s) \<and> tk_AccessToken pair = ''k1.user-1'' \<and> tk_RefreshToken pair = ''''"
  using run_facts by (auto split: prod.splits sum.splits)

text \<open>The stolen token is presented again, and then the one it was exchanged for.\<close>

definition stolen :: "(identity_err + TokenPair) \<times> identity_db" where
  "stolen = Refresh toy_lib toy_sign toy_signer (at_session ''s3'') first_token '''' '''' (snd refreshed)"


theorem access_tokens_sound_witness:
  "\<exists>pair s. refreshed = (Inr pair, s) \<and> list_ex (\<lambda>y. ss_RefreshHash y = ''#!s1'' \<and> token_for toy_sign toy_signer 2000 (ss_UserID y) (tk_AccessToken pair)) (sessions s)"
proof -
  obtain pair s1 where p: "refreshed = (Inr pair, s1)" using refreshed_pair by blast
  have "hashRefreshToken toy_lib first_token = ''#!s1''" by code_simp
  moreover have "se_Now (at_session ''s2'') = 2000" by (simp add: at_session_def)
  ultimately show ?thesis
    using access_tokens_sound [OF logged_in_reachable, of "at_session ''s2''", where lib = toy_lib and sign = toy_sign and sg = toy_signer
      and tok = first_token and ip = "''''" and userAgent = "''''"] at_session_ok [of "''s2''"] p
    by (simp add: refreshed_def)
qed

text \<open>Two clients present the first token at once: the winner is what happens in between.\<close>

definition racing :: session_env where
  "racing = (at_session ''s5'')\<lparr>se_Between := (\<lambda>s. snd (Refresh toy_lib toy_sign toy_signer (at_session ''s2'') first_token '''' '''' s))\<rparr>"

lemma race_facts:
  "case q_GetSessionByRefreshHash logged_in (hashRefreshToken toy_lib first_token) of Inl _ \<Rightarrow> False
   | Inr sess \<Rightarrow> DecideRefresh (toDomainSession sess) (se_Now racing) = DecisionRotate \<and> se_Draw racing \<noteq> None \<and> ss_ID sess = ''s1''
       \<and> \<not> list_ex (\<lambda>y. ss_ID y = ''s1'' \<and> live y) (sessions (se_Between racing logged_in)) \<and> env_gen_uuid (se_Tx racing) \<noteq> ''s1''"
  by code_simp

lemma winner_live: "map (\<lambda>x. (ss_ID x, live x)) (sessions (se_Between racing logged_in)) = [(''s1'', False), (''s2'', True)]"
  by code_simp

theorem refresh_race_not_revoked_witness:
  "isl (fst (Refresh toy_lib toy_sign toy_signer racing first_token '''' '''' logged_in))
   \<and> map (\<lambda>x. (ss_ID x, live x)) (sessions (snd (Refresh toy_lib toy_sign toy_signer racing first_token '''' '''' logged_in))) = [(''s1'', False), (''s2'', True)]"
proof -
  obtain sess where s: "q_GetSessionByRefreshHash logged_in (hashRefreshToken toy_lib first_token) = Inr sess"
    "DecideRefresh (toDomainSession sess) (se_Now racing) = DecisionRotate" "se_Draw racing \<noteq> None" "ss_ID sess = ''s1''"
    "\<not> list_ex (\<lambda>y. ss_ID y = ss_ID sess \<and> live y) (sessions (se_Between racing logged_in))" "env_gen_uuid (se_Tx racing) \<noteq> ss_ID sess"
    using race_facts by (auto split: sum.splits)
  show ?thesis using refresh_race_not_revoked [OF s(1-3,5,6), of toy_sign toy_signer "''''" "''''"] winner_live by simp
qed

end
