(* ===== verification/Go_Json.thy ===== *)
theory Go_Json
  imports Go_Text
begin

text \<open>
  \<open>encoding/json\<close> as far as the services use it: decoding a JSON value into a struct of strings, integers and maps.
  Texts are bytes; a field name matches its key in any (ASCII) case, and where a key occurs more than once the
  last value wins.
\<close>

text \<open>
  A JSON value. A number with a fraction or an exponent is kept as text, because it is not decoded into an integer.
\<close>

datatype json = JNull | JBool bool | JInt int | JDecimal string | JText string | JArray "json list" | JObject "(string \<times> json) list"

definition fold_key :: "string \<Rightarrow> string" where
  "fold_key k = map lower_byte k"

text \<open>
  A value for a field that holds \<open>old\<close>: \<open>null\<close> leaves a number or a string as it is and empties a map, a map that is
  already there is added to. \<open>None\<close> is a value of the wrong type, the error of \<open>Unmarshal\<close>.
\<close>

definition json_int64 :: "int64 \<Rightarrow> json \<Rightarrow> int64 option" where
  "json_int64 old j = (case j of JNull \<Rightarrow> Some old
     | JInt n \<Rightarrow> if int64_min \<le> n \<and> n \<le> int64_max then Some (word_of_int n) else None | _ \<Rightarrow> None)"

definition json_text :: "string \<Rightarrow> json \<Rightarrow> string option" where
  "json_text old j = (case j of JNull \<Rightarrow> Some old | JText t \<Rightarrow> Some t | _ \<Rightarrow> None)"

fun json_entries :: "(string \<rightharpoonup> int64) \<Rightarrow> (string \<times> json) list \<Rightarrow> (string \<rightharpoonup> int64) option" where
  "json_entries m [] = Some m"
| "json_entries m ((k, j) # rest) = Option.bind (json_int64 0 j) (\<lambda>v. json_entries (m(k \<mapsto> v)) rest)"

definition json_map :: "(string \<rightharpoonup> int64) option \<Rightarrow> json \<Rightarrow> (string \<rightharpoonup> int64) option option" where
  "json_map old j = (case j of JNull \<Rightarrow> Some None
     | JObject kvs \<Rightarrow> map_option Some (json_entries (case old of None \<Rightarrow> Map.empty | Some m \<Rightarrow> m) kvs) | _ \<Rightarrow> None)"

text \<open>A struct, given by what each key sets; unknown keys are skipped.\<close>

fun json_fields :: "(string \<Rightarrow> json \<Rightarrow> 'r \<Rightarrow> 'r option) \<Rightarrow> (string \<times> json) list \<Rightarrow> 'r \<Rightarrow> 'r option" where
  "json_fields put [] r = Some r"
| "json_fields put ((k, j) # rest) r = Option.bind (put (fold_key k) j r) (json_fields put rest)"

definition json_struct :: "(string \<Rightarrow> json \<Rightarrow> 'r \<Rightarrow> 'r option) \<Rightarrow> 'r \<Rightarrow> json \<Rightarrow> 'r option" where
  "json_struct put zero j = (case j of JNull \<Rightarrow> Some zero | JObject kvs \<Rightarrow> json_fields put kvs zero | _ \<Rightarrow> None)"

end
