(* ===== verification/Antifraud.thy ===== *)
theory Antifraud
  imports Consumer Go_Json
begin

text \<open>
  The antifraud service: the rules (\<open>src/services/antifraud/internal/domain/rules.go\<close>), its tables and statements
  (\<open>adapters/postgres/db\<close>) and the scorer (\<open>app/scorer.go\<close>), which is the handler of a consumer: it keeps the
  statistics of a customer and raises alerts through the outbox, in the consumer's transaction.
\<close>

section \<open>rules.go\<close>

definition SeverityMedium :: string where "SeverityMedium = ''MEDIUM''"
definition SeverityHigh :: string where "SeverityHigh = ''HIGH''"
definition KindAmountOver :: string where "KindAmountOver = ''amount_over''"
definition KindVelocity :: string where "KindVelocity = ''velocity''"
definition KindDailyOutSum :: string where "KindDailyOutSum = ''daily_out_sum''"
definition KindNewBeneficiary :: string where "KindNewBeneficiary = ''new_beneficiary''"

lemmas rule_texts = SeverityMedium_def SeverityHigh_def KindAmountOver_def KindVelocity_def KindDailyOutSum_def KindNewBeneficiary_def

text \<open>A Go map is a map here; looking a key up in the nil map finds nothing, as in the empty one.\<close>

record Rule =
  ru_ID :: string
  ru_Kind :: string
  ru_Severity :: string
  ru_Thresholds :: "string \<rightharpoonup> int64"
  ru_MaxIn5m :: int64

record Observation =
  ob_CustomerID :: string
  ob_TransferID :: string
  ob_AccountID :: string
  ob_Amount :: int64
  ob_Currency :: string
  ob_At :: time
  ob_Count5m :: int64
  ob_DayOutSum :: int64
  ob_NewBeneficiary :: bool

record Alert =
  al_RuleID :: string
  al_Severity :: string
  al_Detail :: string

definition over :: "Rule \<Rightarrow> string \<Rightarrow> int64 \<Rightarrow> bool" where
  "over r currency x = (case ru_Thresholds r currency of None \<Rightarrow> False | Some limit \<Rightarrow> limit <s x)"

fun Evaluate :: "Rule list \<Rightarrow> Observation \<Rightarrow> Alert list" where
  "Evaluate [] obs = []"
| "Evaluate (r # rest) obs =
    (let alert = (\<lambda>detail. [\<lparr>al_RuleID = ru_ID r, al_Severity = ru_Severity r, al_Detail = detail\<rparr>]) in
     (if ru_Kind r = KindAmountOver then
        (if over r (ob_Currency obs) (ob_Amount obs) then alert ''amount over threshold'' else [])
      else if ru_Kind r = KindVelocity then
        (if 0 <s ru_MaxIn5m r \<and> ru_MaxIn5m r <s ob_Count5m obs then alert ''transfer velocity exceeded'' else [])
      else if ru_Kind r = KindDailyOutSum then
        (if over r (ob_Currency obs) (ob_DayOutSum obs) then alert ''daily outgoing sum exceeded'' else [])
      else if ru_Kind r = KindNewBeneficiary then
        (if ob_NewBeneficiary obs \<and> over r (ob_Currency obs) (ob_Amount obs) then alert ''large transfer to new beneficiary'' else [])
      else []) @ Evaluate rest obs)"

definition window5m :: int where "window5m = 5 * 60 * 1000000000"

definition AdvanceWindow :: "time \<Rightarrow> int64 \<Rightarrow> time \<Rightarrow> time \<times> int64" where
  "AdvanceWindow winStart cnt at =
    (if window5m \<le> time_Sub at winStart \<or> winStart = zeroTime then (at, 1) else (winStart, cnt + 1))"

definition dayUTC :: "time \<Rightarrow> time" where
  "dayUTC t = t - t mod (24 * 60 * 60 * 1000000000)"

definition AdvanceDay :: "time \<Rightarrow> int64 \<Rightarrow> time \<Rightarrow> int64 \<Rightarrow> time \<times> int64" where
  "AdvanceDay day daySum at amount = (if dayUTC at \<noteq> dayUTC day then (dayUTC at, amount) else (dayUTC at, daySum + amount))"

section \<open>models.go and queries.sql.go\<close>

record AlertRow =
  alr_ID :: string
  alr_CustomerID :: string
  alr_TransferID :: string
  alr_RuleID :: string
  alr_Severity :: string
  alr_Details :: string
  alr_CreatedAt :: time

record Beneficiary =
  be_CustomerID :: string
  be_CounterpartyAccount :: string
  be_FirstSeen :: time

record CustomerStat =
  st_CustomerID :: string
  st_Currency :: string
  st_Day :: time
  st_DayOutSum :: int64
  st_Win5mStart :: time
  st_Win5mCount :: int32
  st_UpdatedAt :: time

record RuleRow =
  rr_ID :: string
  rr_Kind :: string
  rr_Params :: json
  rr_Severity :: string
  rr_Enabled :: bool

record antifraud_db =
  customer_stats :: "CustomerStat list"
  alerts :: "AlertRow list"
  beneficiaries :: "Beneficiary list"
  rules :: "RuleRow list"
  f_outbox :: "OutboxRow list"

definition q_CountAlerts :: "antifraud_db \<Rightarrow> string \<Rightarrow> nat" where
  "q_CountAlerts s customerID = length (filter (\<lambda>x. alr_CustomerID x = customerID) (alerts s))"

definition q_GetStats :: "antifraud_db \<Rightarrow> string \<Rightarrow> string \<Rightarrow> pg_error + CustomerStat" where
  "q_GetStats s customerID currency = one_row (select_one (\<lambda>x. st_CustomerID x = customerID \<and> st_Currency x = currency) (customer_stats s))"

definition q_InsertAlert :: "tx_env \<Rightarrow> AlertRow \<Rightarrow> antifraud_db \<Rightarrow> pg_error + antifraud_db" where
  "q_InsertAlert env arg s =
    (if alr_Severity arg \<notin> {''MEDIUM'', ''HIGH''} then Inl CheckViolation
     else if alr_ID arg \<in> alr_ID ` set (alerts s) then Inl UniqueViolation
     else Inr (s\<lparr>alerts := alerts s @ [arg\<lparr>alr_CreatedAt := env_now env\<rparr>]\<rparr>))"

definition q_ListEnabledRules :: "antifraud_db \<Rightarrow> RuleRow list" where
  "q_ListEnabledRules s = sort_key rr_ID (filter rr_Enabled (rules s))"

text \<open>\<open>ON CONFLICT DO NOTHING\<close>; the number of rows inserted.\<close>

definition q_TryInsertBeneficiary :: "tx_env \<Rightarrow> string \<Rightarrow> string \<Rightarrow> antifraud_db \<Rightarrow> nat \<times> antifraud_db" where
  "q_TryInsertBeneficiary env customerID account s =
    (if list_ex (\<lambda>b. be_CustomerID b = customerID \<and> be_CounterpartyAccount b = account) (beneficiaries s) then (0, s)
     else (1, s\<lparr>beneficiaries := beneficiaries s @ [\<lparr>be_CustomerID = customerID, be_CounterpartyAccount = account, be_FirstSeen = env_now env\<rparr>]\<rparr>))"

definition q_UpsertStats :: "tx_env \<Rightarrow> CustomerStat \<Rightarrow> antifraud_db \<Rightarrow> antifraud_db" where
  "q_UpsertStats env arg s =
    (let row = arg\<lparr>st_Win5mStart := pg_timestamptz (st_Win5mStart arg), st_UpdatedAt := env_now env\<rparr>;
         hit = (\<lambda>x. st_CustomerID x = st_CustomerID arg \<and> st_Currency x = st_Currency arg)
     in if list_ex hit (customer_stats s) then s\<lparr>customer_stats := update_where hit (\<lambda>_. row) (customer_stats s)\<rparr>
        else s\<lparr>customer_stats := customer_stats s @ [row]\<rparr>)"

section \<open>scorer.go\<close>

definition antifraud_Group :: string where "antifraud_Group = ''antifraud''"
definition TopicFraudAlerts :: string where "TopicFraudAlerts = ''fraud.alerts''"

type_synonym antifraud_err = "unit goerr"

subsection \<open>loadRules\<close>

text \<open>\<open>json.Unmarshal\<close> into the parameter struct.\<close>

record RuleParams =
  rp_Thresholds :: "(string \<rightharpoonup> int64) option"
  rp_Limits :: "(string \<rightharpoonup> int64) option"
  rp_MaxIn5m :: int64

definition param_field :: "string \<Rightarrow> json \<Rightarrow> RuleParams \<Rightarrow> RuleParams option" where
  "param_field k j p =
    (if k = ''thresholds'' then map_option (\<lambda>m. p\<lparr>rp_Thresholds := m\<rparr>) (json_map (rp_Thresholds p) j)
     else if k = ''limits'' then map_option (\<lambda>m. p\<lparr>rp_Limits := m\<rparr>) (json_map (rp_Limits p) j)
     else if k = ''max_in_5m'' then map_option (\<lambda>n. p\<lparr>rp_MaxIn5m := n\<rparr>) (json_int64 (rp_MaxIn5m p) j)
     else Some p)"

definition unmarshalParams :: "json \<Rightarrow> RuleParams option" where
  "unmarshalParams = json_struct param_field \<lparr>rp_Thresholds = None, rp_Limits = None, rp_MaxIn5m = 0\<rparr>"

definition loadRule :: "RuleRow \<Rightarrow> antifraud_err + Rule" where
  "loadRule r = (case unmarshalParams (rr_Params r) of
      None \<Rightarrow> Inl (Wrapped (''rule '' @ rr_ID r @ '' params'') (Opaque ''json''))
    | Some p \<Rightarrow> Inr \<lparr>ru_ID = rr_ID r, ru_Kind = rr_Kind r, ru_Severity = rr_Severity r,
        ru_Thresholds = (case rp_Thresholds p of Some m \<Rightarrow> m | None \<Rightarrow> (case rp_Limits p of Some m \<Rightarrow> m | None \<Rightarrow> Map.empty)),
        ru_MaxIn5m = rp_MaxIn5m p\<rparr>)"

definition loadRules :: "antifraud_db \<Rightarrow> antifraud_err + Rule list" where
  "loadRules s = map_err loadRule (q_ListEnabledRules s)"

subsection \<open>raise\<close>

text \<open>\<open>json.Marshal\<close> of a map: the keys are sorted.\<close>

definition alert_details :: "Observation \<Rightarrow> Alert \<Rightarrow> string" where
  "alert_details obs alert = ''{'' @ json_string ''amount'' @ '':'' @ FormatInt (sint (ob_Amount obs)) @ '','' @ json_string ''count_5m'' @ '':'' @ FormatInt (sint (ob_Count5m obs))
     @ '','' @ json_string ''currency'' @ '':'' @ json_string (ob_Currency obs) @ '','' @ json_string ''day_out_sum'' @ '':'' @ FormatInt (sint (ob_DayOutSum obs))
     @ '','' @ json_string ''detail'' @ '':'' @ json_string (al_Detail alert) @ ''}''"

definition alert_event :: "Observation \<Rightarrow> Alert \<Rightarrow> FraudAlertMsg" where
  "alert_event obs alert = \<lparr>fa_CustomerId = ob_CustomerID obs, fa_TransferId = ob_TransferID obs, fa_Rule = al_RuleID alert, fa_Severity = al_Severity alert,
     fa_Details = alert_details obs alert, fa_AccountId = ob_AccountID obs\<rparr>"

text \<open>\<open>i\<close> counts the identifiers drawn in this transaction; each alert draws two.\<close>

definition raise :: "tx_env \<Rightarrow> Observation \<Rightarrow> nat \<times> Alert \<Rightarrow> antifraud_db \<Rightarrow> antifraud_err + antifraud_db" where
  "raise env obs ia s = (case ia of (i, alert) \<Rightarrow>
    sum_bind (uuid_NewV7 env (2 * i)) (\<lambda>ident.
    sum_bind (map_left rawErr (q_InsertAlert env \<lparr>alr_ID = ident, alr_CustomerID = ob_CustomerID obs, alr_TransferID = ob_TransferID obs,
        alr_RuleID = al_RuleID alert, alr_Severity = al_Severity alert, alr_Details = alert_details obs alert, alr_CreatedAt = zeroTime\<rparr> s)) (\<lambda>s1.
    sum_bind (NewProtoMessage env (2 * i + 1) TopicFraudAlerts (ob_CustomerID obs) (env_request_id env) (FraudAlertRaised (alert_event obs alert))) (\<lambda>msg.
    sum_bind (outbox_Insert env msg (f_outbox s1)) (\<lambda>ob. Inr (s1\<lparr>f_outbox := ob\<rparr>))))))"

subsection \<open>Handle\<close>

definition observed_at :: "tx_env \<Rightarrow> EventMessage \<Rightarrow> time" where
  "observed_at env msg = (if em_OccurredAt msg = zeroTime then env_now env else em_OccurredAt msg)"

text \<open>The statistics after the transfer: window start and count, day and sum.\<close>

definition advanceStats :: "antifraud_db \<Rightarrow> TransferView \<Rightarrow> time \<Rightarrow> (time \<times> int64) \<times> (time \<times> int64)" where
  "advanceStats s view at =
    (let amount = MinorUnits (tv_Amount view)
     in case q_GetStats s (tv_CustomerId view) (MoneyCurrency (tv_Amount view)) of
          Inl _ \<Rightarrow> (AdvanceWindow zeroTime 0 at, AdvanceDay zeroTime 0 at amount)
        | Inr st \<Rightarrow> (AdvanceWindow (st_Win5mStart st) (scast (st_Win5mCount st)) at, AdvanceDay (st_Day st) (st_DayOutSum st) at amount))"

definition tryBeneficiary :: "tx_env \<Rightarrow> TransferView \<Rightarrow> antifraud_db \<Rightarrow> bool \<times> antifraud_db" where
  "tryBeneficiary env view s =
    (if tv_ToAccountId view = '''' then (False, s)
     else (case q_TryInsertBeneficiary env (tv_CustomerId view) (tv_ToAccountId view) s of (n, s') \<Rightarrow> (n = 1, s')))"

definition observation :: "TransferView \<Rightarrow> time \<Rightarrow> int64 \<Rightarrow> int64 \<Rightarrow> bool \<Rightarrow> Observation" where
  "observation view at winCount daySum newBeneficiary = \<lparr>ob_CustomerID = tv_CustomerId view, ob_TransferID = tv_Id view, ob_AccountID = tv_FromAccountId view,
     ob_Amount = MinorUnits (tv_Amount view), ob_Currency = MoneyCurrency (tv_Amount view), ob_At = at, ob_Count5m = winCount, ob_DayOutSum = daySum,
     ob_NewBeneficiary = newBeneficiary\<rparr>"

definition score :: "tx_env \<Rightarrow> time \<Rightarrow> TransferView \<Rightarrow> antifraud_db \<Rightarrow> antifraud_err + antifraud_db" where
  "score env at view s =
    sum_bind (loadRules s) (\<lambda>rs.
      (case advanceStats s view at of ((winStart, winCount), (day, daySum)) \<Rightarrow>
       case tryBeneficiary env view s of (newBeneficiary, s1) \<Rightarrow>
        sum_bind (fold_err (raise env (observation view at winCount daySum newBeneficiary))
            (enumerate 0 (Evaluate rs (observation view at winCount daySum newBeneficiary))) s1) (\<lambda>s2.
        Inr (q_UpsertStats env \<lparr>st_CustomerID = tv_CustomerId view, st_Currency = MoneyCurrency (tv_Amount view), st_Day = day, st_DayOutSum = daySum,
           st_Win5mStart = winStart, st_Win5mCount = ucast winCount, st_UpdatedAt = zeroTime\<rparr> s2))))"

definition antifraud_Handle :: "(unit, antifraud_db) handler" where
  "antifraud_Handle env msg s = (case ev_Payload (em_Envelope msg) of
      TransferCompleted view _ \<Rightarrow> if tv_Type view = TRANSFER_TYPE_TOPUP then Inr s else score env (observed_at env msg) view s
    | _ \<Rightarrow> Inr s)"

end
