(* ===== verification/Antifraud_Safety.thy ===== *)
theory Antifraud_Safety
  imports Antifraud
begin

text \<open>
  What the scorer does with a run of completed transfers: its tables stay well-formed and every alert is announced,
  the daily sum and the five-minute count are related to the transfers that were scored, and an alert is raised
  for exactly the rules whose threshold is exceeded.
\<close>

section \<open>Rules\<close>

definition fires :: "Observation \<Rightarrow> Rule \<Rightarrow> bool" where
  "fires obs r \<longleftrightarrow> (ru_Kind r = KindAmountOver \<and> over r (ob_Currency obs) (ob_Amount obs))
     \<or> (ru_Kind r = KindVelocity \<and> 0 <s ru_MaxIn5m r \<and> ru_MaxIn5m r <s ob_Count5m obs)
     \<or> (ru_Kind r = KindDailyOutSum \<and> over r (ob_Currency obs) (ob_DayOutSum obs))
     \<or> (ru_Kind r = KindNewBeneficiary \<and> ob_NewBeneficiary obs \<and> over r (ob_Currency obs) (ob_Amount obs))"

lemma Evaluate_fires:
  "map (\<lambda>a. (al_RuleID a, al_Severity a)) (Evaluate rs obs) = map (\<lambda>r. (ru_ID r, ru_Severity r)) (filter (fires obs) rs)"
  by (induction rs) (auto simp: fires_def rule_texts Let_def)

section \<open>One transaction\<close>

definition alert_key :: "AlertRow \<Rightarrow> string \<times> string \<times> string \<times> string \<times> string" where
  "alert_key a = (alr_CustomerID a, alr_TransferID a, alr_RuleID a, alr_Severity a, alr_Details a)"

definition event_key :: "FraudAlertMsg \<Rightarrow> string \<times> string \<times> string \<times> string \<times> string" where
  "event_key m = (fa_CustomerId m, fa_TransferId m, fa_Rule m, fa_Severity m, fa_Details m)"

abbreviation payload_of :: "OutboxRow \<Rightarrow> Event" where "payload_of r \<equiv> ev_Payload (msg_Payload (ob_Message r))"

definition keys_ok :: "antifraud_db \<Rightarrow> bool" where
  "keys_ok s \<longleftrightarrow> distinct (map alr_ID (alerts s)) \<and> distinct (map ob_ID (f_outbox s)) \<and> (\<forall>a \<in> set (alerts s). alr_Severity a \<in> {SeverityMedium, SeverityHigh})"

text \<open>Rows and messages were added for these alerts, and nothing else changed.\<close>

definition raised :: "Observation \<Rightarrow> Alert list \<Rightarrow> antifraud_db \<Rightarrow> antifraud_db \<Rightarrow> bool" where
  "raised obs as s s' \<longleftrightarrow> (\<exists>rows msgs. s' = s\<lparr>alerts := alerts s @ rows, f_outbox := f_outbox s @ msgs\<rparr>
     \<and> map alert_key rows = map (\<lambda>a. event_key (alert_event obs a)) as
     \<and> map payload_of msgs = map (\<lambda>a. FraudAlertRaised (alert_event obs a)) as
     \<and> list_all (\<lambda>m. msg_Topic (ob_Message m) = TopicFraudAlerts) msgs
     \<and> (keys_ok s \<longrightarrow> keys_ok s'))"

lemma raised_Nil: "raised obs [] s s"
  by (simp add: raised_def)

lemma raised_append: "raised obs as s s1 \<Longrightarrow> raised obs bs s1 s2 \<Longrightarrow> raised obs (as @ bs) s s2"
  unfolding raised_def by (elim exE conjE) (rule_tac x = "rows @ rowsa" in exI, rule_tac x = "msgs @ msgsa" in exI, simp)

lemma raised_one:
  assumes "s' = s\<lparr>alerts := alerts s @ [row], f_outbox := f_outbox s @ [m]\<rparr>" and "alert_key row = event_key (alert_event obs a)"
    and "payload_of m = FraudAlertRaised (alert_event obs a)" and "msg_Topic (ob_Message m) = TopicFraudAlerts"
    and "alr_ID row \<notin> alr_ID ` set (alerts s)" and "ob_ID m \<notin> ob_ID ` set (f_outbox s)" and "alr_Severity row \<in> {SeverityMedium, SeverityHigh}"
  shows "raised obs [a] s s'"
  unfolding raised_def using assms by (intro exI [of _ "[row]"] exI [of _ "[m]"]) (simp add: keys_ok_def)

lemma q_InsertAlert_Inr:
  "q_InsertAlert env arg s = Inr s' \<longleftrightarrow> alr_Severity arg \<in> {SeverityMedium, SeverityHigh} \<and> alr_ID arg \<notin> alr_ID ` set (alerts s)
     \<and> s' = s\<lparr>alerts := alerts s @ [arg\<lparr>alr_CreatedAt := env_now env\<rparr>]\<rparr>"
  by (auto simp: q_InsertAlert_def rule_texts)

lemma raise_raised:
  assumes "raise env obs (i, a) s = Inr s'"
  shows "raised obs [a] s s'"
proof -
  define row where "row ident = \<lparr>alr_ID = ident, alr_CustomerID = ob_CustomerID obs, alr_TransferID = ob_TransferID obs,
    alr_RuleID = al_RuleID a, alr_Severity = al_Severity a, alr_Details = alert_details obs a, alr_CreatedAt = zeroTime\<rparr>" for ident
  obtain ident s1 msg ob where d: "q_InsertAlert env (row ident) s = Inr s1"
    "NewProtoMessage env (2 * i + 1) TopicFraudAlerts (ob_CustomerID obs) (env_request_id env) (FraudAlertRaised (alert_event obs a)) = (Inr msg :: antifraud_err + Message)"
    "outbox_Insert env msg (f_outbox s1) = (Inr ob :: antifraud_err + OutboxRow list)" "s' = s1\<lparr>f_outbox := ob\<rparr>"
    using assms [unfolded raise_def prod.case, folded row_def] by auto
  then have "s' = s\<lparr>alerts := alerts s @ [(row ident)\<lparr>alr_CreatedAt := env_now env\<rparr>], f_outbox := f_outbox s @ [\<lparr>ob_Message = msg, ob_CreatedAt = env_now env, ob_SentAt = None\<rparr>]\<rparr>"
    by (simp add: q_InsertAlert_Inr outbox_Insert_Inr)
  then show ?thesis
    using d(1,3) NewProtoMessage_Inr [OF d(2)]
    by (intro raised_one) (auto simp: q_InsertAlert_Inr outbox_Insert_Inr row_def alert_key_def event_key_def alert_event_def)
qed


lemma raises_raised: "fold_err (raise env obs) (enumerate n as) s = Inr s' \<Longrightarrow> raised obs as s s'"
proof (induction as arbitrary: n s)
  case (Cons a as)
  then obtain s1 where "raise env obs (n, a) s = Inr s1" "fold_err (raise env obs) (enumerate (Suc n) as) s1 = Inr s'" by auto
  then show ?case using raised_append [OF raise_raised Cons.IH] by fastforce
qed (simp add: raised_Nil)

text \<open>The whole transaction of a scored transfer.\<close>

lemma tryBeneficiary_state: "snd (tryBeneficiary env view s) = s\<lparr>beneficiaries := beneficiaries (snd (tryBeneficiary env view s))\<rparr>"
  by (simp add: tryBeneficiary_def q_TryInsertBeneficiary_def)

definition seen_before :: "antifraud_db \<Rightarrow> TransferView \<Rightarrow> bool" where
  "seen_before s view \<longleftrightarrow> list_ex (\<lambda>b. be_CustomerID b = tv_CustomerId view \<and> be_CounterpartyAccount b = tv_ToAccountId view) (beneficiaries s)"

lemma tryBeneficiary_new: "fst (tryBeneficiary env view s) \<longleftrightarrow> tv_ToAccountId view \<noteq> '''' \<and> \<not> seen_before s view"
  by (simp add: tryBeneficiary_def q_TryInsertBeneficiary_def seen_before_def)

definition observed :: "time \<Rightarrow> TransferView \<Rightarrow> antifraud_db \<Rightarrow> Observation" where
  "observed at view s = observation view at (snd (fst (advanceStats s view at))) (snd (snd (advanceStats s view at)))
     (tv_ToAccountId view \<noteq> '''' \<and> \<not> seen_before s view)"

definition stats_row :: "time \<Rightarrow> TransferView \<Rightarrow> antifraud_db \<Rightarrow> CustomerStat" where
  "stats_row at view s = \<lparr>st_CustomerID = tv_CustomerId view, st_Currency = MoneyCurrency (tv_Amount view), st_Day = fst (snd (advanceStats s view at)),
     st_DayOutSum = snd (snd (advanceStats s view at)), st_Win5mStart = fst (fst (advanceStats s view at)),
     st_Win5mCount = ucast (snd (fst (advanceStats s view at))), st_UpdatedAt = zeroTime\<rparr>"

lemma score_effect:
  assumes "score env at view s = Inr s'"
  obtains rs s1 where "loadRules s = Inr rs" "raised (observed at view s) (Evaluate rs (observed at view s)) (snd (tryBeneficiary env view s)) s1"
    "s' = q_UpsertStats env (stats_row at view s) s1"
proof -
  obtain ws wc d ds where a: "advanceStats s view at = ((ws, wc), (d, ds))" by (metis surj_pair)
  obtain nb s0 where b: "tryBeneficiary env view s = (nb, s0)" by fastforce
  have obs: "observed at view s = observation view at wc ds nb" using a tryBeneficiary_new [of env view s] b by (simp add: observed_def)
  obtain rs s1 where "loadRules s = Inr rs" "fold_err (raise env (observed at view s)) (enumerate 0 (Evaluate rs (observed at view s))) s0 = Inr s1"
    "s' = q_UpsertStats env (stats_row at view s) s1"
    using assms a b by (auto simp: score_def obs stats_row_def)
  then show ?thesis using that [of rs s1] raises_raised [of env _ 0 _ s0 s1] b by simp
qed

lemma q_UpsertStats_simps [simp]:
  "alerts (q_UpsertStats env row s) = alerts s" "f_outbox (q_UpsertStats env row s) = f_outbox s"
  "beneficiaries (q_UpsertStats env row s) = beneficiaries s" "rules (q_UpsertStats env row s) = rules s"
  by (simp_all add: q_UpsertStats_def Let_def)

lemma q_UpsertStats_same:
  "q_GetStats (q_UpsertStats env row s) (st_CustomerID row) (st_Currency row)
     = Inr (row\<lparr>st_Win5mStart := pg_timestamptz (st_Win5mStart row), st_UpdatedAt := env_now env\<rparr>)"
proof (cases "list_ex (\<lambda>x. st_CustomerID x = st_CustomerID row \<and> st_Currency x = st_Currency row) (customer_stats s)")
  case True
  then have "select_one (\<lambda>x. st_CustomerID x = st_CustomerID row \<and> st_Currency x = st_Currency row)
      (update_where (\<lambda>x. st_CustomerID x = st_CustomerID row \<and> st_Currency x = st_Currency row) (\<lambda>_. row') t) = Some row'"
    if "t = customer_stats s" "st_CustomerID row' = st_CustomerID row" "st_Currency row' = st_Currency row" for row' t
    unfolding that(1) [symmetric] using that(2,3) by (induction t) (auto simp: select_one_def)
  then show ?thesis using True by (simp add: q_UpsertStats_def q_GetStats_def Let_def)
next
  case False
  then have "select_one (\<lambda>x. st_CustomerID x = st_CustomerID row \<and> st_Currency x = st_Currency row) (customer_stats s) = None"
    by (simp add: select_one_None list_ex_iff)
  then show ?thesis using False by (simp add: q_UpsertStats_def q_GetStats_def Let_def select_one_append select_one_single)
qed

lemma q_UpsertStats_other:
  assumes "(c, cur) \<noteq> (st_CustomerID row, st_Currency row)"
  shows "q_GetStats (q_UpsertStats env row s) c cur = q_GetStats s c cur"
proof -
  have upd: "select_one (\<lambda>x. st_CustomerID x = c \<and> st_Currency x = cur)
      (update_where (\<lambda>x. st_CustomerID x = st_CustomerID row \<and> st_Currency x = st_Currency row) (\<lambda>_. row') t)
    = select_one (\<lambda>x. st_CustomerID x = c \<and> st_Currency x = cur) t"
    if "st_CustomerID row' = st_CustomerID row" "st_Currency row' = st_Currency row" for row' t
    using that assms by (induction t) (auto simp: select_one_def)
  have new: "select_one (\<lambda>x. st_CustomerID x = c \<and> st_Currency x = cur) (t @ [row']) = select_one (\<lambda>x. st_CustomerID x = c \<and> st_Currency x = cur) t"
    if "st_CustomerID row' = st_CustomerID row" "st_Currency row' = st_Currency row" for row' t
    using that assms by (induction t) (auto simp: select_one_def)
  show ?thesis by (simp add: q_UpsertStats_def q_GetStats_def Let_def upd new)
qed

section \<open>The tables\<close>

text \<open>
  The keys are unique and, in order, every alert has its event in the outbox, and every event there is one of an alert.
\<close>

definition stats_key :: "CustomerStat \<Rightarrow> string \<times> string" where
  "stats_key x = (st_CustomerID x, st_Currency x)"

definition announced :: "antifraud_db \<Rightarrow> bool" where
  "announced s \<longleftrightarrow> list_all2 (\<lambda>a r. \<exists>m. payload_of r = FraudAlertRaised m \<and> event_key m = alert_key a) (alerts s) (f_outbox s)"

definition antifraud_inv :: "antifraud_db \<Rightarrow> bool" where
  "antifraud_inv s \<longleftrightarrow> keys_ok s \<and> distinct (map stats_key (customer_stats s))
     \<and> distinct (map (\<lambda>b. (be_CustomerID b, be_CounterpartyAccount b)) (beneficiaries s)) \<and> announced s"

lemma announced_raised:
  assumes "announced s" and "raised obs as s s'"
  shows "announced s'"
proof -
  obtain rows msgs where r: "s' = s\<lparr>alerts := alerts s @ rows, f_outbox := f_outbox s @ msgs\<rparr>"
    "map alert_key rows = map (\<lambda>a. event_key (alert_event obs a)) as" "map payload_of msgs = map (\<lambda>a. FraudAlertRaised (alert_event obs a)) as"
    using assms(2) unfolding raised_def by blast
  have len: "length rows = length as" "length msgs = length as" using r(2,3) map_eq_imp_length_eq by blast+
  have "alert_key (rows ! i) = event_key (alert_event obs (as ! i)) \<and> payload_of (msgs ! i) = FraudAlertRaised (alert_event obs (as ! i))"
    if "i < length as" for i
    using arg_cong [OF r(2), of "\<lambda>xs. xs ! i"] arg_cong [OF r(3), of "\<lambda>xs. xs ! i"] that len by simp
  then have "list_all2 (\<lambda>a r. \<exists>m. payload_of r = FraudAlertRaised m \<and> event_key m = alert_key a) rows msgs"
    using len by (auto simp: list_all2_conv_all_nth)
  then show ?thesis using assms(1) by (auto simp: announced_def r(1) intro: list_all2_appendI)
qed

lemma q_UpsertStats_keys:
  "distinct (map stats_key (customer_stats s)) \<Longrightarrow> distinct (map stats_key (customer_stats (q_UpsertStats env row s)))"
proof -
  let ?row = "row\<lparr>st_Win5mStart := pg_timestamptz (st_Win5mStart row), st_UpdatedAt := env_now env\<rparr>"
  have "map stats_key (update_where (\<lambda>x. st_CustomerID x = st_CustomerID row \<and> st_Currency x = st_Currency row) (\<lambda>_. ?row) t) = map stats_key t" for t
    by (induction t) (auto simp: stats_key_def)
  then show "distinct (map stats_key (customer_stats s)) \<Longrightarrow> distinct (map stats_key (customer_stats (q_UpsertStats env row s)))"
    by (auto simp: q_UpsertStats_def Let_def stats_key_def list_ex_iff)
qed

lemma tryBeneficiary_inv: "antifraud_inv s \<Longrightarrow> antifraud_inv (snd (tryBeneficiary env view s))"
  by (auto simp: antifraud_inv_def keys_ok_def announced_def tryBeneficiary_def q_TryInsertBeneficiary_def list_ex_iff)

lemma score_inv:
  assumes "antifraud_inv s" and "score env at view s = Inr s'"
  shows "antifraud_inv s'"
proof (rule score_effect [OF assms(2)])
  fix rs s1
  let ?s0 = "snd (tryBeneficiary env view s)"
  assume r: "raised (observed at view s) (Evaluate rs (observed at view s)) ?s0 s1" and s': "s' = q_UpsertStats env (stats_row at view s) s1"
  have inv0: "antifraud_inv ?s0" using tryBeneficiary_inv [OF assms(1)] .
  then have "keys_ok s1" "announced s1" "customer_stats s1 = customer_stats ?s0" "beneficiaries s1 = beneficiaries ?s0"
    using r announced_raised [OF _ r] by (auto simp: antifraud_inv_def raised_def)
  then show "antifraud_inv s'" using inv0 q_UpsertStats_keys
    by (simp add: antifraud_inv_def keys_ok_def announced_def s')
qed

lemma antifraud_Handle_inv: "antifraud_inv s \<Longrightarrow> antifraud_Handle env msg s = Inr s' \<Longrightarrow> antifraud_inv s'"
  by (auto simp: antifraud_Handle_def score_inv split: Event.splits if_splits)

interpretation antifraud_consumer: consumer_handler antifraud_Handle antifraud_inv
  by unfold_locales (rule antifraud_Handle_inv)

section \<open>The history of a customer\<close>

definition scored :: "string \<Rightarrow> string \<Rightarrow> (tx_env \<times> EventMessage) list \<Rightarrow> (time \<times> int64) list" where
  "scored c cur ps = concat (map (\<lambda>(env, msg). case ev_Payload (em_Envelope msg) of
      TransferCompleted view _ \<Rightarrow> if tv_Type view \<noteq> TRANSFER_TYPE_TOPUP \<and> tv_CustomerId view = c \<and> MoneyCurrency (tv_Amount view) = cur
         then [(observed_at env msg, MinorUnits (tv_Amount view))] else []
    | _ \<Rightarrow> []) ps)"

lemma scored_append [simp]: "scored c cur (ps @ qs) = scored c cur ps @ scored c cur qs"
  by (simp add: scored_def)

definition day_state :: "(time \<times> int64) list \<Rightarrow> time \<times> int64" where
  "day_state xs = foldl (\<lambda>d x. AdvanceDay (fst d) (snd d) (fst x) (snd x)) (zeroTime, 0) xs"

definition window_state :: "(time \<times> int64) list \<Rightarrow> time \<times> int64" where
  "window_state xs = foldl (\<lambda>w x. let w' = AdvanceWindow (fst w) (snd w) (fst x) in (pg_timestamptz (fst w'), scast (ucast (snd w') :: int32))) (zeroTime, 0) xs"

definition stats_of :: "antifraud_db \<Rightarrow> string \<Rightarrow> string \<Rightarrow> (time \<times> int64) \<times> (time \<times> int64)" where
  "stats_of s c cur = (case q_GetStats s c cur of Inl _ \<Rightarrow> ((zeroTime, 0), (zeroTime, 0))
     | Inr st \<Rightarrow> ((st_Win5mStart st, scast (st_Win5mCount st)), (st_Day st, st_DayOutSum st)))"

lemma advanceStats_of:
  "advanceStats s view at = (case stats_of s (tv_CustomerId view) (MoneyCurrency (tv_Amount view)) of ((ws, wc), (d, ds)) \<Rightarrow>
     (AdvanceWindow ws wc at, AdvanceDay d ds at (MinorUnits (tv_Amount view))))"
  by (simp add: advanceStats_def stats_of_def Let_def split: sum.splits)

lemma stats_of_Handle:
  assumes "antifraud_Handle env msg s = Inr s'" and "stats_of s c cur = (window_state xs, day_state xs)"
  shows "stats_of s' c cur = (window_state (xs @ scored c cur [(env, msg)]), day_state (xs @ scored c cur [(env, msg)]))"
proof (cases "\<exists>view rate. ev_Payload (em_Envelope msg) = TransferCompleted view rate \<and> tv_Type view \<noteq> TRANSFER_TYPE_TOPUP")
  case False
  then have "s' = s" "scored c cur [(env, msg)] = []" using assms(1) by (auto simp: antifraud_Handle_def scored_def split: Event.splits if_splits)
  then show ?thesis using assms(2) by simp
next
  case True
  then obtain view rate where v: "ev_Payload (em_Envelope msg) = TransferCompleted view rate" "tv_Type view \<noteq> TRANSFER_TYPE_TOPUP" by blast
  let ?at = "observed_at env msg" and ?key = "(tv_CustomerId view, MoneyCurrency (tv_Amount view))"
  have "score env ?at view s = Inr s'" using assms(1) v by (simp add: antifraud_Handle_def)
  then obtain rs s1 where r: "raised (observed ?at view s) (Evaluate rs (observed ?at view s)) (snd (tryBeneficiary env view s)) s1"
    and s': "s' = q_UpsertStats env (stats_row ?at view s) s1" by (rule score_effect)
  have s1: "customer_stats s1 = customer_stats s" using r tryBeneficiary_state [of env view s] by (auto simp: raised_def tryBeneficiary_def q_TryInsertBeneficiary_def)
  have row: "st_CustomerID (stats_row ?at view s) = tv_CustomerId view" "st_Currency (stats_row ?at view s) = MoneyCurrency (tv_Amount view)"
    by (simp_all add: stats_row_def)
  show ?thesis
  proof (cases "(c, cur) = ?key")
    case False
    then have "stats_of s' c cur = stats_of s c cur"
      using q_UpsertStats_other [of c cur "stats_row ?at view s" env s1] row s1 by (simp add: s' stats_of_def q_GetStats_def)
    moreover have "scored c cur [(env, msg)] = []" using False v by (auto simp: scored_def)
    ultimately show ?thesis using assms(2) by simp
  next
    case True
    have "scored c cur [(env, msg)] = [(?at, MinorUnits (tv_Amount view))]" using True v by (simp add: scored_def)
    moreover have "advanceStats s view ?at = (AdvanceWindow (fst (window_state xs)) (snd (window_state xs)) ?at,
        AdvanceDay (fst (day_state xs)) (snd (day_state xs)) ?at (MinorUnits (tv_Amount view)))"
      using assms(2) True by (simp add: advanceStats_of case_prod_beta)
    moreover have "stats_of s' c cur = (let a = advanceStats s view ?at in
        ((pg_timestamptz (fst (fst a)), scast (ucast (snd (fst a)) :: int32)), snd a))"
      using q_UpsertStats_same [of env "stats_row ?at view s" s1] True row by (simp add: s' stats_of_def stats_row_def Let_def)
    ultimately show ?thesis by (simp add: window_state_def day_state_def Let_def)
  qed
qed

lemma stats_history:
  assumes "handle_all antifraud_Handle ps s0 = Inr s" and "customer_stats s0 = []"
  shows "stats_of s c cur = (window_state (scored c cur ps), day_state (scored c cur ps))"
  using assms(1)
proof (induction ps arbitrary: s rule: rev_induct)
  case Nil
  then show ?case using assms(2) by (simp add: stats_of_def q_GetStats_def select_one_def one_row_def scored_def window_state_def day_state_def)
next
  case (snoc p ps)
  obtain env msg where p: "p = (env, msg)" by fastforce
  then obtain s1 where "handle_all antifraud_Handle ps s0 = Inr s1" "antifraud_Handle env msg s1 = Inr s"
    using snoc.prems by (auto simp: handle_all_append)
  then show ?case using stats_of_Handle [OF _ snoc.IH] p by simp
qed

subsection \<open>The daily sum\<close>

lemma dayUTC_idem [simp]: "dayUTC (dayUTC t) = dayUTC t"
  by (simp add: dayUTC_def mod_diff_left_eq [symmetric])

lemma day_state_total:
  assumes "xs \<noteq> []" and "sorted (map (\<lambda>x. dayUTC (fst x)) xs)"
  shows "day_state xs = (dayUTC (fst (last xs)), sum_list (map snd (filter (\<lambda>x. dayUTC (fst x) = dayUTC (fst (last xs))) xs)))"
  using assms
proof (induction xs rule: rev_induct)
  case (snoc x ys)
  show ?case
  proof (cases "ys = []")
    case True
    then show ?thesis by (simp add: day_state_def AdvanceDay_def)
  next
    case False
    have sorted: "sorted (map (\<lambda>x. dayUTC (fst x)) ys)" and upto: "\<forall>y \<in> set ys. dayUTC (fst y) \<le> dayUTC (fst x)"
      using snoc.prems(2) by (auto simp: sorted_append)
    have IH: "day_state ys = (dayUTC (fst (last ys)), sum_list (map snd (filter (\<lambda>y. dayUTC (fst y) = dayUTC (fst (last ys))) ys)))"
      using snoc.IH [OF False sorted] .
    have step: "day_state (ys @ [x]) = AdvanceDay (fst (day_state ys)) (snd (day_state ys)) (fst x) (snd x)" by (simp add: day_state_def)
    show ?thesis
    proof (cases "dayUTC (fst x) = dayUTC (fst (last ys))")
      case True
      then show ?thesis using step IH by (simp add: AdvanceDay_def)
    next
      case new: False
      have "dayUTC (fst y) \<le> dayUTC (fst (last ys))" if "y \<in> set ys" for y
        using sorted that False by (induction ys rule: rev_induct) (auto simp: sorted_append)
      then have "dayUTC (fst y) \<noteq> dayUTC (fst x)" if "y \<in> set ys" for y
        using that new upto last_in_set [OF False] by (metis order_antisym)
      then have "filter (\<lambda>y. dayUTC (fst y) = dayUTC (fst x)) ys = []" by (simp add: filter_empty_conv)
      then show ?thesis using step IH new by (simp add: AdvanceDay_def)
    qed
  qed
qed simp

text \<open>The outgoing total of the day of the last transfer, as an integer.\<close>

definition day_total :: "(time \<times> int64) list \<Rightarrow> int" where
  "day_total xs = sum_list (map (sint \<circ> snd) (filter (\<lambda>x. dayUTC (fst x) = dayUTC (fst (last xs))) xs))"

lemma sint_sum_list:
  fixes ws :: "int64 list"
  assumes "\<forall>w \<in> set ws. 0 \<le> sint w" and "sum_list (map sint ws) \<le> int64_max"
  shows "sint (sum_list ws) = sum_list (map sint ws)"
proof -
  have "sum_list ws = word_of_int (sum_list (map sint ws))" by (induction ws) simp_all
  moreover have "0 \<le> sum_list (map sint ws)" using assms(1) by (intro sum_list_nonneg) auto
  ultimately show ?thesis using assms(2) by (simp add: sint_sbintrunc' signed_take_bit_63_id)
qed

lemma day_state_sint:
  assumes "xs \<noteq> []" and "sorted (map (\<lambda>x. dayUTC (fst x)) xs)" and "\<forall>x \<in> set xs. 0 \<le> sint (snd x)" and "day_total xs \<le> int64_max"
  shows "sint (snd (day_state xs)) = day_total xs"
  unfolding day_state_total [OF assms(1,2)]
  using sint_sum_list [of "map snd (filter (\<lambda>x. dayUTC (fst x) = dayUTC (fst (last xs))) xs)"] assms(3,4)
  by (simp add: day_total_def comp_def)

subsection \<open>The five-minute window\<close>

text \<open>The transfers in the five minutes up to the last one.\<close>

definition recent :: "(time \<times> int64) list \<Rightarrow> (time \<times> int64) list" where
  "recent xs = filter (\<lambda>x. fst (last xs) - window5m < fst x) xs"

text \<open>
  \<open>w\<close> is a window of \<open>xs\<close>: its start and the number of the last transfers it counts, none of which is before the start.
\<close>

definition window_of :: "(time \<times> int64) list \<Rightarrow> time \<Rightarrow> nat \<Rightarrow> bool" where
  "window_of xs ws n \<longleftrightarrow> n \<le> length xs \<and> (\<forall>x \<in> set (drop (length xs - n) xs). ws \<le> fst x)"

lemma window_of_snoc: "window_of xs ws n \<Longrightarrow> ws \<le> fst x \<Longrightarrow> window_of (xs @ [x]) ws (Suc n)"
  by (simp add: window_of_def)

lemma window_recent:
  assumes "window_of xs ws n" and "fst (last xs) - ws < window5m"
  shows "n \<le> length (recent xs)"
proof -
  have "filter (\<lambda>x. fst (last xs) - window5m < fst x) (drop (length xs - n) xs) = drop (length xs - n) xs"
    using assms by (force simp: window_of_def intro!: filter_True)
  then have "length (drop (length xs - n) xs) \<le> length (recent xs)"
    unfolding recent_def by (metis append_take_drop_id filter_append length_append le_add2)
  then show ?thesis using assms(1) by (simp add: window_of_def)
qed

lemma count_int32:
  assumes "n < 2147483648"
  shows "scast (ucast (of_nat n :: int64) :: int32) = (of_nat n :: int64)"
proof -
  have "ucast (of_nat n :: int64) = (of_nat n :: int32)" using assms by (simp add: unsigned_of_nat take_bit_nat_eq_self)
  moreover have "sint (of_nat n :: int32) = int n"
    using assms by (simp add: signed_of_nat signed_take_bit_int_eq_self)
  ultimately show ?thesis by (simp add: scast_eq)
qed

definition advanced :: "(time \<times> int64) list \<Rightarrow> time \<times> int64 \<Rightarrow> time \<Rightarrow> nat \<Rightarrow> bool" where
  "advanced xs x ws n \<longleftrightarrow> n \<le> Suc (length xs) \<and> window_of (xs @ [x]) ws n \<and> fst x - ws < window5m \<and> ws \<le> fst x"

lemma AdvanceWindow_advanced:
  assumes "window_of xs ws n" and "xs = [] \<Longrightarrow> ws = zeroTime" and "xs \<noteq> [] \<Longrightarrow> ws \<le> fst x"
  shows "\<exists>n'. snd (AdvanceWindow ws (of_nat n) (fst x)) = of_nat n' \<and> advanced xs x (fst (AdvanceWindow ws (of_nat n) (fst x))) n'"
proof (cases "window5m \<le> time_Sub (fst x) ws \<or> ws = zeroTime")
  case True
  then show ?thesis by (intro exI [of _ 1]) (simp add: AdvanceWindow_def advanced_def window_of_def window5m_def)
next
  case False
  then have "ws \<le> fst x" "fst x - ws < window5m" using assms(2,3) by (auto simp: time_Sub_def window5m_def)
  moreover have "n \<le> length xs" using assms(1) by (simp add: window_of_def)
  ultimately show ?thesis using False window_of_snoc [OF assms(1), of x]
    by (intro exI [of _ "Suc n"]) (simp add: AdvanceWindow_def advanced_def)
qed

lemma pg_timestamptz_le: "pg_timestamptz t \<le> t"
  by (simp add: pg_timestamptz_def)

lemma window_of_earlier: "window_of xs ws n \<Longrightarrow> ws' \<le> ws \<Longrightarrow> window_of xs ws' n"
  by (fastforce simp: window_of_def)

lemma window_state_inv:
  assumes "sorted (map fst xs)" and "length xs < 2147483648"
  shows "\<exists>n. snd (window_state xs) = of_nat n \<and> window_of xs (fst (window_state xs)) n
     \<and> (if xs = [] then fst (window_state xs) = zeroTime else fst (window_state xs) \<le> fst (last xs))"
  using assms
proof (induction xs rule: rev_induct)
  case Nil
  then show ?case by (intro exI [of _ 0]) (simp add: window_state_def window_of_def)
next
  case (snoc x xs)
  obtain n where n: "snd (window_state xs) = of_nat n" "window_of xs (fst (window_state xs)) n"
    "if xs = [] then fst (window_state xs) = zeroTime else fst (window_state xs) \<le> fst (last xs)"
    using snoc.IH snoc.prems by (auto simp: sorted_append)
  let ?w = "AdvanceWindow (fst (window_state xs)) (of_nat n) (fst x)"
  have "fst (last xs) \<le> fst x" if "xs \<noteq> []" using snoc.prems(1) that by (auto simp: sorted_append)
  then obtain n' where n': "snd ?w = of_nat n'" "advanced xs x (fst ?w) n'"
    using AdvanceWindow_advanced [OF n(2), of x] n(3) by (auto split: if_splits)
  have "n' < 2147483648" using n'(2) snoc.prems(2) by (simp add: advanced_def)
  then have "window_state (xs @ [x]) = (pg_timestamptz (fst ?w), of_nat n')"
    using n(1) n'(1) count_int32 by (simp add: window_state_def Let_def)
  then show ?case using n'(2) pg_timestamptz_le [of "fst ?w"] window_of_earlier [of "xs @ [x]" "fst ?w" n']
    by (intro exI [of _ n']) (auto simp: advanced_def)
qed

lemma window_count:
  assumes "sorted (map fst (xs @ [x]))" and "length (xs @ [x]) < 2147483648"
  shows "sint (snd (AdvanceWindow (fst (window_state xs)) (snd (window_state xs)) (fst x))) \<le> int (length (recent (xs @ [x])))"
proof -
  obtain n where n: "snd (window_state xs) = of_nat n" "window_of xs (fst (window_state xs)) n"
    "if xs = [] then fst (window_state xs) = zeroTime else fst (window_state xs) \<le> fst (last xs)"
    using window_state_inv [of xs] assms by (auto simp: sorted_append)
  have "fst (last xs) \<le> fst x" if "xs \<noteq> []" using assms(1) that by (auto simp: sorted_append)
  then obtain n' where n': "snd (AdvanceWindow (fst (window_state xs)) (of_nat n) (fst x)) = of_nat n'"
    "advanced xs x (fst (AdvanceWindow (fst (window_state xs)) (of_nat n) (fst x))) n'"
    using AdvanceWindow_advanced [OF n(2), of x] n(3) by (auto split: if_splits)
  have "n' \<le> length (recent (xs @ [x]))" using window_recent n'(2) by (auto simp: advanced_def)
  moreover have "n' < 2147483648" using n'(2) assms(2) by (simp add: advanced_def)
  then have "sint (of_nat n' :: int64) = int n'" by (simp add: signed_of_nat signed_take_bit_int_eq_self)
  ultimately show ?thesis using n(1) n'(1) by simp
qed

subsection \<open>Rules and beneficiaries\<close>

lemma score_rules: "score env at view s = Inr s' \<Longrightarrow> rules s' = rules s"
  by (erule score_effect) (auto simp: raised_def tryBeneficiary_def q_TryInsertBeneficiary_def)

lemma antifraud_rules: "handle_all antifraud_Handle ps s0 = Inr s \<Longrightarrow> rules s = rules s0"
proof (induction ps arbitrary: s0)
  case (Cons p ps)
  obtain env msg where p: "p = (env, msg)" by fastforce
  then obtain s1 where "antifraud_Handle env msg s0 = Inr s1" "handle_all antifraud_Handle ps s1 = Inr s" using Cons.prems by auto
  then show ?case using Cons.IH [of s1] score_rules by (fastforce simp: antifraud_Handle_def split: Event.splits if_splits)
qed simp

lemma loadRules_cong: "rules s = rules s0 \<Longrightarrow> loadRules s = loadRules s0"
  by (simp add: loadRules_def q_ListEnabledRules_def)

lemma loadRules_ids:
  assumes "loadRules s = Inr rs" and "distinct (map rr_ID (rules s))"
  shows "distinct (map ru_ID rs)"
proof -
  have "list_all2 (\<lambda>x y. loadRule x = Inr y) (q_ListEnabledRules s) rs" using assms(1) by (simp add: loadRules_def map_err_Inr_iff)
  then have "map ru_ID rs = map rr_ID (q_ListEnabledRules s)"
    by (induction rule: list_all2_induct) (auto simp: loadRule_def split: option.splits)
  moreover have "distinct (map rr_ID (q_ListEnabledRules s))"
    using assms(2) by (simp add: q_ListEnabledRules_def distinct_map distinct_map_filter inj_on_def)
  ultimately show ?thesis by simp
qed

text \<open>An earlier transfer to the same destination.\<close>

definition paid_before :: "TransferView \<Rightarrow> (tx_env \<times> EventMessage) list \<Rightarrow> bool" where
  "paid_before view ps \<longleftrightarrow> list_ex (\<lambda>(env, msg). case ev_Payload (em_Envelope msg) of
      TransferCompleted v _ \<Rightarrow> tv_Type v \<noteq> TRANSFER_TYPE_TOPUP \<and> tv_CustomerId v = tv_CustomerId view \<and> tv_ToAccountId v = tv_ToAccountId view
    | _ \<Rightarrow> False) ps"

lemma score_beneficiaries:
  assumes "score env at v s = Inr s'"
  shows "beneficiaries s' = beneficiaries (snd (tryBeneficiary env v s))"
  using score_effect [OF assms] by (metis q_UpsertStats_simps(3) raised_def antifraud_db.ext_inject antifraud_db.surjective antifraud_db.update_convs(2,5))

lemma seen_history:
  assumes "handle_all antifraud_Handle ps s0 = Inr s" and "beneficiaries s0 = []" and "tv_ToAccountId view \<noteq> ''''"
  shows "seen_before s view \<longleftrightarrow> paid_before view ps"
  using assms(1)
proof (induction ps arbitrary: s rule: rev_induct)
  case Nil
  then show ?case using assms(2) by (simp add: seen_before_def paid_before_def)
next
  case (snoc p ps)
  obtain env msg where p: "p = (env, msg)" by fastforce
  then obtain s1 where s1: "handle_all antifraud_Handle ps s0 = Inr s1" "antifraud_Handle env msg s1 = Inr s"
    using snoc.prems by (auto simp: handle_all_append)
  show ?case
  proof (cases "\<exists>v rate. ev_Payload (em_Envelope msg) = TransferCompleted v rate \<and> tv_Type v \<noteq> TRANSFER_TYPE_TOPUP")
    case False
    then have "s = s1" "paid_before view (ps @ [p]) = paid_before view ps"
      using s1(2) p by (auto simp: antifraud_Handle_def paid_before_def split: Event.splits if_splits)
    then show ?thesis using snoc.IH [OF s1(1)] by simp
  next
    case True
    then obtain v rate where v: "ev_Payload (em_Envelope msg) = TransferCompleted v rate" "tv_Type v \<noteq> TRANSFER_TYPE_TOPUP" by blast
    have "beneficiaries s = beneficiaries (snd (tryBeneficiary env v s1))"
      using s1(2) v score_beneficiaries by (simp add: antifraud_Handle_def)
    then have "seen_before s view \<longleftrightarrow> seen_before s1 view \<or> tv_CustomerId v = tv_CustomerId view \<and> tv_ToAccountId v = tv_ToAccountId view"
      using assms(3) by (auto simp: seen_before_def tryBeneficiary_def q_TryInsertBeneficiary_def list_ex_iff)
    then show ?thesis using snoc.IH [OF s1(1)] p v by (auto simp: paid_before_def)
  qed
qed

section \<open>Alerts\<close>

text \<open>The handling of the transfer announced an alert of the rule.\<close>

definition alerted :: "Rule \<Rightarrow> TransferView \<Rightarrow> antifraud_db \<Rightarrow> antifraud_db \<Rightarrow> bool" where
  "alerted r view s s' \<longleftrightarrow> list_ex (\<lambda>x. case payload_of x of
      FraudAlertRaised m \<Rightarrow> fa_Rule m = ru_ID r \<and> fa_Severity m = ru_Severity r \<and> fa_CustomerId m = tv_CustomerId view
        \<and> fa_TransferId m = tv_Id view \<and> fa_AccountId m = tv_FromAccountId view
    | _ \<Rightarrow> False) (drop (length (f_outbox s)) (f_outbox s'))"

lemma alerted_fires:
  assumes "score env at view s = Inr s'" and "loadRules s = Inr rs" and "distinct (map ru_ID rs)" and "r \<in> set rs"
  shows "alerted r view s s' \<longleftrightarrow> fires (observed at view s) r"
proof (rule score_effect [OF assms(1)])
  fix rs' s1
  let ?obs = "observed at view s" and ?s0 = "snd (tryBeneficiary env view s)"
  assume "loadRules s = Inr rs'" and r: "raised ?obs (Evaluate rs' ?obs) ?s0 s1" and s': "s' = q_UpsertStats env (stats_row at view s) s1"
  then have rs: "rs' = rs" using assms(2) by simp
  obtain msgs where m: "f_outbox s' = f_outbox s @ msgs" "map payload_of msgs = map (\<lambda>a. FraudAlertRaised (alert_event ?obs a)) (Evaluate rs ?obs)"
    using r s' rs tryBeneficiary_state [of env view s] by (auto simp: raised_def tryBeneficiary_def q_TryInsertBeneficiary_def)
  have ob: "ob_CustomerID ?obs = tv_CustomerId view" "ob_TransferID ?obs = tv_Id view" "ob_AccountID ?obs = tv_FromAccountId view"
    by (simp_all add: observed_def observation_def)
  have "alerted r view s s' \<longleftrightarrow> list_ex (\<lambda>e. case e of FraudAlertRaised m \<Rightarrow> fa_Rule m = ru_ID r \<and> fa_Severity m = ru_Severity r \<and> fa_CustomerId m = tv_CustomerId view
        \<and> fa_TransferId m = tv_Id view \<and> fa_AccountId m = tv_FromAccountId view | _ \<Rightarrow> False) (map payload_of msgs)"
    by (simp add: alerted_def m(1) list_ex_iff)
  also have "\<dots> \<longleftrightarrow> (ru_ID r, ru_Severity r) \<in> set (map (\<lambda>a. (al_RuleID a, al_Severity a)) (Evaluate rs ?obs))"
    unfolding m(2) using ob by (force simp: list_ex_iff alert_event_def)
  also have "\<dots> \<longleftrightarrow> (\<exists>r' \<in> set rs. fires ?obs r' \<and> ru_ID r' = ru_ID r \<and> ru_Severity r' = ru_Severity r)" unfolding Evaluate_fires by (auto simp: image_iff)
  also have "\<dots> \<longleftrightarrow> fires ?obs r" using assms(3,4) by (metis distinct_map inj_onD)
  finally show "alerted r view s s' \<longleftrightarrow> fires ?obs r" .
qed

lemma scored_last:
  "ev_Payload (em_Envelope msg) = TransferCompleted view rate \<Longrightarrow> tv_Type view \<noteq> TRANSFER_TYPE_TOPUP
    \<Longrightarrow> scored (tv_CustomerId view) (MoneyCurrency (tv_Amount view)) (ps @ [(env, msg)])
      = scored (tv_CustomerId view) (MoneyCurrency (tv_Amount view)) ps @ [(observed_at env msg, MinorUnits (tv_Amount view))]"
  by (simp add: scored_def)

lemma observed_history:
  fixes env :: tx_env
  assumes "handle_all antifraud_Handle ps s0 = Inr s" and "customer_stats s0 = []"
    and "ev_Payload (em_Envelope msg) = TransferCompleted view rate" and "tv_Type view \<noteq> TRANSFER_TYPE_TOPUP"
  defines "xs \<equiv> scored (tv_CustomerId view) (MoneyCurrency (tv_Amount view)) ps" and "at \<equiv> observed_at env msg"
  shows "ob_DayOutSum (observed at view s) = snd (day_state (xs @ [(at, MinorUnits (tv_Amount view))]))"
    and "ob_Count5m (observed at view s) = snd (AdvanceWindow (fst (window_state xs)) (snd (window_state xs)) at)"
    and "ob_Amount (observed at view s) = MinorUnits (tv_Amount view)" and "ob_Currency (observed at view s) = MoneyCurrency (tv_Amount view)"
    and "ob_NewBeneficiary (observed at view s) \<longleftrightarrow> tv_ToAccountId view \<noteq> '''' \<and> \<not> seen_before s view"
proof -
  have "stats_of s (tv_CustomerId view) (MoneyCurrency (tv_Amount view)) = (window_state xs, day_state xs)"
    using stats_history [OF assms(1,2)] by (simp add: xs_def)
  then have "advanceStats s view at = (AdvanceWindow (fst (window_state xs)) (snd (window_state xs)) at,
      AdvanceDay (fst (day_state xs)) (snd (day_state xs)) at (MinorUnits (tv_Amount view)))"
    by (simp add: advanceStats_of case_prod_beta)
  then show "ob_DayOutSum (observed at view s) = snd (day_state (xs @ [(at, MinorUnits (tv_Amount view))]))"
    "ob_Count5m (observed at view s) = snd (AdvanceWindow (fst (window_state xs)) (snd (window_state xs)) at)"
    by (simp_all add: observed_def observation_def day_state_def)
qed (simp_all add: observed_def observation_def)



lemma score_topics:
  assumes "score env at view s = Inr s'" and "row \<in> set (drop (length (f_outbox s)) (f_outbox s'))"
  shows "msg_Topic (ob_Message row) = TopicFraudAlerts"
proof (rule score_effect [OF assms(1)])
  fix rs s1
  assume r: "raised (observed at view s) (Evaluate rs (observed at view s)) (snd (tryBeneficiary env view s)) s1"
    and s': "s' = q_UpsertStats env (stats_row at view s) s1"
  have "f_outbox (snd (tryBeneficiary env view s)) = f_outbox s" by (simp add: tryBeneficiary_def q_TryInsertBeneficiary_def)
  then show ?thesis using r assms(2) by (auto simp: raised_def s' list_all_iff)
qed

end
