(* ===== verification/Antifraud_Examples.thy ===== *)
theory Antifraud_Examples
  imports Antifraud_Safety
begin

text \<open>Worked runs of the scorer: witnesses, and two patterns of transfers that the statistics miss.\<close>

definition scorer_env :: "string \<Rightarrow> tx_env" where
  "scorer_env u = \<lparr>env_now = 5000, env_uuid = (\<lambda>i. Some (u @ FormatInt (int i))), env_gen_uuid = u, env_request_id = ''req'', env_begin = None, env_commit = Committed\<rparr>"

definition payment :: "string \<Rightarrow> time \<Rightarrow> int64 \<Rightarrow> TransferView" where
  "payment u at amount = \<lparr>tv_Id = u, tv_Type = TRANSFER_TYPE_P2P, tv_State = TRANSFER_STATE_COMPLETED, tv_CustomerId = ''ann'', tv_FromAccountId = ''acc-1'',
     tv_ToAccountId = ''acc-2'', tv_Amount = \<lparr>MinorUnits = amount, MoneyCurrency = ''KZT''\<rparr>, tv_CounterAmount = None, tv_AppliedRate = '''', tv_Reason = '''',
     tv_CreatedAt = at, tv_UpdatedAt = at\<rparr>"

definition spent :: "string \<Rightarrow> time \<Rightarrow> int64 \<Rightarrow> tx_env \<times> EventMessage" where
  "spent u at amount = (scorer_env u,
     \<lparr>em_EventID = u, em_RequestID = ''req'', em_OccurredAt = at, em_Envelope = \<lparr>ev_EventId = u, ev_OccurredAt = at, ev_RequestId = ''req'',
        ev_Payload = TransferCompleted (payment u at amount) ''''\<rparr>, em_Topic = ''transfers.status'', em_Key = u\<rparr>)"

definition demo_rules :: "RuleRow list" where
  "demo_rules =
    [\<lparr>rr_ID = ''R1'', rr_Kind = ''amount_over'', rr_Params = JObject [(''thresholds'', JObject [(''KZT'', JInt 90)])], rr_Severity = ''MEDIUM'', rr_Enabled = True\<rparr>,
     \<lparr>rr_ID = ''R2'', rr_Kind = ''velocity'', rr_Params = JObject [(''max_in_5m'', JInt 3)], rr_Severity = ''HIGH'', rr_Enabled = True\<rparr>,
     \<lparr>rr_ID = ''R3'', rr_Kind = ''daily_out_sum'', rr_Params = JObject [(''limits'', JObject [(''KZT'', JInt 100)])], rr_Severity = ''HIGH'', rr_Enabled = True\<rparr>]"

definition initial_antifraud :: antifraud_db where
  "initial_antifraud = \<lparr>customer_stats = [], alerts = [], beneficiaries = [], rules = demo_rules, f_outbox = []\<rparr>"

definition tables_after :: "(tx_env \<times> EventMessage) list \<Rightarrow> antifraud_db" where
  "tables_after ps = (case handle_all antifraud_Handle ps initial_antifraud of Inr s \<Rightarrow> s | Inl _ \<Rightarrow> initial_antifraud)"

definition day_ns :: int where "day_ns = 24 * 60 * 60 * 1000000000"

section \<open>What the statistics miss\<close>

text \<open>One transfer, two more almost five minutes later, and three more two seconds after those.\<close>

definition burst :: "(tx_env \<times> EventMessage) list" where
  "burst = [spent ''a'' day_ns 1, spent ''b'' (day_ns + 299000000000) 1, spent ''c'' (day_ns + 299000000001) 1,
     spent ''d'' (day_ns + 301000000000) 1, spent ''e'' (day_ns + 301000000001) 1, spent ''f'' (day_ns + 301000000002) 1]"

text \<open>
  The window does not slide: it restarts with the first transfer after it ended, so a customer can make nearly
  twice the allowed number of transfers within seconds and no alert is raised.
\<close>

theorem velocity_evaded:
  "alerts (tables_after burst) = [] \<and> length (recent (scored ''ann'' ''KZT'' burst)) = 5 \<and> \<not> isl (handle_all antifraud_Handle burst initial_antifraud)"
  by code_simp

text \<open>A transfer of the day before that is handled between two of the same day.\<close>

definition late :: "(tx_env \<times> EventMessage) list" where
  "late = [spent ''a'' (2 * day_ns) 60, spent ''b'' (2 * day_ns - 1) 10, spent ''c'' (2 * day_ns + 1) 60]"

text \<open>
  A late event clears the daily sum: when a transfer of the day before is handled in between, the total of the
  day starts from zero again, and a day above the limit is not noticed. The events of a customer are not ordered,
  because the topic is keyed by transfer.
\<close>

theorem daily_sum_cleared:
  "alerts (tables_after late) = [] \<and> day_total (scored ''ann'' ''KZT'' late) = 120 \<and> \<not> isl (handle_all antifraud_Handle late initial_antifraud)"
  by code_simp

section \<open>Witnesses\<close>

definition loaded :: "Rule list" where
  "loaded = (case loadRules initial_antifraud of Inr rs \<Rightarrow> rs | Inl _ \<Rightarrow> [])"

lemma initial_facts:
  "customer_stats initial_antifraud = []" "beneficiaries initial_antifraud = []" "distinct (map rr_ID (rules initial_antifraud))"
  "loadRules initial_antifraud = Inr loaded" "length loaded = 3"
proof -
  show "length loaded = 3" by code_simp
  have "\<not> isl (loadRules initial_antifraud)" by code_simp
  then show "loadRules initial_antifraud = Inr loaded" by (cases "loadRules initial_antifraud") (simp_all add: loaded_def)
qed (simp_all add: initial_antifraud_def demo_rules_def)

lemma tables_after_snoc:
  assumes "\<not> isl (handle_all antifraud_Handle (ps @ [p]) initial_antifraud)"
  shows "handle_all antifraud_Handle ps initial_antifraud = Inr (tables_after ps)"
    and "antifraud_Handle (fst p) (snd p) (tables_after ps) = Inr (tables_after (ps @ [p]))"
proof -
  obtain s where s: "handle_all antifraud_Handle (ps @ [p]) initial_antifraud = Inr s"
    using assms by (cases "handle_all antifraud_Handle (ps @ [p]) initial_antifraud") auto
  then obtain s1 where s1: "handle_all antifraud_Handle ps initial_antifraud = Inr s1" "antifraud_Handle (fst p) (snd p) s1 = Inr s"
    by (cases p) (auto simp: handle_all_append)
  show "handle_all antifraud_Handle ps initial_antifraud = Inr (tables_after ps)"
    and "antifraud_Handle (fst p) (snd p) (tables_after ps) = Inr (tables_after (ps @ [p]))"
    using s s1 by (simp_all add: tables_after_def)
qed

lemma spent_simps:
  "ev_Payload (em_Envelope (snd (spent u at amount))) = TransferCompleted (payment u at amount) ''''"
  "tv_Type (payment u at amount) \<noteq> TRANSFER_TYPE_TOPUP" "tv_CustomerId (payment u at amount) = ''ann''" "MoneyCurrency (tv_Amount (payment u at amount)) = ''KZT''"
  by (simp_all add: spent_def payment_def)



end
