(* ===== verification/Antifraud_Freeze.thy ===== *)
theory Antifraud_Freeze
  imports Antifraud_Examples Account
begin

text \<open>
  The two ends of the alert topic together: the scorer announces, the account service freezes
  (\<open>src/services/account/internal/adapters/kafka/consumers.go\<close>).
\<close>

lemma applyFreeze_frozen:
  assumes "applyFreeze env m a = Inr a'" and "fa_Severity m = SeverityHigh" and "fa_AccountId m \<noteq> ''''"
  shows "q_GetAccountStatus a' (fa_AccountId m) \<noteq> Inr StatusActive"
proof (cases "q_GetAccountStatus a (fa_AccountId m) = Inr StatusActive")
  case False
  then have "a' = a" using assms by (auto simp: applyFreeze_def rule_texts split: sum.splits if_splits)
  then show ?thesis using False by simp
next
  case True
  then obtain row where row: "select_one (\<lambda>x. ac_ID x = fa_AccountId m) (accounts a) = Some row" by (auto simp: q_GetAccountStatus_def)
  have "accounts a' = update_where (\<lambda>x. ac_ID x = fa_AccountId m) (\<lambda>x. x\<lparr>ac_Status := StatusFrozen\<rparr>) (accounts a)"
    using assms True row by (auto simp: applyFreeze_def rule_texts q_UpdateAccountStatus_def split: if_splits)
  moreover have upd: "select_one (\<lambda>x. ac_ID x = i) (update_where (\<lambda>x. ac_ID x = i) (\<lambda>x. x\<lparr>ac_Status := StatusFrozen\<rparr>) t)
      = map_option (\<lambda>x. x\<lparr>ac_Status := StatusFrozen\<rparr>) (select_one (\<lambda>x. ac_ID x = i) t)" for i t
    by (induction t) (auto simp: select_one_def)
  ultimately show ?thesis using row by (simp add: q_GetAccountStatus_def upd)
qed



end
