(* ===== verification/Notification.thy ===== *)
theory Notification
  imports Consumer Go_Text Money
begin

text \<open>
  The notification service, \<open>src/services/notification/internal/app/notifier.go\<close>: the handler of a consumer that
  renders a text for transfer and fraud events, sends it and keeps it in the feed. Sending is an effect outside the
  transaction; the handler's result lists what it sent. Whether the sender succeeds is a parameter.
\<close>

section \<open>notifier.go\<close>

definition notification_Group :: string where "notification_Group = ''notification''"

record RenderData =
  rd_Type :: string
  rd_Amount :: string
  rd_Counter :: string
  rd_Reason :: string
  rd_Rule :: string
  rd_Severity :: string
  rd_High :: bool

definition no_data :: RenderData where
  "no_data = \<lparr>rd_Type = '''', rd_Amount = '''', rd_Counter = '''', rd_Reason = '''', rd_Rule = '''', rd_Severity = '''', rd_High = False\<rparr>"

text \<open>The dash of the templates, in UTF-8.\<close>

definition em_dash :: string where "em_dash = [CHR '' '', CHR 0xE2, CHR 0x80, CHR 0x94, CHR '' '']"

definition Render :: "string \<Rightarrow> RenderData \<Rightarrow> unit goerr + string" where
  "Render name d =
    (if name = ''transfer_completed'' then Inr (''Your '' @ rd_Type d @ '' transfer of '' @ rd_Amount d @ '' is complete''
       @ (if rd_Counter d \<noteq> '''' then em_dash @ ''the beneficiary received '' @ rd_Counter d else '''') @ ''.'')
     else if name = ''transfer_failed'' then Inr (''Your '' @ rd_Type d @ '' transfer of '' @ rd_Amount d @ '' failed: '' @ rd_Reason d @ ''.'')
     else if name = ''fraud_alert'' then Inr (''Suspicious activity detected on your account (rule '' @ rd_Rule d @ '', severity '' @ rd_Severity d @ ''). ''
       @ (if rd_High d then ''The affected account has been frozen'' @ em_dash @ ''contact support.'' else ''No action is required; we are monitoring.''))
     else Inl (Opaque ''template: no template''))"

definition formatMoney :: "int64 \<Rightarrow> string \<Rightarrow> string" where
  "formatMoney units currency =
    (let sign = (if units <s 0 then ''-'' else ''''); u = sint (if units <s 0 then - units else units)
     in sign @ fmt_d (u sdiv 100) @ ''.'' @ fmt_0d 2 (u smod 100) @ '' '' @ currency)"

definition type_String :: "TransferType \<Rightarrow> string" where
  "type_String t = (case t of TRANSFER_TYPE_UNSPECIFIED \<Rightarrow> ''TRANSFER_TYPE_UNSPECIFIED'' | TRANSFER_TYPE_TOPUP \<Rightarrow> ''TRANSFER_TYPE_TOPUP''
     | TRANSFER_TYPE_INTERNAL \<Rightarrow> ''TRANSFER_TYPE_INTERNAL'' | TRANSFER_TYPE_P2P \<Rightarrow> ''TRANSFER_TYPE_P2P'')"

text \<open>The switch of \<open>Handle\<close>: the template, the user and the data of an event, \<open>None\<close> for other events.\<close>

definition notice :: "Event \<Rightarrow> (string \<times> string \<times> RenderData) option" where
  "notice payload = (case payload of
      TransferCompleted view _ \<Rightarrow> Some (''transfer_completed'', tv_CustomerId view,
        no_data\<lparr>rd_Type := type_String (tv_Type view), rd_Amount := formatMoney (MinorUnits (tv_Amount view)) (MoneyCurrency (tv_Amount view)),
          rd_Counter := (case tv_CounterAmount view of None \<Rightarrow> ''''
            | Some ca \<Rightarrow> if MoneyCurrency ca \<noteq> '''' then formatMoney (MinorUnits ca) (MoneyCurrency ca) else '''')\<rparr>)
    | TransferFailed view reason \<Rightarrow> Some (''transfer_failed'', tv_CustomerId view,
        no_data\<lparr>rd_Type := type_String (tv_Type view), rd_Amount := formatMoney (MinorUnits (tv_Amount view)) (MoneyCurrency (tv_Amount view)), rd_Reason := reason\<rparr>)
    | FraudAlertRaised event \<Rightarrow> Some (''fraud_alert'', fa_CustomerId event,
        no_data\<lparr>rd_Rule := fa_Rule event, rd_Severity := fa_Severity event, rd_High := (fa_Severity event = ''HIGH'')\<rparr>)
    | _ \<Rightarrow> None)"

definition json_data :: "RenderData \<Rightarrow> string" where
  "json_data d = ''{'' @ json_string ''Type'' @ '':'' @ json_string (rd_Type d) @ '','' @ json_string ''Amount'' @ '':'' @ json_string (rd_Amount d)
     @ '','' @ json_string ''Counter'' @ '':'' @ json_string (rd_Counter d) @ '','' @ json_string ''Reason'' @ '':'' @ json_string (rd_Reason d)
     @ '','' @ json_string ''Rule'' @ '':'' @ json_string (rd_Rule d) @ '','' @ json_string ''Severity'' @ '':'' @ json_string (rd_Severity d)
     @ '','' @ json_string ''High'' @ '':'' @ (if rd_High d then ''true'' else ''false'') @ ''}''"

text \<open>The row of the \<open>INSERT\<close>, and the statement.\<close>

record NotificationRow =
  nt_ID :: string
  nt_UserID :: string
  nt_Channel :: string
  nt_Template :: string
  nt_Payload :: string
  nt_Body :: string
  nt_Status :: string
  nt_CreatedAt :: time

record notification_db =
  notifications :: "NotificationRow list"

definition insertNotification :: "tx_env \<Rightarrow> NotificationRow \<Rightarrow> notification_db \<Rightarrow> pg_error + notification_db" where
  "insertNotification env row s =
    (if nt_Status row \<notin> {''sent'', ''failed''} then Inl CheckViolation
     else if nt_ID row \<in> nt_ID ` set (notifications s) then Inl UniqueViolation
     else Inr (s\<lparr>notifications := notifications s @ [row\<lparr>nt_CreatedAt := env_now env\<rparr>]\<rparr>))"

text \<open>The port \<open>Sender\<close>: its channel, and whether a message goes out. \<open>LogSender\<close> is the one the program has.\<close>

record sender =
  sd_Channel :: string
  sd_Send :: "string \<Rightarrow> string \<Rightarrow> bool"

definition LogSender :: sender where
  "LogSender = \<lparr>sd_Channel = ''log'', sd_Send = (\<lambda>_ _. True)\<rparr>"

definition notification_Notify :: "sender \<Rightarrow> tx_env \<Rightarrow> EventMessage \<Rightarrow> notification_db \<Rightarrow> (string \<times> string) list \<times> (unit goerr + notification_db)" where
  "notification_Notify sd env msg s = (case notice (ev_Payload (em_Envelope msg)) of
      None \<Rightarrow> ([], Inr s)
    | Some (templateName, userID, data) \<Rightarrow>
        if userID = '''' then ([], Inr s)
        else (case Render templateName data of
            Inl err \<Rightarrow> ([], Inl (Wrapped (''render '' @ templateName) err))
          | Inr body \<Rightarrow>
              ([(userID, body)],
               sum_bind (uuid_NewV7 env 0) (\<lambda>ident.
                 map_left rawErr (insertNotification env \<lparr>nt_ID = ident, nt_UserID = userID, nt_Channel = sd_Channel sd, nt_Template = templateName,
                   nt_Payload = json_data data, nt_Body = body, nt_Status = (if sd_Send sd userID body then ''sent'' else ''failed''), nt_CreatedAt = zeroTime\<rparr> s)))))"

definition notification_Handle :: "sender \<Rightarrow> (unit, notification_db) handler" where
  "notification_Handle sd env msg s = snd (notification_Notify sd env msg s)"

text \<open>What an attempt of the consumer sends.\<close>

definition attempt_sends :: "sender \<Rightarrow> string \<Rightarrow> tx_env \<Rightarrow> EventMessage \<Rightarrow> notification_db inbox_db \<Rightarrow> (string \<times> string) list" where
  "attempt_sends sd grp env msg db =
    (if env_begin env = None \<and> (grp, em_EventID msg) \<notin> set (processed_messages db)
     then fst (notification_Notify sd (env\<lparr>env_request_id := em_RequestID msg\<rparr>) msg (tables db)) else [])"

section \<open>The feed\<close>

text \<open>The feed entry of an event: user, template and text.\<close>

definition feed_entry :: "EventMessage \<Rightarrow> (string \<times> string \<times> string) list" where
  "feed_entry msg = (case notice (ev_Payload (em_Envelope msg)) of
      None \<Rightarrow> []
    | Some (templateName, userID, data) \<Rightarrow> if userID = '''' then []
        else (case Render templateName data of Inl _ \<Rightarrow> [] | Inr body \<Rightarrow> [(userID, templateName, body)]))"

abbreviation feed_key :: "NotificationRow \<Rightarrow> string \<times> string \<times> string" where
  "feed_key r \<equiv> (nt_UserID r, nt_Template r, nt_Body r)"

lemma notice_renders: "notice e = Some (t, u, d) \<Longrightarrow> \<not> isl (Render t d)"
  by (auto simp: notice_def Render_def split: Event.splits)

lemma insertNotification_Inr:
  "insertNotification env row s = Inr s' \<longleftrightarrow> nt_Status row \<in> {''sent'', ''failed''} \<and> nt_ID row \<notin> nt_ID ` set (notifications s)
     \<and> s' = s\<lparr>notifications := notifications s @ [row\<lparr>nt_CreatedAt := env_now env\<rparr>]\<rparr>"
  by (auto simp: insertNotification_def)

lemma notification_Handle_feed:
  assumes "notification_Handle sd env msg s = Inr s'"
  shows "map feed_key (notifications s') = map feed_key (notifications s) @ feed_entry msg"
    and "distinct (map nt_ID (notifications s)) \<Longrightarrow> distinct (map nt_ID (notifications s'))"
  using assms
  by (auto simp: notification_Handle_def notification_Notify_def feed_entry_def insertNotification_Inr split: option.splits if_splits sum.splits)

lemma handle_all_feed:
  "handle_all (notification_Handle sd) ps s = Inr s' \<Longrightarrow> map feed_key (notifications s') = map feed_key (notifications s) @ concat (map (\<lambda>p. feed_entry (snd p)) ps)"
proof (induction ps arbitrary: s)
  case (Cons p ps)
  obtain env msg where p: "p = (env, msg)" by fastforce
  then obtain s1 where s1: "notification_Handle sd env msg s = Inr s1" "handle_all (notification_Handle sd) ps s1 = Inr s'" using Cons.prems by auto
  show ?case using Cons.IH [OF s1(2)] notification_Handle_feed(1) [OF s1(1)] p by simp
qed simp

interpretation notification_consumer: consumer_handler "notification_Handle sd" "\<lambda>s. distinct (map nt_ID (notifications s))" for sd
  by unfold_locales (rule notification_Handle_feed(2))


text \<open>
  The message itself may go out twice: it is sent before the transaction ends, so when the commit fails, nothing
  is recorded, the event is handled again, and the same text is sent a second time. The feed still has one entry.
\<close>

theorem resent_after_failed_commit:
  assumes "feed_entry msg = [(userID, templateName, body)]" and "(grp, em_EventID msg) \<notin> set (processed_messages db)"
    and "env_begin env1 = None" "env_commit env1 = NotCommitted err" "env_begin env2 = None" "env_commit env2 = Committed"
    and "env_uuid env1 0 = Some u1" "u1 \<notin> nt_ID ` set (notifications (tables db))" "env_uuid env2 0 = Some u2" "u2 \<notin> nt_ID ` set (notifications (tables db))"
  shows "isl (fst (processOnce grp (notification_Handle sd) env1 msg db)) \<and> snd (processOnce grp (notification_Handle sd) env1 msg db) = db
    \<and> fst (processOnce grp (notification_Handle sd) env2 msg db) = Inr ()
    \<and> map feed_key (notifications (tables (snd (processOnce grp (notification_Handle sd) env2 msg db)))) = map feed_key (notifications (tables db)) @ [(userID, templateName, body)]
    \<and> attempt_sends sd grp env1 msg db @ attempt_sends sd grp env2 msg db = [(userID, body), (userID, body)]"
proof -
  have run: "\<exists>s'. notification_Notify sd (env\<lparr>env_request_id := em_RequestID msg\<rparr>) msg (tables db) = ([(userID, body)], Inr s')
      \<and> map feed_key (notifications s') = map feed_key (notifications (tables db)) @ [(userID, templateName, body)]"
    if "env_uuid env 0 = Some u" "u \<notin> nt_ID ` set (notifications (tables db))" for env u
    using assms(1) that
    by (auto simp: notification_Notify_def feed_entry_def uuid_NewV7_def insertNotification_def map_left_def split: option.splits sum.splits if_splits)
  obtain s1 s2 where "notification_Notify sd (env1\<lparr>env_request_id := em_RequestID msg\<rparr>) msg (tables db) = ([(userID, body)], Inr s1)"
    "notification_Notify sd (env2\<lparr>env_request_id := em_RequestID msg\<rparr>) msg (tables db) = ([(userID, body)], Inr s2)"
    "map feed_key (notifications s2) = map feed_key (notifications (tables db)) @ [(userID, templateName, body)]" using run [OF assms(7,8)] run [OF assms(9,10)] by blast
  then show ?thesis using assms(2-6)
    by (simp add: processOnce_def notification_Handle_def tx_Commit_def attempt_sends_def)
qed

definition notify_env :: "commit_outcome \<Rightarrow> tx_env" where
  "notify_env c = \<lparr>env_now = 1, env_uuid = (\<lambda>_. Some ''n1''), env_gen_uuid = '''', env_request_id = ''req'', env_begin = None, env_commit = c\<rparr>"

definition alert_message :: EventMessage where
  "alert_message = \<lparr>em_EventID = ''e1'', em_RequestID = ''req'', em_OccurredAt = 0, em_Envelope = \<lparr>ev_EventId = ''e1'', ev_OccurredAt = 0, ev_RequestId = ''req'',
     ev_Payload = FraudAlertRaised \<lparr>fa_CustomerId = ''ann'', fa_TransferId = ''t1'', fa_Rule = ''R1'', fa_Severity = ''MEDIUM'', fa_Details = '''', fa_AccountId = ''acc-1''\<rparr>\<rparr>,
     em_Topic = ''fraud.alerts'', em_Key = ''ann''\<rparr>"

definition empty_feed :: "notification_db inbox_db" where
  "empty_feed = \<lparr>processed_messages = [], tables = \<lparr>notifications = []\<rparr>\<rparr>"

theorem resent_after_failed_commit_witness:
  "let body = ''Suspicious activity detected on your account (rule R1, severity MEDIUM). No action is required; we are monitoring.'' in
     attempt_sends LogSender ''notification'' (notify_env (NotCommitted DeadlineErr)) alert_message empty_feed
       @ attempt_sends LogSender ''notification'' (notify_env Committed) alert_message empty_feed = [(''ann'', body), (''ann'', body)]"
proof -
  let ?body = "''Suspicious activity detected on your account (rule R1, severity MEDIUM). No action is required; we are monitoring.''"
  have "feed_entry alert_message = [(''ann'', ''fraud_alert'', ?body)]" by code_simp
  from resent_after_failed_commit [OF this, of "''notification''" empty_feed "notify_env (NotCommitted DeadlineErr)" DeadlineErr "notify_env Committed" "''n1''" "''n1''" LogSender]
  have "attempt_sends LogSender ''notification'' (notify_env (NotCommitted DeadlineErr)) alert_message empty_feed
       @ attempt_sends LogSender ''notification'' (notify_env Committed) alert_message empty_feed = [(''ann'', ?body), (''ann'', ?body)]"
    by (simp add: empty_feed_def notify_env_def)
  then show ?thesis by (simp only: Let_def)
qed

end
