(* ===== verification/Gateway_Access.thy ===== *)
theory Gateway_Access
  imports Grpcx Go_Json
begin

text \<open>
  Who may enter the gateway, and how often: the route table and its roles
  (\<open>src/services/gateway/internal/app/authz.go\<close>), the validation of access tokens with the keys identity publishes
  (\<open>app/jwks.go\<close>, \<open>identity/internal/adapters/keys/signer.go\<close>) and the rate limiter
  (\<open>adapters/redis/limiter.go\<close>). The JWT library and Redis are parameters.
\<close>

section \<open>authz.go\<close>

datatype RouteClass = ClassPublic | ClassRead | ClassTransfer | ClassWrite

record Route =
  rt_Method :: string
  rt_Path :: string
  rt_Roles :: "string list"
  rt_Class :: RouteClass
  rt_Idempotency :: bool

definition customerOnly :: "string list" where "customerOnly = [''customer'']"
definition anyAuthed :: "string list" where "anyAuthed = [''customer'', ''support'', ''admin'']"
definition staffOnly :: "string list" where "staffOnly = [''support'', ''admin'']"

definition Table :: "Route list" where
  "Table = map (\<lambda>(mt, path, roles, class, idem). \<lparr>rt_Method = mt, rt_Path = path, rt_Roles = roles, rt_Class = class, rt_Idempotency = idem\<rparr>)
    [(''POST'', ''/v1/auth/register'', [], ClassPublic, False),
     (''POST'', ''/v1/auth/login'', [], ClassPublic, False),
     (''POST'', ''/v1/auth/refresh'', [], ClassPublic, False),
     (''POST'', ''/v1/auth/logout'', [], ClassPublic, False),
     (''GET'', ''/v1/customers/me'', anyAuthed, ClassRead, False),
     (''POST'', ''/v1/accounts'', customerOnly, ClassWrite, False),
     (''GET'', ''/v1/accounts'', anyAuthed, ClassRead, False),
     (''GET'', ''/v1/accounts/:id/transactions'', anyAuthed, ClassRead, False),
     (''POST'', ''/v1/topups'', customerOnly, ClassTransfer, True),
     (''POST'', ''/v1/transfers'', customerOnly, ClassTransfer, True),
     (''GET'', ''/v1/transfers/:id'', anyAuthed, ClassRead, False),
     (''GET'', ''/v1/transfers'', anyAuthed, ClassRead, False),
     (''GET'', ''/v1/rates'', anyAuthed, ClassRead, False),
     (''GET'', ''/v1/admin/customers/:id/accounts'', staffOnly, ClassRead, False),
     (''POST'', ''/v1/admin/accounts/:id/freeze'', staffOnly, ClassWrite, False),
     (''POST'', ''/v1/admin/accounts/:id/unfreeze'', staffOnly, ClassWrite, False)]"

definition Allowed :: "Route \<Rightarrow> string list \<Rightarrow> bool" where
  "Allowed route roles = (if rt_Roles route = [] then True else list_ex (\<lambda>want. list_ex (\<lambda>have. want = have) roles) (rt_Roles route))"

section \<open>jwks.go\<close>

datatype gateway_sentinel = ErrTokenInvalid | ErrUnknownKid

type_synonym gateway_err = "gateway_sentinel goerr"

record PublicKey =
  pk_N :: nat
  pk_E :: int64

text \<open>\<open>big.Int\<close>: \<open>SetBytes\<close> and \<open>Bytes\<close> are big-endian, \<open>Int64\<close> keeps the low 64 bits.\<close>

definition SetBytes :: "string \<Rightarrow> nat" where
  "SetBytes bs = foldl (\<lambda>n c. 256 * n + byte c) 0 bs"

fun Bytes :: "nat \<Rightarrow> string" where
  "Bytes n = (if n = 0 then [] else Bytes (n div 256) @ [char_of (n mod 256)])"

declare Bytes.simps [simp del]

record JWK =
  jwk_Kty :: string
  jwk_Kid :: string
  jwk_N :: string
  jwk_E :: string

definition jwk_field :: "string \<Rightarrow> json \<Rightarrow> JWK \<Rightarrow> JWK option" where
  "jwk_field k j r =
    (if k = ''kty'' then map_option (\<lambda>t. r\<lparr>jwk_Kty := t\<rparr>) (json_text (jwk_Kty r) j)
     else if k = ''kid'' then map_option (\<lambda>t. r\<lparr>jwk_Kid := t\<rparr>) (json_text (jwk_Kid r) j)
     else if k = ''n'' then map_option (\<lambda>t. r\<lparr>jwk_N := t\<rparr>) (json_text (jwk_N r) j)
     else if k = ''e'' then map_option (\<lambda>t. r\<lparr>jwk_E := t\<rparr>) (json_text (jwk_E r) j)
     else Some r)"

definition json_JWK :: "json \<Rightarrow> JWK option" where
  "json_JWK = json_struct jwk_field \<lparr>jwk_Kty = '''', jwk_Kid = '''', jwk_N = '''', jwk_E = ''''\<rparr>"

definition doc_field :: "string \<Rightarrow> json \<Rightarrow> JWK list \<Rightarrow> JWK list option" where
  "doc_field k j ks = (if k \<noteq> ''keys'' then Some ks else case j of JNull \<Rightarrow> Some [] | JArray js \<Rightarrow> those (map json_JWK js) | _ \<Rightarrow> None)"

text \<open>What the \<open>GET\<close> of the document gives: an error, or a status and a body; \<open>None\<close> is a body that is no JSON.\<close>

datatype jwks_response = GetError string | GetDone nat "json option"

record JWKSCache =
  jw_issuer :: string
  jw_keys :: "string \<rightharpoonup> PublicKey"
  jw_lastRefresh :: time

definition NewJWKSCache :: "string \<Rightarrow> JWKSCache" where
  "NewJWKSCache issuer = \<lparr>jw_issuer = issuer, jw_keys = Map.empty, jw_lastRefresh = zeroTime\<rparr>"

definition usable_key :: "JWK \<Rightarrow> PublicKey option" where
  "usable_key k =
    (if jwk_Kty k \<noteq> ''RSA'' then None
     else Option.bind (DecodeString (jwk_N k)) (\<lambda>n. Option.bind (DecodeString (jwk_E k)) (\<lambda>e. Some \<lparr>pk_N = SetBytes n, pk_E = word_of_nat (SetBytes e)\<rparr>)))"

fun collect_keys :: "JWK list \<Rightarrow> (string \<rightharpoonup> PublicKey) \<Rightarrow> string \<rightharpoonup> PublicKey" where
  "collect_keys [] keys = keys"
| "collect_keys (k # ks) keys = collect_keys ks (case usable_key k of None \<Rightarrow> keys | Some pk \<Rightarrow> keys(jwk_Kid k \<mapsto> pk))"

definition refresh_keys :: "time \<Rightarrow> jwks_response \<Rightarrow> JWKSCache \<Rightarrow> (gateway_err + unit) \<times> JWKSCache" where
  "refresh_keys now resp c = (case resp of
      GetError e \<Rightarrow> (Inl (Opaque e), c)
    | GetDone status body \<Rightarrow>
        if status \<noteq> 200 then (Inl (Opaque (''jwks status '' @ FormatInt (int status))), c)
        else (case Option.bind body (json_struct doc_field []) of
            None \<Rightarrow> (Inl (Opaque ''json''), c)
          | Some ks \<Rightarrow>
              if list_all (\<lambda>k. usable_key k = None) ks then (Inl (Opaque ''jwks contains no usable keys''), c)
              else (Inr (), c\<lparr>jw_keys := collect_keys ks Map.empty, jw_lastRefresh := now\<rparr>)))"

text \<open>
  \<open>WarmUp\<close>: one attempt a second; \<open>resps\<close> gives for each attempt its time, the response, and the time after it.
  \<open>None\<close>: the attempts listed are not enough.
\<close>

fun WarmUp :: "time \<Rightarrow> (time \<times> jwks_response \<times> time) list \<Rightarrow> JWKSCache \<Rightarrow> (gateway_err + unit) option \<times> JWKSCache" where
  "WarmUp deadline [] c = (None, c)"
| "WarmUp deadline ((now, resp, after) # rest) c = (case refresh_keys now resp c of
      (Inr _, c') \<Rightarrow> (Some (Inr ()), c')
    | (Inl err, c') \<Rightarrow> if deadline < after then (Some (Inl (Wrapped ''jwks warm-up'' err)), c') else WarmUp deadline rest c')"

definition find_key :: "time \<Rightarrow> jwks_response \<Rightarrow> JWKSCache \<Rightarrow> string \<Rightarrow> (gateway_err + PublicKey) \<times> JWKSCache" where
  "find_key now resp c kid = (case jw_keys c kid of
      Some k \<Rightarrow> (Inr k, c)
    | None \<Rightarrow>
        if 10 * 1000000000 < time_Sub now (jw_lastRefresh c) then
          (case refresh_keys now resp c of
             (Inl err, c') \<Rightarrow> (Inl err, c')
           | (Inr _, c') \<Rightarrow> (case jw_keys c' kid of Some k \<Rightarrow> (Inr k, c') | None \<Rightarrow> (Inl (Sentinel ErrUnknownKid), c')))
        else (Inl (Sentinel ErrUnknownKid), c))"

record TokenClaims =
  tc_UserID :: string
  tc_SessionID :: string
  tc_Roles :: "string list"

text \<open>
  \<open>jwt.Parse\<close>, the library: \<open>jl_Kid\<close> is the \<open>kid\<close> of a token in the right format with an allowed method (the empty
  text when it has none), for which alone the key function is called; \<open>jl_Check\<close> verifies the signature with the key, the
  issuer and the expiry, and gives the claims.
\<close>

type_synonym MapClaims = "string \<rightharpoonup> json"

record jwt_lib =
  jl_Kid :: "string \<Rightarrow> string option"
  jl_Check :: "time \<Rightarrow> string \<Rightarrow> PublicKey \<Rightarrow> string \<Rightarrow> MapClaims option"

definition claim_text :: "MapClaims \<Rightarrow> string \<Rightarrow> string" where
  "claim_text mc k = (case mc k of Some (JText t) \<Rightarrow> t | _ \<Rightarrow> '''')"

fun texts_of :: "json list \<Rightarrow> string list" where
  "texts_of [] = []"
| "texts_of (j # js) = (case j of JText t \<Rightarrow> t # texts_of js | _ \<Rightarrow> texts_of js)"

definition token_claims :: "MapClaims \<Rightarrow> TokenClaims" where
  "token_claims mc = \<lparr>tc_UserID = claim_text mc ''sub'', tc_SessionID = claim_text mc ''sid'',
     tc_Roles = (case mc ''roles'' of Some (JArray js) \<Rightarrow> texts_of js | _ \<Rightarrow> [])\<rparr>"

definition Validate :: "jwt_lib \<Rightarrow> time \<Rightarrow> jwks_response \<Rightarrow> JWKSCache \<Rightarrow> string \<Rightarrow> (gateway_err + TokenClaims) \<times> JWKSCache" where
  "Validate jl now resp c raw = (case jl_Kid jl raw of
      None \<Rightarrow> (Inl (Sentinel ErrTokenInvalid), c)
    | Some kid \<Rightarrow> (case find_key now resp c kid of
        (Inl _, c') \<Rightarrow> (Inl (Sentinel ErrTokenInvalid), c')
      | (Inr k, c') \<Rightarrow> (case jl_Check jl now (jw_issuer c) k raw of
          None \<Rightarrow> (Inl (Sentinel ErrTokenInvalid), c')
        | Some mc \<Rightarrow> (if tc_UserID (token_claims mc) = '''' then Inl (Sentinel ErrTokenInvalid) else Inr (token_claims mc), c'))))"

section \<open>signer.go: the published document\<close>

text \<open>\<open>Load\<close>: the JWKS of a key with the identifier \<open>kid\<close> (a prefix of the SHA-256 of the public key).\<close>

definition jwks_document :: "string \<Rightarrow> PublicKey \<Rightarrow> json" where
  "jwks_document kid pk = JObject [(''keys'', JArray [JObject
     [(''alg'', JText ''RS256''), (''e'', JText (EncodeToString (Bytes (nat (sint (pk_E pk)))))), (''kid'', JText kid), (''kty'', JText ''RSA''),
      (''n'', JText (EncodeToString (Bytes (pk_N pk)))), (''use'', JText ''sig'')]])]"

lemma SetBytes_append: "SetBytes (bs @ [c]) = 256 * SetBytes bs + byte c"
  by (simp add: SetBytes_def)

lemma SetBytes_Bytes: "SetBytes (Bytes n) = n"
proof (induction n rule: Bytes.induct)
  case (1 n)
  then show ?case by (cases "n = 0") (simp_all add: Bytes.simps [of n] Bytes.simps [of 0] SetBytes_append SetBytes_def [of "[]"])
qed

lemma fold_key_lower: "list_all (\<lambda>c. \<not> (65 \<le> byte c \<and> byte c \<le> 90)) k \<Longrightarrow> fold_key k = k"
  by (induction k) (auto simp: fold_key_def lower_byte_def)

text \<open>
  C36. The gateway recovers the key identity publishes: from the document that identity serves for its RSA key, whatever
  the modulus and for every positive exponent that fits, the cache gets exactly that key under its identifier and finds
  it there from then on.
\<close>

theorem jwks_roundtrip:
  assumes "0 \<le> sint (pk_E pk)"
  shows "refresh_keys now (GetDone 200 (Some (jwks_document kid pk))) c = (Inr (), c\<lparr>jw_keys := [kid \<mapsto> pk], jw_lastRefresh := now\<rparr>)
    \<and> find_key later resp (c\<lparr>jw_keys := [kid \<mapsto> pk], jw_lastRefresh := now\<rparr>) kid = (Inr pk, c\<lparr>jw_keys := [kid \<mapsto> pk], jw_lastRefresh := now\<rparr>)"
proof -
  let ?n = "EncodeToString (Bytes (pk_N pk))" and ?e = "EncodeToString (Bytes (nat (sint (pk_E pk))))"
  let ?jwk = "\<lparr>jwk_Kty = ''RSA'', jwk_Kid = kid, jwk_N = ?n, jwk_E = ?e\<rparr>"
  have keys: "fold_key ''keys'' = ''keys''" "fold_key ''alg'' = ''alg''" "fold_key ''e'' = ''e''" "fold_key ''kid'' = ''kid''" "fold_key ''kty'' = ''kty''"
    "fold_key ''n'' = ''n''" "fold_key ''use'' = ''use''" by (simp_all add: fold_key_lower)
  have "json_JWK (JObject [(''alg'', JText ''RS256''), (''e'', JText ?e), (''kid'', JText kid), (''kty'', JText ''RSA''), (''n'', JText ?n), (''use'', JText ''sig'')]) = Some ?jwk"
    by (simp add: json_JWK_def json_struct_def keys jwk_field_def json_text_def)
  then have doc: "json_struct doc_field [] (jwks_document kid pk) = Some [?jwk]"
    by (simp add: jwks_document_def json_struct_def keys doc_field_def)
  have "word_of_nat (nat (sint (pk_E pk))) = pk_E pk" using assms by simp
  then have "usable_key ?jwk = Some pk" by (simp add: usable_key_def DecodeString_EncodeToString SetBytes_Bytes)
  then show ?thesis using doc by (simp add: refresh_keys_def find_key_def)
qed

theorem jwks_roundtrip_witness:
  "let pk = \<lparr>pk_N = 3233, pk_E = 17\<rparr>; c = NewJWKSCache ''bank-core-identity'' in
     find_key 7 (GetError '''') (snd (refresh_keys 5 (GetDone 200 (Some (jwks_document ''k1'' pk))) c)) ''k1'' = (Inr pk, c\<lparr>jw_keys := [''k1'' \<mapsto> pk], jw_lastRefresh := 5\<rparr>)"
proof -
  have "0 \<le> sint (pk_E \<lparr>pk_N = 3233, pk_E = 17\<rparr>)" by simp
  from jwks_roundtrip [OF this, of 5 "''k1''" "NewJWKSCache ''bank-core-identity''" 7 "GetError ''''"] show ?thesis by (simp add: Let_def)
qed

section \<open>limiter.go\<close>

text \<open>
  The Redis pipeline \<open>INCR key; EXPIRE key 2s\<close>: the new value of the counter, or \<open>None\<close> when Redis does not answer, and
  the state of the server.
\<close>

type_synonym 'r redis_exec = "time \<Rightarrow> string \<Rightarrow> 'r \<Rightarrow> int option \<times> 'r"

definition limiter_key :: "string \<Rightarrow> string \<Rightarrow> time \<Rightarrow> string" where
  "limiter_key subject route now = ''rl:'' @ subject @ '':'' @ route @ '':'' @ FormatInt (unix now)"

definition Allow :: "'r redis_exec \<Rightarrow> time \<Rightarrow> string \<Rightarrow> string \<Rightarrow> int \<Rightarrow> 'r \<Rightarrow> (gateway_err + bool) \<times> 'r" where
  "Allow exec now subject route limit r = (case exec now (limiter_key subject route now) r of
      (None, r') \<Rightarrow> (Inl (Opaque ''redis''), r')
    | (Some v, r') \<Rightarrow> (Inr (v \<le> limit), r'))"

text \<open>
  What Redis documents of the two commands. \<open>cnt r now key\<close> is the value a key has at a time: \<open>INCR\<close> returns a value
  above it and stores it, the key lives for the two seconds of \<open>EXPIRE\<close>, in which the pipeline does not lower it, and
  the other keys are not touched.
\<close>

definition redis_counts :: "'r redis_exec \<Rightarrow> ('r \<Rightarrow> time \<Rightarrow> string \<Rightarrow> int) \<Rightarrow> bool" where
  "redis_counts exec cnt \<longleftrightarrow>
     (\<forall>r now key. 0 \<le> cnt r now key)
   \<and> (\<forall>now key r v r'. exec now key r = (Some v, r') \<longrightarrow> cnt r now key < v
        \<and> (\<forall>now'. now \<le> now' \<and> now' < now + 2 * 1000000000 \<longrightarrow> v \<le> cnt r' now' key))
   \<and> (\<forall>now key r x r' now' key'. exec now key r = (x, r') \<and> now \<le> now' \<and> (key' = key \<longrightarrow> now' < now + 2 * 1000000000)
        \<longrightarrow> cnt r now' key' \<le> cnt r' now' key')"

text \<open>Requests one after the other: time, subject and route. \<open>limit\<close> is the limit of a route.\<close>

fun allow_all :: "'r redis_exec \<Rightarrow> (string \<Rightarrow> int) \<Rightarrow> (time \<times> string \<times> string) list \<Rightarrow> 'r \<Rightarrow> ((time \<times> string \<times> string) \<times> (gateway_err + bool)) list" where
  "allow_all exec limit [] r = []"
| "allow_all exec limit (c # cs) r = (case Allow exec (fst c) (fst (snd c)) (snd (snd c)) (limit (snd (snd c))) r of
      (res, r') \<Rightarrow> (c, res) # allow_all exec limit cs r')"

definition passed :: "string \<Rightarrow> string \<Rightarrow> int \<Rightarrow> ((time \<times> string \<times> string) \<times> (gateway_err + bool)) list \<Rightarrow> nat" where
  "passed subject route w log = length (filter (\<lambda>x. fst (snd (fst x)) = subject \<and> snd (snd (fst x)) = route \<and> unix (fst (fst x)) = w \<and> snd x = Inr True) log)"

lemma unix_window: "unix now = unix now' \<Longrightarrow> now \<le> now' \<Longrightarrow> now' < now + 2 * 1000000000"
  using mult_div_mod_eq [of 1000000000 now] mult_div_mod_eq [of 1000000000 now'] pos_mod_bound [of 1000000000 now'] pos_mod_sign [of 1000000000 now]
  by (simp add: unix_def)

lemma FormatInt_no_colon: "CHR '':'' \<notin> set (FormatInt x)"
  using dec_digits_props [of "nat x"] dec_digits_props [of "nat (- x)"] by (auto simp: FormatInt_def fmt_d_def list_all_iff is_digit_def)

lemma FormatInt_inj:
  assumes "FormatInt x = FormatInt y"
  shows "x = y"
proof -
  have digits: "dec_digits n \<noteq> CHR ''-'' # s" for n s using dec_digits_props [of n] is_digit_not_sign [of "CHR ''-''"] by auto
  have inj: "dec_digits n = dec_digits m \<Longrightarrow> n = m" for n m using dec_digits_props by metis
  show ?thesis using assms digits [of "nat x"] digits [of "nat y"] not_sym [OF digits [of "nat y"]] inj [of "nat x" "nat y"] inj [of "nat (- x)" "nat (- y)"]
    by (auto simp: FormatInt_def fmt_d_def split: if_splits)
qed

lemma limiter_key_second:
  assumes "limiter_key s rt now = limiter_key s' rt' now'"
  shows "unix now = unix now'"
proof -
  have tail: "takeWhile (\<lambda>c. c \<noteq> CHR '':'') (rev (limiter_key s rt now)) = rev (FormatInt (unix now))" for s rt now
  proof -
    have "takeWhile (\<lambda>c. c \<noteq> CHR '':'') (rev (FormatInt (unix now))) = rev (FormatInt (unix now))"
      using FormatInt_no_colon by (auto simp: takeWhile_eq_all_conv)
    then show ?thesis by (simp add: limiter_key_def takeWhile_append)
  qed
  have "rev (FormatInt (unix now)) = rev (FormatInt (unix now'))" using tail [of s rt now] tail [of s' rt' now'] assms by simp
  then show ?thesis using FormatInt_inj by simp
qed

lemma passed_bound:
  assumes "redis_counts exec cnt" and "sorted (map fst cs)" and "\<forall>c \<in> set cs. t0 \<le> fst c"
    and "\<And>now'. t0 \<le> now' \<Longrightarrow> unix now' = w \<Longrightarrow> n \<le> cnt r now' (limiter_key subject route now')"
  shows "passed subject route w (allow_all exec limit cs r) \<le> nat (limit route - n)"
  using assms(2-4)
proof (induction cs arbitrary: r t0 n)
  case Nil
  then show ?case by (simp add: passed_def)
next
  case (Cons c cs)
  obtain now s rt where c: "c = (now, s, rt)" by (metis surj_pair)
  obtain x r' where x: "exec now (limiter_key s rt now) r = (x, r')" by fastforce
  have later: "sorted (map fst cs)" "\<forall>c \<in> set cs. now \<le> fst c" using Cons.prems(1) by (auto simp: c)
  have keep: "n \<le> cnt r' now' (limiter_key subject route now')" if "now \<le> now'" "unix now' = w" for now'
  proof -
    have "limiter_key subject route now' = limiter_key s rt now \<longrightarrow> now' < now + 2 * 1000000000"
      using limiter_key_second [of subject route now' s rt now] unix_window [of now now'] that by metis
    then have "cnt r now' (limiter_key subject route now') \<le> cnt r' now' (limiter_key subject route now')"
      using x that(1) assms(1) unfolding redis_counts_def by blast
    moreover have "t0 \<le> now'" using Cons.prems(2) that(1) by (simp add: c)
    ultimately show ?thesis using Cons.prems(3) [of now'] that(2) by simp
  qed
  let ?hit = "s = subject \<and> rt = route \<and> unix now = w"
  show ?case
  proof (cases "?hit \<and> (\<exists>v. x = Some v \<and> v \<le> limit rt)")
    case False
    then have "passed subject route w (allow_all exec limit (c # cs) r) = passed subject route w (allow_all exec limit cs r')"
      using x by (auto simp: c passed_def Allow_def split: option.splits)
    then show ?thesis using Cons.IH [OF later keep] by simp
  next
    case True
    then obtain v where v: "x = Some v" "v \<le> limit route" and hit: "s = subject" "rt = route" "unix now = w" by blast
    have key: "limiter_key subject route now' = limiter_key subject route now" if "unix now' = w" for now' using that hit by (simp add: limiter_key_def)
    have "n < v" using Cons.prems(2,3) hit x v(1) assms(1) unfolding redis_counts_def by (metis c fst_conv list.set_intros(1) order_le_less_trans)
    moreover have "v \<le> cnt r' now' (limiter_key subject route now')" if "now \<le> now'" "unix now' = w" for now'
      using x v(1) hit key [OF that(2)] unix_window [of now now'] that assms(1) unfolding redis_counts_def by metis
    ultimately have "passed subject route w (allow_all exec limit cs r') \<le> nat (limit route - (n + 1))"
      by (intro Cons.IH [OF later]) fastforce
    moreover have "passed subject route w (allow_all exec limit (c # cs) r) = Suc (passed subject route w (allow_all exec limit cs r'))"
      using x v hit by (simp add: c passed_def Allow_def)
    ultimately show ?thesis using \<open>n < v\<close> v(2) by simp
  qed
qed

text \<open>
  C29. At most the limit per second: whatever else is requested, of the requests of one subject to one route in one second
  that the limiter answers, at most the limit of the route is allowed.
\<close>

theorem rate_limit_bound:
  assumes "redis_counts exec cnt" and "sorted (map fst cs)"
  shows "passed subject route w (allow_all exec limit cs r) \<le> nat (limit route)"
proof (cases "cs = []")
  case True
  then show ?thesis by (simp add: passed_def)
next
  case False
  have "\<forall>c \<in> set cs. fst (hd cs) \<le> fst c" using assms(2) False by (cases cs) auto
  moreover have "0 \<le> cnt r now' (limiter_key subject route now')" for now' using assms(1) by (simp add: redis_counts_def)
  ultimately show ?thesis using passed_bound [OF assms, of "fst (hd cs)" w 0 r subject route limit] by simp
qed

text \<open>A store with the documented behaviour: counters with their expiry.\<close>

definition stored_value :: "(string \<rightharpoonup> nat \<times> time) \<Rightarrow> time \<Rightarrow> string \<Rightarrow> int" where
  "stored_value r now key = (case r key of None \<Rightarrow> 0 | Some (n, expiry) \<Rightarrow> if now < expiry then int n else 0)"

definition incr_expire :: "(string \<rightharpoonup> nat \<times> time) redis_exec" where
  "incr_expire now key r = (let v = Suc (nat (stored_value r now key)) in (Some (int v), r(key \<mapsto> (v, now + 2 * 1000000000))))"

lemma incr_expire_counts: "redis_counts incr_expire stored_value"
  unfolding redis_counts_def by (auto simp: incr_expire_def stored_value_def Let_def split: option.splits if_splits)

theorem rate_limit_bound_witness:
  "let log = allow_all incr_expire (\<lambda>_. 2) [(0, ''ann'', ''GET /v1/rates''), (1, ''ann'', ''GET /v1/rates''), (2, ''ann'', ''GET /v1/rates'')] Map.empty in
     passed ''ann'' ''GET /v1/rates'' 0 log \<le> 2 \<and> map snd log = [Inr True, Inr True, Inr False]"
proof -
  let ?cs = "[(0, ''ann'', ''GET /v1/rates''), (1, ''ann'', ''GET /v1/rates''), (2, ''ann'', ''GET /v1/rates'')] :: (time \<times> string \<times> string) list"
  have "sorted (map fst ?cs)" by simp
  from rate_limit_bound [OF incr_expire_counts this, of "''ann''" "''GET /v1/rates''" 0 "\<lambda>_. 2" Map.empty]
  have "passed ''ann'' ''GET /v1/rates'' 0 (allow_all incr_expire (\<lambda>_. 2) ?cs Map.empty) \<le> 2" by simp
  moreover have "map snd (allow_all incr_expire (\<lambda>_. 2) ?cs Map.empty) = [Inr True, Inr True, Inr False]"
    by (simp add: Allow_def incr_expire_def stored_value_def limiter_key_def unix_def)
  ultimately show ?thesis by (simp only: Let_def)
qed

end
