(* ===== verification/Gateway.thy ===== *)
theory Gateway
  imports Gateway_Access Identity Account Transfer_Service
begin

text \<open>
  The REST edge (\<open>src/services/gateway/internal/adapters/http\<close>): problem bodies, the transfer objects, the middlewares,
  the handlers and the router. A handler makes one call to a service; the clients of \<open>adapters/grpcclients\<close> are a
  record of functions on the state behind them. Routing a path to a row of the table is the web framework's; the
  parsing of RFC 3339 times and the calendar are parameters.
\<close>

section \<open>Requests and responses\<close>

text \<open>
  Absent headers and query parameters are empty texts. \<open>rq_Body\<close> is \<open>None\<close> when the body is missing, too large or no JSON;
  \<open>rq_Param\<close> is the path parameter \<open>:id\<close>.
\<close>

record http_request =
  rq_Method :: string
  rq_Path :: string
  rq_Authorization :: string
  rq_IdempotencyKey :: string
  rq_RequestID :: string
  rq_Param :: string
  rq_Query :: "string \<Rightarrow> string"
  rq_Body :: "json option"
  rq_ClientIP :: string

record Problem =
  pr_Type :: string
  pr_Title :: string
  pr_Status :: nat
  pr_Code :: string
  pr_Detail :: string
  pr_Instance :: string
  pr_RequestID :: string

section \<open>dto.go\<close>

record MoneyDTO =
  md_MinorUnits :: int64
  md_Currency :: string

record UserDTO =
  ud_ID :: string
  ud_Email :: string
  ud_Name :: string
  ud_Phone :: string
  ud_Roles :: "string list"
  ud_CreatedAt :: time

definition userDTO :: "UserView \<Rightarrow> UserDTO" where
  "userDTO u = \<lparr>ud_ID = uv_ID u, ud_Email = uv_Email u, ud_Name = uv_Name u, ud_Phone = uv_Phone u, ud_Roles = uv_Roles u, ud_CreatedAt = uv_CreatedAt u\<rparr>"

record AccountDTO =
  ad_ID :: string
  ad_Number :: string
  ad_Currency :: string
  ad_Status :: string
  ad_OpenedAt :: time

record BalanceDTO =
  bd_Balance :: int64
  bd_Held :: int64
  bd_Available :: int64
  bd_AsOf :: time

record AccountWithBalanceDTO =
  awb_Account :: AccountDTO
  awb_Balance :: "BalanceDTO option"

definition accountDTO :: "AccountMsg \<Rightarrow> AccountDTO" where
  "accountDTO a = \<lparr>ad_ID = am_Id a, ad_Number = am_Number a, ad_Currency = am_Currency a, ad_Status = am_Status a, ad_OpenedAt = am_OpenedAt a\<rparr>"

definition accountWithBalanceDTO :: "AccountMsg \<times> BalanceView option \<Rightarrow> AccountWithBalanceDTO" where
  "accountWithBalanceDTO awb = \<lparr>awb_Account = accountDTO (fst awb),
     awb_Balance = map_option (\<lambda>b. \<lparr>bd_Balance = bv_Balance b, bd_Held = bv_Held b, bd_Available = bv_Available b, bd_AsOf = bv_AsOf b\<rparr>) (snd awb)\<rparr>"

record TransferDTO =
  td_ID :: string
  td_Type :: string
  td_State :: string
  td_FromAccountID :: string
  td_ToAccountID :: string
  td_Amount :: MoneyDTO
  td_CounterAmount :: "MoneyDTO option"
  td_AppliedRate :: string
  td_Reason :: string
  td_CreatedAt :: time
  td_UpdatedAt :: time

definition trimEnumPrefix :: "string \<Rightarrow> string \<Rightarrow> string" where
  "trimEnumPrefix s prefix = (if length prefix < length s \<and> take (length prefix) s = prefix then drop (length prefix) s else s)"

definition type_text :: "TransferType \<Rightarrow> string" where
  "type_text t = (case t of TRANSFER_TYPE_UNSPECIFIED \<Rightarrow> ''TRANSFER_TYPE_UNSPECIFIED'' | TRANSFER_TYPE_TOPUP \<Rightarrow> ''TRANSFER_TYPE_TOPUP''
     | TRANSFER_TYPE_INTERNAL \<Rightarrow> ''TRANSFER_TYPE_INTERNAL'' | TRANSFER_TYPE_P2P \<Rightarrow> ''TRANSFER_TYPE_P2P'')"

definition state_text :: "TransferState \<Rightarrow> string" where
  "state_text t = (case t of TRANSFER_STATE_UNSPECIFIED \<Rightarrow> ''TRANSFER_STATE_UNSPECIFIED'' | TRANSFER_STATE_CREATED \<Rightarrow> ''TRANSFER_STATE_CREATED''
     | TRANSFER_STATE_VALIDATING \<Rightarrow> ''TRANSFER_STATE_VALIDATING'' | TRANSFER_STATE_HELD \<Rightarrow> ''TRANSFER_STATE_HELD''
     | TRANSFER_STATE_POSTING \<Rightarrow> ''TRANSFER_STATE_POSTING'' | TRANSFER_STATE_COMPLETED \<Rightarrow> ''TRANSFER_STATE_COMPLETED''
     | TRANSFER_STATE_RELEASING \<Rightarrow> ''TRANSFER_STATE_RELEASING'' | TRANSFER_STATE_FAILED \<Rightarrow> ''TRANSFER_STATE_FAILED'')"

definition moneyDTO :: "Money \<Rightarrow> MoneyDTO" where
  "moneyDTO m = \<lparr>md_MinorUnits = MinorUnits m, md_Currency = MoneyCurrency m\<rparr>"

definition transferDTO :: "TransferView \<Rightarrow> TransferDTO" where
  "transferDTO t = \<lparr>td_ID = tv_Id t, td_Type = trimEnumPrefix (type_text (tv_Type t)) ''TRANSFER_TYPE_'', td_State = trimEnumPrefix (state_text (tv_State t)) ''TRANSFER_STATE_'',
     td_FromAccountID = tv_FromAccountId t, td_ToAccountID = tv_ToAccountId t, td_Amount = moneyDTO (tv_Amount t),
     td_CounterAmount = (case tv_CounterAmount t of None \<Rightarrow> None | Some ca \<Rightarrow> if MoneyCurrency ca \<noteq> '''' then Some (moneyDTO ca) else None),
     td_AppliedRate = tv_AppliedRate t, td_Reason = tv_Reason t, td_CreatedAt = tv_CreatedAt t, td_UpdatedAt = tv_UpdatedAt t\<rparr>"

text \<open>The objects local to handlers, and the bodies a response can have.\<close>

record txDTO =
  xd_EntryID :: string
  xd_Amount :: MoneyDTO
  xd_OccurredAt :: time

record rateDTO =
  rt_Pair :: string
  rt_Buy :: string
  rt_Sell :: string
  rt_ValidFrom :: time

datatype response_body = NoBody | PlainText string | ProblemJSON Problem | UserJSON UserDTO | LoginJSON string string int UserDTO | RefreshJSON string string int
  | AccountJSON AccountDTO | AccountsJSON "AccountWithBalanceDTO list" | TransactionsJSON "txDTO list" string
  | TransferJSON TransferDTO | TransfersJSON "TransferDTO list" string | RatesJSON "rateDTO list"

record http_response =
  rs_Status :: nat
  rs_Headers :: "(string \<times> string) list"
  rs_Body :: response_body

definition json_response :: "nat \<Rightarrow> response_body \<Rightarrow> http_response" where
  "json_response status body = \<lparr>rs_Status = status, rs_Headers = [], rs_Body = body\<rparr>"

section \<open>problem.go\<close>

text \<open>The application code and message of an error, after \<open>FromGRPC\<close> for one that is none.\<close>

definition problem_code :: "gateway_err \<Rightarrow> Code \<times> string" where
  "problem_code err = (case errors_As_app err of Some cm \<Rightarrow> cm
     | None \<Rightarrow> (case errors_As_app (FromGRPC err) of Some cm \<Rightarrow> cm | None \<Rightarrow> (CodeInternal, '''')))"

definition writeProblem :: "call_ctx \<Rightarrow> http_request \<Rightarrow> gateway_err \<Rightarrow> http_response" where
  "writeProblem ctx rq err = (case problem_code err of (code, message) \<Rightarrow>
     let status = HTTPStatus code; detail = (if code = CodeInternal then ''internal error'' else message)
     in \<lparr>rs_Status = status,
         rs_Headers = (if status = 429 then [(''Retry-After'', ''1'')] else []) @ [(''Content-Type'', ''application/problem+json'')],
         rs_Body = ProblemJSON \<lparr>pr_Type = ''https://bank-core.dev/errors/'' @ map lower_byte code, pr_Title = HTTPTitle code, pr_Status = status, pr_Code = code,
           pr_Detail = detail, pr_Instance = rq_Path rq, pr_RequestID = ctx_RequestID ctx\<rparr>\<rparr>)"

section \<open>clients.go\<close>

text \<open>The clients of the three services, as functions on the state \<open>'s\<close> behind them; an error is a gRPC status.\<close>

record 's backend =
  be_Register :: "call_ctx \<Rightarrow> string \<Rightarrow> string \<Rightarrow> string \<Rightarrow> string \<Rightarrow> 's \<Rightarrow> (gateway_err + UserView) \<times> 's"
  be_Login :: "call_ctx \<Rightarrow> string \<Rightarrow> string \<Rightarrow> 's \<Rightarrow> (gateway_err + TokenPair) \<times> 's"
  be_Refresh :: "call_ctx \<Rightarrow> string \<Rightarrow> 's \<Rightarrow> (gateway_err + TokenPair) \<times> 's"
  be_Logout :: "call_ctx \<Rightarrow> string \<Rightarrow> 's \<Rightarrow> (gateway_err + unit) \<times> 's"
  be_GetMe :: "call_ctx \<Rightarrow> 's \<Rightarrow> (gateway_err + UserView) \<times> 's"
  be_OpenAccount :: "call_ctx \<Rightarrow> string \<Rightarrow> 's \<Rightarrow> (gateway_err + AccountMsg) \<times> 's"
  be_ListAccountsByCustomer :: "call_ctx \<Rightarrow> string \<Rightarrow> 's \<Rightarrow> (gateway_err + (AccountMsg \<times> BalanceView option) list) \<times> 's"
  be_ListTransactions :: "call_ctx \<Rightarrow> string \<Rightarrow> time \<Rightarrow> time \<Rightarrow> int32 \<Rightarrow> string \<Rightarrow> 's \<Rightarrow> (gateway_err + TransactionView list \<times> string) \<times> 's"
  be_Freeze :: "call_ctx \<Rightarrow> string \<Rightarrow> string \<Rightarrow> 's \<Rightarrow> (gateway_err + AccountMsg) \<times> 's"
  be_Unfreeze :: "call_ctx \<Rightarrow> string \<Rightarrow> 's \<Rightarrow> (gateway_err + AccountMsg) \<times> 's"
  be_CreateTransfer :: "call_ctx \<Rightarrow> CreateTransferRequest \<Rightarrow> 's \<Rightarrow> (gateway_err + TransferView) \<times> 's"
  be_GetTransfer :: "call_ctx \<Rightarrow> string \<Rightarrow> 's \<Rightarrow> (gateway_err + TransferView) \<times> 's"
  be_ListTransfers :: "call_ctx \<Rightarrow> int32 \<Rightarrow> string \<Rightarrow> 's \<Rightarrow> (gateway_err + TransferView list \<times> string) \<times> 's"
  be_GetRates :: "call_ctx \<Rightarrow> 's \<Rightarrow> (gateway_err + (string \<times> string \<times> string \<times> time) list) \<times> 's"

section \<open>handlers.go\<close>

record gw_lib =
  gl_ParseRFC3339 :: "string \<Rightarrow> time option"
  gl_MonthBefore :: "time \<Rightarrow> time"

type_synonym 's gw_handler = "gw_lib \<Rightarrow> time \<Rightarrow> 's backend \<Rightarrow> call_ctx \<Rightarrow> http_request \<Rightarrow> 's \<Rightarrow> http_response \<times> 's"

text \<open>\<open>if err != nil { writeProblem(c, err); return }\<close>, and the answer otherwise.\<close>

definition answer :: "call_ctx \<Rightarrow> http_request \<Rightarrow> ('a \<Rightarrow> http_response) \<Rightarrow> (gateway_err + 'a) \<times> 's \<Rightarrow> http_response \<times> 's" where
  "answer ctx rq f res = (case res of (Inl err, s') \<Rightarrow> (writeProblem ctx rq err, s') | (Inr x, s') \<Rightarrow> (f x, s'))"

definition bindJSON :: "call_ctx \<Rightarrow> http_request \<Rightarrow> (json \<Rightarrow> 'b option) \<Rightarrow> http_response + 'b" where
  "bindJSON ctx rq decode = (case Option.bind (rq_Body rq) decode of
      None \<Rightarrow> Inl (writeProblem ctx rq (app_Wrap CodeInvalidArgument ''malformed request body'' (Opaque ''json'')))
    | Some b \<Rightarrow> Inr b)"

definition with_body :: "call_ctx \<Rightarrow> http_request \<Rightarrow> (json \<Rightarrow> 'b option) \<Rightarrow> ('b \<Rightarrow> 's \<Rightarrow> http_response \<times> 's) \<Rightarrow> 's \<Rightarrow> http_response \<times> 's" where
  "with_body ctx rq decode f s = (case bindJSON ctx rq decode of Inl p \<Rightarrow> (p, s) | Inr b \<Rightarrow> f b s)"

text \<open>A request struct whose fields are all strings.\<close>

definition text_field :: "string list \<Rightarrow> string \<Rightarrow> json \<Rightarrow> (string \<Rightarrow> string) \<Rightarrow> (string \<Rightarrow> string) option" where
  "text_field names k j b = (if k \<in> set names then map_option (\<lambda>t. b(k := t)) (json_text (b k) j) else Some b)"

definition json_texts :: "string list \<Rightarrow> json \<Rightarrow> (string \<Rightarrow> string) option" where
  "json_texts names = json_struct (text_field names) (\<lambda>_. '''')"

definition handleRegister :: "'s gw_handler" where
  "handleRegister lib now be ctx rq s = with_body ctx rq (json_texts [''email'', ''password'', ''name'', ''phone'']) (\<lambda>b s.
     answer ctx rq (\<lambda>u. json_response 201 (UserJSON (userDTO u))) (be_Register be ctx (b ''email'') (b ''password'') (b ''name'') (b ''phone'') s)) s"

text \<open>The getters of an absent user give zero values.\<close>

definition userDTO_of :: "UserView option \<Rightarrow> UserDTO" where
  "userDTO_of u = (case u of Some u \<Rightarrow> userDTO u
     | None \<Rightarrow> \<lparr>ud_ID = '''', ud_Email = '''', ud_Name = '''', ud_Phone = '''', ud_Roles = [], ud_CreatedAt = 0\<rparr>)"

definition handleLogin :: "'s gw_handler" where
  "handleLogin lib now be ctx rq s = with_body ctx rq (json_texts [''email'', ''password'']) (\<lambda>b s.
     answer ctx rq (\<lambda>p. json_response 200 (LoginJSON (tk_AccessToken p) (tk_RefreshToken p) (tk_ExpiresInSeconds p) (userDTO_of (tk_User p))))
       (be_Login be ctx (b ''email'') (b ''password'') s)) s"

definition handleRefresh :: "'s gw_handler" where
  "handleRefresh lib now be ctx rq s = with_body ctx rq (json_texts [''refresh_token'']) (\<lambda>b s.
     answer ctx rq (\<lambda>p. json_response 200 (RefreshJSON (tk_AccessToken p) (tk_RefreshToken p) (tk_ExpiresInSeconds p))) (be_Refresh be ctx (b ''refresh_token'') s)) s"

definition handleLogout :: "'s gw_handler" where
  "handleLogout lib now be ctx rq s = with_body ctx rq (json_texts [''refresh_token'']) (\<lambda>b s.
     answer ctx rq (\<lambda>_. json_response 204 NoBody) (be_Logout be ctx (b ''refresh_token'') s)) s"

definition handleGetMe :: "'s gw_handler" where
  "handleGetMe lib now be ctx rq s = answer ctx rq (\<lambda>u. json_response 200 (UserJSON (userDTO u))) (be_GetMe be ctx s)"

definition handleOpenAccount :: "'s gw_handler" where
  "handleOpenAccount lib now be ctx rq s = with_body ctx rq (json_texts [''currency'']) (\<lambda>b s.
     answer ctx rq (\<lambda>a. json_response 201 (AccountJSON (accountDTO a))) (be_OpenAccount be ctx (b ''currency'') s)) s"

definition handleListAccounts :: "'s gw_handler" where
  "handleListAccounts lib now be ctx rq s =
     answer ctx rq (\<lambda>as. json_response 200 (AccountsJSON (map accountWithBalanceDTO as))) (be_ListAccountsByCustomer be ctx '''' s)"

fun parse_digits :: "int \<Rightarrow> string \<Rightarrow> int \<Rightarrow> int" where
  "parse_digits def [] n = n"
| "parse_digits def (c # cs) n =
    (if \<not> is_digit c then def else let n' = n * 10 + int (digit_val c) in if 2 ^ 20 < n' then def else parse_digits def cs n')"

definition parseIntDefault :: "string \<Rightarrow> int \<Rightarrow> int" where
  "parseIntDefault s def = (if s = '''' then def else parse_digits def s 0)"

definition page_size :: "http_request \<Rightarrow> int \<Rightarrow> int \<Rightarrow> int32" where
  "page_size rq def bound = word_of_int (min (parseIntDefault (rq_Query rq ''page_size'') def) bound)"

text \<open>A query parameter that is an RFC 3339 time, with a default.\<close>

definition query_time :: "gw_lib \<Rightarrow> call_ctx \<Rightarrow> http_request \<Rightarrow> string \<Rightarrow> time \<Rightarrow> http_response + time" where
  "query_time lib ctx rq name def =
    (if rq_Query rq name = '''' then Inr def
     else case gl_ParseRFC3339 lib (rq_Query rq name) of
         None \<Rightarrow> Inl (writeProblem ctx rq (app_New CodeInvalidArgument (name @ '' must be RFC3339'')))
       | Some t \<Rightarrow> Inr t)"

definition txDTO_of :: "TransactionView \<Rightarrow> txDTO" where
  "txDTO_of t = \<lparr>xd_EntryID = txv_EntryID t, xd_Amount = \<lparr>md_MinorUnits = txv_Amount t, md_Currency = txv_Currency t\<rparr>, xd_OccurredAt = txv_OccurredAt t\<rparr>"

definition handleListTransactions :: "'s gw_handler" where
  "handleListTransactions lib now be ctx rq s =
    (case sum_bind (query_time lib ctx rq ''from'' (gl_MonthBefore lib now)) (\<lambda>since.
          sum_bind (query_time lib ctx rq ''to'' (now + 60 * 1000000000)) (\<lambda>till. Inr (since, till))) of
       Inl p \<Rightarrow> (p, s)
     | Inr (since, till) \<Rightarrow>
         answer ctx rq (\<lambda>(txs, cursor). json_response 200 (TransactionsJSON (map txDTO_of txs) cursor))
           (be_ListTransactions be ctx (rq_Param rq) since till (page_size rq 50 200) (rq_Query rq ''cursor'') s))"

subsection \<open>Transfers\<close>

record TransferBody =
  tb_Type :: string
  tb_FromAccountID :: string
  tb_ToAccountID :: string
  tb_ToAccountNumber :: string
  tb_MinorUnits :: int64
  tb_Currency :: string

definition no_transfer :: TransferBody where
  "no_transfer = \<lparr>tb_Type = '''', tb_FromAccountID = '''', tb_ToAccountID = '''', tb_ToAccountNumber = '''', tb_MinorUnits = 0, tb_Currency = ''''\<rparr>"

definition topup_field :: "string \<Rightarrow> json \<Rightarrow> TransferBody \<Rightarrow> TransferBody option" where
  "topup_field k j b =
    (if k = ''account_id'' then map_option (\<lambda>t. b\<lparr>tb_ToAccountID := t\<rparr>) (json_text (tb_ToAccountID b) j)
     else if k = ''minor_units'' then map_option (\<lambda>n. b\<lparr>tb_MinorUnits := n\<rparr>) (json_int64 (tb_MinorUnits b) j)
     else if k = ''currency'' then map_option (\<lambda>t. b\<lparr>tb_Currency := t\<rparr>) (json_text (tb_Currency b) j)
     else Some b)"

definition transfer_field :: "string \<Rightarrow> json \<Rightarrow> TransferBody \<Rightarrow> TransferBody option" where
  "transfer_field k j b =
    (if k = ''type'' then map_option (\<lambda>t. b\<lparr>tb_Type := t\<rparr>) (json_text (tb_Type b) j)
     else if k = ''from_account_id'' then map_option (\<lambda>t. b\<lparr>tb_FromAccountID := t\<rparr>) (json_text (tb_FromAccountID b) j)
     else if k = ''to_account_id'' then map_option (\<lambda>t. b\<lparr>tb_ToAccountID := t\<rparr>) (json_text (tb_ToAccountID b) j)
     else if k = ''to_account_number'' then map_option (\<lambda>t. b\<lparr>tb_ToAccountNumber := t\<rparr>) (json_text (tb_ToAccountNumber b) j)
     else if k = ''minor_units'' then map_option (\<lambda>n. b\<lparr>tb_MinorUnits := n\<rparr>) (json_int64 (tb_MinorUnits b) j)
     else if k = ''currency'' then map_option (\<lambda>t. b\<lparr>tb_Currency := t\<rparr>) (json_text (tb_Currency b) j)
     else Some b)"

text \<open>A terminal transfer is answered with 201, one that is still in flight with 202.\<close>

definition createTransfer_response :: "TransferView \<Rightarrow> http_response" where
  "createTransfer_response view = \<lparr>rs_Status = (if tv_State view \<in> {TRANSFER_STATE_COMPLETED, TRANSFER_STATE_FAILED} then 201 else 202),
     rs_Headers = [(''Location'', ''/v1/transfers/'' @ tv_Id view)], rs_Body = TransferJSON (transferDTO view)\<rparr>"

definition gw_createTransfer :: "'s backend \<Rightarrow> call_ctx \<Rightarrow> http_request \<Rightarrow> CreateTransferRequest \<Rightarrow> 's \<Rightarrow> http_response \<times> 's" where
  "gw_createTransfer be ctx rq req s = answer ctx rq createTransfer_response (be_CreateTransfer be ctx req s)"

definition handleTopup :: "'s gw_handler" where
  "handleTopup lib now be ctx rq s = with_body ctx rq (json_struct topup_field no_transfer) (\<lambda>b s.
     gw_createTransfer be ctx rq \<lparr>ctr_Type = TRANSFER_TYPE_TOPUP, ctr_FromAccountId = '''', ctr_ToAccountId = tb_ToAccountID b, ctr_ToAccountNumber = '''',
       ctr_Amount = \<lparr>MinorUnits = tb_MinorUnits b, MoneyCurrency = tb_Currency b\<rparr>\<rparr> s) s"

definition handleCreateTransfer :: "'s gw_handler" where
  "handleCreateTransfer lib now be ctx rq s = with_body ctx rq (json_struct transfer_field no_transfer) (\<lambda>b s.
     let create = (\<lambda>t. gw_createTransfer be ctx rq \<lparr>ctr_Type = t, ctr_FromAccountId = tb_FromAccountID b, ctr_ToAccountId = tb_ToAccountID b,
           ctr_ToAccountNumber = tb_ToAccountNumber b, ctr_Amount = \<lparr>MinorUnits = tb_MinorUnits b, MoneyCurrency = tb_Currency b\<rparr>\<rparr> s)
     in if tb_Type b = ''INTERNAL'' then create TRANSFER_TYPE_INTERNAL
        else if tb_Type b = ''P2P'' then create TRANSFER_TYPE_P2P
        else (writeProblem ctx rq (app_New CodeInvalidArgument (''type must be '' @ json_string ''INTERNAL'' @ '' or '' @ json_string ''P2P'')), s)) s"

definition handleGetTransfer :: "'s gw_handler" where
  "handleGetTransfer lib now be ctx rq s = answer ctx rq (\<lambda>t. json_response 200 (TransferJSON (transferDTO t))) (be_GetTransfer be ctx (rq_Param rq) s)"

definition handleListTransfers :: "'s gw_handler" where
  "handleListTransfers lib now be ctx rq s =
     answer ctx rq (\<lambda>(ts, cursor). json_response 200 (TransfersJSON (map transferDTO ts) cursor)) (be_ListTransfers be ctx (page_size rq 20 100) (rq_Query rq ''cursor'') s)"

definition handleGetRates :: "'s gw_handler" where
  "handleGetRates lib now be ctx rq s =
     answer ctx rq (\<lambda>rs. json_response 200 (RatesJSON (map (\<lambda>(pair, buy, sell, since). \<lparr>rt_Pair = pair, rt_Buy = buy, rt_Sell = sell, rt_ValidFrom = since\<rparr>) rs))) (be_GetRates be ctx s)"

subsection \<open>Administration\<close>

definition handleAdminListAccounts :: "'s gw_handler" where
  "handleAdminListAccounts lib now be ctx rq s =
     answer ctx rq (\<lambda>as. json_response 200 (AccountsJSON (map accountWithBalanceDTO as))) (be_ListAccountsByCustomer be ctx (rq_Param rq) s)"

text \<open>The body is optional and its error ignored: what could be decoded before, or in spite of, a field of the wrong type is kept.\<close>

definition bound_reason :: "json option \<Rightarrow> string" where
  "bound_reason body = (case body of
      Some (JObject kvs) \<Rightarrow> foldl (\<lambda>r (k, j). if fold_key k = ''reason'' then (case json_text r j of None \<Rightarrow> r | Some t \<Rightarrow> t) else r) '''' kvs
    | _ \<Rightarrow> '''')"

definition handleFreeze :: "'s gw_handler" where
  "handleFreeze lib now be ctx rq s =
     answer ctx rq (\<lambda>a. json_response 200 (AccountJSON (accountDTO a))) (be_Freeze be ctx (rq_Param rq) (bound_reason (rq_Body rq)) s)"

definition handleUnfreeze :: "'s gw_handler" where
  "handleUnfreeze lib now be ctx rq s = answer ctx rq (\<lambda>a. json_response 200 (AccountJSON (accountDTO a))) (be_Unfreeze be ctx (rq_Param rq) s)"

section \<open>middleware.go\<close>

text \<open>
  The configuration: the JWT library, the Redis pipeline and the limits. The state: the key cache and the Redis server.
  The inputs of a request: the clock, what a fetch of the keys would give, a fresh identifier.
\<close>

record 'r gateway_config =
  gc_Jwt :: jwt_lib
  gc_Redis :: "'r redis_exec"
  gc_Reads :: int
  gc_Writes :: int

record 'r gateway_state =
  gs_Jwks :: JWKSCache
  gs_Redis :: 'r

record gateway_env =
  ge_Now :: time
  ge_Fetch :: jwks_response
  ge_Uuid :: "string option"

definition requestIDMiddleware :: "gateway_env \<Rightarrow> http_request \<Rightarrow> string" where
  "requestIDMiddleware env rq = (if rq_RequestID rq \<noteq> '''' then rq_RequestID rq else text_or_empty (ge_Uuid env))"

definition securityHeaders :: "(string \<times> string) list" where
  "securityHeaders = [(''X-Content-Type-Options'', ''nosniff''), (''X-Frame-Options'', ''DENY''), (''Referrer-Policy'', ''no-referrer''), (''Cache-Control'', ''no-store'')]"

definition corsHeaders :: "(string \<times> string) list" where
  "corsHeaders = [(''Access-Control-Allow-Origin'', ''*''), (''Access-Control-Allow-Methods'', ''GET, POST, OPTIONS''),
     (''Access-Control-Allow-Headers'', ''Authorization, Content-Type, Idempotency-Key, X-Request-ID'')]"

text \<open>A middleware of a route: it ends the request with a response, or goes on with a context.\<close>

type_synonym 'r gw_middleware = "call_ctx \<Rightarrow> 'r gateway_state \<Rightarrow> (http_response + call_ctx) \<times> 'r gateway_state"

definition bearer :: string where "bearer = ''Bearer ''"

definition authMiddleware :: "'r gateway_config \<Rightarrow> gateway_env \<Rightarrow> http_request \<Rightarrow> 'r gw_middleware" where
  "authMiddleware cfg env rq ctx st =
    (let raw = rq_Authorization rq
     in if take (length bearer) raw \<noteq> bearer
        then (Inl (writeProblem ctx rq (app_New CodeUnauthenticated ''missing bearer token'')), st)
        else (case Validate (gc_Jwt cfg) (ge_Now env) (ge_Fetch env) (gs_Jwks st) (drop (length bearer) raw) of
            (Inl _, c') \<Rightarrow> (Inl (writeProblem ctx rq (app_New CodeUnauthenticated ''invalid or expired token'')), st\<lparr>gs_Jwks := c'\<rparr>)
          | (Inr claims, c') \<Rightarrow> (Inr (ctx\<lparr>ctx_Claims := \<lparr>cl_CustomerID = tc_UserID claims, cl_Roles = tc_Roles claims\<rparr>\<rparr>), st\<lparr>gs_Jwks := c'\<rparr>)))"

definition rbacMiddleware :: "http_request \<Rightarrow> Route \<Rightarrow> 'r gw_middleware" where
  "rbacMiddleware rq route ctx st =
    (if \<not> Allowed route (cl_Roles (ctx_Claims ctx)) then (Inl (writeProblem ctx rq (app_New CodeForbidden ''role not allowed for this route'')), st)
     else (Inr ctx, st))"

definition idempotencyKeyMiddleware :: "http_request \<Rightarrow> 'r gw_middleware" where
  "idempotencyKeyMiddleware rq ctx st =
    (if rq_IdempotencyKey rq = '''' then (Inl (writeProblem ctx rq (app_New CodeIdempotencyKeyRequired ''Idempotency-Key header is required'')), st)
     else (Inr (ctx\<lparr>ctx_IdempotencyKey := rq_IdempotencyKey rq\<rparr>), st))"

definition route_id :: "Route \<Rightarrow> string" where
  "route_id route = rt_Method route @ '' '' @ rt_Path route"

definition route_limit :: "'r gateway_config \<Rightarrow> Route \<Rightarrow> int" where
  "route_limit cfg route = (if rt_Class route = ClassTransfer then gc_Writes cfg else gc_Reads cfg)"

definition rateLimitMiddleware :: "'r gateway_config \<Rightarrow> gateway_env \<Rightarrow> http_request \<Rightarrow> Route \<Rightarrow> 'r gw_middleware" where
  "rateLimitMiddleware cfg env rq route ctx st =
    (let subject = (if cl_CustomerID (ctx_Claims ctx) = '''' then rq_ClientIP rq else cl_CustomerID (ctx_Claims ctx))
     in case Allow (gc_Redis cfg) (ge_Now env) subject (route_id route) (route_limit cfg route) (gs_Redis st) of
          (Inl _, r') \<Rightarrow> (Inr ctx, st\<lparr>gs_Redis := r'\<rparr>)
        | (Inr allowed, r') \<Rightarrow> (if \<not> allowed then Inl (writeProblem ctx rq (app_New CodeRateLimited ''rate limit exceeded'')) else Inr ctx, st\<lparr>gs_Redis := r'\<rparr>))"

definition timeoutFor :: "RouteClass \<Rightarrow> int" where
  "timeoutFor class = (case class of ClassTransfer \<Rightarrow> 5 * 1000000000 | ClassPublic \<Rightarrow> 3 * 1000000000 | ClassWrite \<Rightarrow> 3 * 1000000000 | ClassRead \<Rightarrow> 1000000000)"

section \<open>server.go\<close>

definition handlerTable :: "(string \<times> 's gw_handler) list" where
  "handlerTable =
    [(''POST /v1/auth/register'', handleRegister), (''POST /v1/auth/login'', handleLogin), (''POST /v1/auth/refresh'', handleRefresh), (''POST /v1/auth/logout'', handleLogout),
     (''GET /v1/customers/me'', handleGetMe), (''POST /v1/accounts'', handleOpenAccount), (''GET /v1/accounts'', handleListAccounts),
     (''GET /v1/accounts/:id/transactions'', handleListTransactions), (''POST /v1/topups'', handleTopup), (''POST /v1/transfers'', handleCreateTransfer),
     (''GET /v1/transfers/:id'', handleGetTransfer), (''GET /v1/transfers'', handleListTransfers), (''GET /v1/rates'', handleGetRates),
     (''GET /v1/admin/customers/:id/accounts'', handleAdminListAccounts), (''POST /v1/admin/accounts/:id/freeze'', handleFreeze),
     (''POST /v1/admin/accounts/:id/unfreeze'', handleUnfreeze)]"

fun run_chain :: "'r gw_middleware list \<Rightarrow> 'r gw_middleware" where
  "run_chain [] ctx st = (Inr ctx, st)"
| "run_chain (mw # mws) ctx st = (case mw ctx st of (Inl p, st') \<Rightarrow> (Inl p, st') | (Inr ctx', st') \<Rightarrow> run_chain mws ctx' st')"

definition route_chain :: "'r gateway_config \<Rightarrow> gateway_env \<Rightarrow> http_request \<Rightarrow> Route \<Rightarrow> 'r gw_middleware list" where
  "route_chain cfg env rq route = (if rt_Roles route \<noteq> [] then [authMiddleware cfg env rq, rbacMiddleware rq route] else [])
     @ [rateLimitMiddleware cfg env rq route] @ (if rt_Idempotency route then [idempotencyKeyMiddleware rq] else [])"

text \<open>\<open>Router\<close>: every row of the table with its handler; \<open>None\<close> is the panic for a row without one.\<close>

definition Router :: "(Route \<times> 's gw_handler) list option" where
  "Router = those (map (\<lambda>route. map_option (Pair route) (map_of handlerTable (route_id route))) Table)"

text \<open>
  A request that the framework has matched to a row of the table (or to none, which it answers with 404): the global
  middlewares, the chain of the row, its handler. The deadline of \<open>timeoutFor\<close> only decides how a call to a service can
  end. The health, metrics and specification routes outside the table are not modelled.
\<close>

definition serve :: "'r gateway_config \<Rightarrow> gateway_env \<Rightarrow> gw_lib \<Rightarrow> 's backend \<Rightarrow> Route \<times> 's gw_handler \<Rightarrow> call_ctx \<Rightarrow> http_request
     \<Rightarrow> 'r gateway_state \<Rightarrow> 's \<Rightarrow> http_response \<times> 'r gateway_state \<times> 's" where
  "serve cfg env lib be rh ctx rq st s = (case run_chain (route_chain cfg env rq (fst rh)) ctx st of
      (Inl p, st') \<Rightarrow> (p, st', s)
    | (Inr ctx', st') \<Rightarrow> (case snd rh lib (ge_Now env) be ctx' rq s of (resp, s') \<Rightarrow> (resp, st', s')))"

definition handle_request :: "'r gateway_config \<Rightarrow> gateway_env \<Rightarrow> gw_lib \<Rightarrow> 's backend \<Rightarrow> (Route \<times> 's gw_handler) option \<Rightarrow> http_request
     \<Rightarrow> 'r gateway_state \<Rightarrow> 's \<Rightarrow> http_response \<times> 'r gateway_state \<times> 's" where
  "handle_request cfg env lib be found rq st s =
    (let reqid = requestIDMiddleware env rq;
         ctx = \<lparr>ctx_RequestID = reqid, ctx_Claims = \<lparr>cl_CustomerID = '''', cl_Roles = []\<rparr>, ctx_IdempotencyKey = ''''\<rparr>;
         edge = (\<lambda>resp. resp\<lparr>rs_Headers := (''X-Request-ID'', reqid) # securityHeaders @ corsHeaders @ rs_Headers resp\<rparr>)
     in if rq_Method rq = ''OPTIONS'' then (edge (json_response 204 NoBody), st, s)
        else case found of None \<Rightarrow> (edge \<lparr>rs_Status = 404, rs_Headers = [(''Content-Type'', ''text/plain'')], rs_Body = PlainText ''404 page not found''\<rparr>, st, s)
          | Some rh \<Rightarrow> (case serve cfg env lib be rh ctx rq st s of (resp, st', s') \<Rightarrow> (edge resp, st', s')))"

end
