(* ===== verification/Gateway_Safety.thy ===== *)
theory Gateway_Safety
  imports Gateway Identity_Safety
begin

text \<open>
  What the gateway lets through: the router covers the table, a protected route is only served to a caller whose
  token is valid and carries one of its roles, tokens of customers never open a staff route, errors of the services
  reach the client with their code, and page sizes are bounded.
\<close>

section \<open>The router\<close>

lemma table_ids: "map fst (handlerTable :: (string \<times> 's gw_handler) list) = map route_id Table"
  by (simp add: handlerTable_def Table_def route_id_def)

lemma those_map_Some: "(\<And>x. x \<in> set xs \<Longrightarrow> f x \<noteq> None) \<Longrightarrow> those (map f xs) = Some (map (the \<circ> f) xs)"
proof (induction xs)
  case (Cons x xs)
  then obtain y where "f x = Some y" by fastforce
  then show ?case using Cons by simp
qed simp

lemma distinct_routes: "distinct (map route_id Table)"
  by code_simp

text \<open>
  The gateway starts, and serves exactly its table: every row of the access table has one handler and every handler
  a row, no two rows have the same method and path, and a row without roles is one of the four sign-in routes.
\<close>

theorem router_complete:
  "(Router :: (Route \<times> 's gw_handler) list option) \<noteq> None \<and> map fst (handlerTable :: (string \<times> 's gw_handler) list) = map route_id Table
     \<and> distinct (map route_id Table) \<and> map rt_Path (filter (\<lambda>r. rt_Roles r = []) Table) = [''/v1/auth/register'', ''/v1/auth/login'', ''/v1/auth/refresh'', ''/v1/auth/logout'']"
proof -
  have "map_of (handlerTable :: (string \<times> 's gw_handler) list) (route_id r) \<noteq> None" if "r \<in> set Table" for r
    using that arg_cong [OF table_ids, of set] by (auto simp: map_of_eq_None_iff)
  then have "(Router :: (Route \<times> 's gw_handler) list option) \<noteq> None" unfolding Router_def by (subst those_map_Some) auto
  moreover note distinct_routes
  moreover have "map rt_Path (filter (\<lambda>r. rt_Roles r = []) Table) = [''/v1/auth/register'', ''/v1/auth/login'', ''/v1/auth/refresh'', ''/v1/auth/logout'']" by code_simp
  ultimately show ?thesis using table_ids by blast
qed

section \<open>The chain of a route\<close>

definition refusal :: "string \<Rightarrow> http_response \<Rightarrow> bool" where
  "refusal code resp \<longleftrightarrow> (\<exists>p. rs_Body resp = ProblemJSON p \<and> pr_Code p = code \<and> pr_Status p = rs_Status resp)"

lemma writeProblem_app: "rs_Body (writeProblem ctx rq (app_New code m)) = ProblemJSON \<lparr>pr_Type = ''https://bank-core.dev/errors/'' @ map lower_byte code,
    pr_Title = HTTPTitle code, pr_Status = HTTPStatus code, pr_Code = code, pr_Detail = (if code = CodeInternal then ''internal error'' else m),
    pr_Instance = rq_Path rq, pr_RequestID = ctx_RequestID ctx\<rparr>" "rs_Status (writeProblem ctx rq (app_New code m)) = HTTPStatus code"
  by (simp_all add: writeProblem_def problem_code_def Let_def)

lemma writeProblem_refusal: "refusal code (writeProblem ctx rq (app_New code m))"
  by (simp add: refusal_def writeProblem_app)

text \<open>The identity the token proves, as the middlewares see it.\<close>

definition proves :: "'r gateway_config \<Rightarrow> gateway_env \<Rightarrow> JWKSCache \<Rightarrow> http_request \<Rightarrow> TokenClaims \<Rightarrow> bool" where
  "proves cfg env c rq claims \<longleftrightarrow> take (length bearer) (rq_Authorization rq) = bearer
     \<and> fst (Validate (gc_Jwt cfg) (ge_Now env) (ge_Fetch env) c (drop (length bearer) (rq_Authorization rq))) = Inr claims"

lemma authMiddleware_cases:
  assumes "authMiddleware cfg env rq ctx st = (res, st')"
  obtains (refused) p where "res = Inl p" "refusal CodeUnauthenticated p"
  | (proved) claims where "proves cfg env (gs_Jwks st) rq claims" "res = Inr (ctx\<lparr>ctx_Claims := \<lparr>cl_CustomerID = tc_UserID claims, cl_Roles = tc_Roles claims\<rparr>\<rparr>)"
  using assms
  by (auto simp: authMiddleware_def proves_def Let_def writeProblem_refusal split: if_splits prod.splits sum.splits)

lemma rateLimitMiddleware_cases:
  "rateLimitMiddleware cfg env rq route ctx st = (res, st') \<Longrightarrow> res = Inr ctx \<or> (\<exists>p. res = Inl p \<and> refusal CodeRateLimited p)"
  by (auto simp: rateLimitMiddleware_def Let_def writeProblem_refusal split: if_splits prod.splits sum.splits)

lemma Validate_user: "fst (Validate jl now resp c raw) = Inr claims \<Longrightarrow> tc_UserID claims \<noteq> ''''"
  by (auto simp: Validate_def split: option.splits sum.splits if_splits prod.splits)

lemma Allowed_iff: "Allowed route roles \<longleftrightarrow> rt_Roles route = [] \<or> set (rt_Roles route) \<inter> set roles \<noteq> {}"
  by (auto simp: Allowed_def list_ex_iff)

definition admitted_ctx :: "call_ctx \<Rightarrow> Route \<Rightarrow> http_request \<Rightarrow> TokenClaims \<Rightarrow> call_ctx" where
  "admitted_ctx ctx route rq claims = ctx\<lparr>ctx_Claims := \<lparr>cl_CustomerID = tc_UserID claims, cl_Roles = tc_Roles claims\<rparr>,
     ctx_IdempotencyKey := (if rt_Idempotency route then rq_IdempotencyKey rq else ctx_IdempotencyKey ctx)\<rparr>"

lemma run_route_chain:
  assumes "run_chain (route_chain cfg env rq route) ctx st = (res, st')" and "rt_Roles route \<noteq> []"
  obtains (refused) p code where "res = Inl p" "refusal code p" "code \<in> {CodeUnauthenticated, CodeForbidden, CodeRateLimited, CodeIdempotencyKeyRequired}"
  | (admitted) claims where "proves cfg env (gs_Jwks st) rq claims" "set (rt_Roles route) \<inter> set (tc_Roles claims) \<noteq> {}"
      "rt_Idempotency route \<Longrightarrow> rq_IdempotencyKey rq \<noteq> ''''" "res = Inr (admitted_ctx ctx route rq claims)"
proof -
  obtain r1 st1 where auth: "authMiddleware cfg env rq ctx st = (r1, st1)" by fastforce
  then show ?thesis
  proof (cases rule: authMiddleware_cases)
    case (refused p)
    then have "res = Inl p" using assms auth by (simp add: route_chain_def)
    then show ?thesis by (rule that(1) [OF _ refused(2)]) simp
  next
    case (proved claims)
    let ?ctx = "ctx\<lparr>ctx_Claims := \<lparr>cl_CustomerID = tc_UserID claims, cl_Roles = tc_Roles claims\<rparr>\<rparr>"
    show ?thesis
    proof (cases "Allowed route (tc_Roles claims)")
      case False
      then have "res = Inl (writeProblem ?ctx rq (app_New CodeForbidden ''role not allowed for this route''))"
        using assms auth proved by (simp add: route_chain_def rbacMiddleware_def)
      then show ?thesis by (rule that(1) [OF _ writeProblem_refusal]) simp
    next
      case True
      obtain r2 st2 where lim: "rateLimitMiddleware cfg env rq route ?ctx st1 = (r2, st2)" by fastforce
      then consider p where "r2 = Inl p" "refusal CodeRateLimited p" | "r2 = Inr ?ctx" using rateLimitMiddleware_cases by blast
      then show ?thesis
      proof cases
        case 1
        then have "res = Inl p" using assms auth proved True lim by (simp add: route_chain_def rbacMiddleware_def)
        then show ?thesis by (rule that(1) [OF _ 1(2)]) simp
      next
        case 2
        show ?thesis
        proof (cases "rt_Idempotency route \<and> rq_IdempotencyKey rq = ''''")
          case no_key: True
          then have "res = Inl (writeProblem ?ctx rq (app_New CodeIdempotencyKeyRequired ''Idempotency-Key header is required''))"
            using assms auth proved True lim 2 by (simp add: route_chain_def rbacMiddleware_def idempotencyKeyMiddleware_def)
          then show ?thesis by (rule that(1) [OF _ writeProblem_refusal]) simp
        next
          case key: False
          then have "res = Inr (admitted_ctx ctx route rq claims)"
            using assms auth proved True lim 2 by (auto simp: route_chain_def rbacMiddleware_def idempotencyKeyMiddleware_def admitted_ctx_def split: if_splits)
          then show ?thesis using that(2) [of claims] proved(1) True assms(2) key by (simp add: Allowed_iff)
        qed
      qed
    qed
  qed
qed

text \<open>The context of a request before its route's middlewares.\<close>

definition fresh_ctx :: "gateway_env \<Rightarrow> http_request \<Rightarrow> call_ctx" where
  "fresh_ctx env rq = \<lparr>ctx_RequestID = requestIDMiddleware env rq, ctx_Claims = \<lparr>cl_CustomerID = '''', cl_Roles = []\<rparr>, ctx_IdempotencyKey = ''''\<rparr>"

lemma handle_request_serve:
  assumes "handle_request cfg env lib be (Some (route, h)) rq st s = (resp, st', s')" and "rq_Method rq \<noteq> ''OPTIONS''"
  obtains resp0 where "serve cfg env lib be (route, h) (fresh_ctx env rq) rq st s = (resp0, st', s')" "rs_Body resp = rs_Body resp0" "rs_Status resp = rs_Status resp0"
  using assms by (auto simp: handle_request_def Let_def fresh_ctx_def split: prod.splits)

definition served_as :: "gateway_env \<Rightarrow> gw_lib \<Rightarrow> 's backend \<Rightarrow> Route \<times> 's gw_handler \<Rightarrow> http_request \<Rightarrow> 's \<Rightarrow> TokenClaims \<Rightarrow> response_body \<times> 's" where
  "served_as env lib be rh rq s claims =
    (case snd rh lib (ge_Now env) be (admitted_ctx (fresh_ctx env rq) (fst rh) rq claims) rq s of (r, s') \<Rightarrow> (rs_Body r, s'))"

lemma handle_request_cases:
  assumes "handle_request cfg env lib be (Some (route, h)) rq st s = (resp, st', s')" and "rq_Method rq \<noteq> ''OPTIONS''" and "rt_Roles route \<noteq> []"
  obtains (refused) code where "s' = s" "refusal code resp" "code \<in> {CodeUnauthenticated, CodeForbidden, CodeRateLimited, CodeIdempotencyKeyRequired}"
  | (admitted) claims where "proves cfg env (gs_Jwks st) rq claims" "tc_UserID claims \<noteq> ''''" "set (rt_Roles route) \<inter> set (tc_Roles claims) \<noteq> {}"
      "rt_Idempotency route \<Longrightarrow> rq_IdempotencyKey rq \<noteq> ''''" "(rs_Body resp, s') = served_as env lib be (route, h) rq s claims"
proof (rule handle_request_serve [OF assms(1,2)])
  fix resp0
  assume sv: "serve cfg env lib be (route, h) (fresh_ctx env rq) rq st s = (resp0, st', s')" and eq: "rs_Body resp = rs_Body resp0" "rs_Status resp = rs_Status resp0"
  obtain res st1 where run: "run_chain (route_chain cfg env rq route) (fresh_ctx env rq) st = (res, st1)" by fastforce
  then show ?thesis using assms(3)
  proof (cases rule: run_route_chain)
    case (refused p code)
    then have "s' = s" "refusal code resp" using sv run eq by (auto simp: serve_def refusal_def)
    then show ?thesis using refused(3) by (rule that(1))
  next
    case (admitted claims)
    have "(rs_Body resp, s') = served_as env lib be (route, h) rq s claims"
      using sv run eq admitted(4) by (auto simp: serve_def served_as_def split: prod.splits)
    moreover have "tc_UserID claims \<noteq> ''''" using admitted(1) Validate_user by (auto simp: proves_def)
    ultimately show ?thesis using that(2) admitted(1-3) by blast
  qed
qed

text \<open>
  C12. Nothing of a protected route runs for a stranger: a request to a route with roles is either refused with the problem
  UNAUTHENTICATED, FORBIDDEN, RATE_LIMITED or IDEMPOTENCY_KEY_REQUIRED, and then no service is called, or its bearer token
  is valid, carries one of the roles of the route, comes with an idempotency key where the route demands one, and the
  handler runs with exactly the identity of the token, whatever else the request says.
\<close>

theorem gateway_guarded:
  assumes "handle_request cfg env lib be (Some (route, h)) rq st s = (resp, st', s')" and "rq_Method rq \<noteq> ''OPTIONS''" and "rt_Roles route \<noteq> []"
  shows "(s' = s \<and> list_ex (\<lambda>code. refusal code resp) [CodeUnauthenticated, CodeForbidden, CodeRateLimited, CodeIdempotencyKeyRequired])
    \<or> (\<exists>claims. proves cfg env (gs_Jwks st) rq claims \<and> tc_UserID claims \<noteq> '''' \<and> set (rt_Roles route) \<inter> set (tc_Roles claims) \<noteq> {}
        \<and> (rt_Idempotency route \<longrightarrow> rq_IdempotencyKey rq \<noteq> '''')
        \<and> (rs_Body resp, s') = served_as env lib be (route, h) rq s claims)"
  using assms
proof (cases rule: handle_request_cases)
  case (refused code)
  then show ?thesis by auto
qed blast

section \<open>Tokens of identity\<close>

text \<open>The claims of an access token as the library hands them over, and that it hands over what was signed.\<close>

definition claims_map :: "AccessClaims \<Rightarrow> MapClaims" where
  "claims_map c = [''iss'' \<mapsto> JText (jc_Iss c), ''sub'' \<mapsto> JText (jc_Sub c), ''sid'' \<mapsto> JText (jc_Sid c), ''roles'' \<mapsto> JArray (map JText (jc_Roles c)),
     ''iat'' \<mapsto> JInt (jc_Iat c), ''exp'' \<mapsto> JInt (jc_Exp c)]"

definition verifies_signed :: "jwt_lib \<Rightarrow> sign_lib \<Rightarrow> bool" where
  "verifies_signed jl sign \<longleftrightarrow> (\<forall>kid c raw now iss k mc. sign kid c = Inr raw \<longrightarrow> jl_Check jl now iss k raw = Some mc \<longrightarrow> mc = claims_map c)"

lemma texts_of_map: "texts_of (map JText ts) = ts"
  by (induction ts) auto

lemma token_claims_map: "token_claims (claims_map c) = \<lparr>tc_UserID = jc_Sub c, tc_SessionID = jc_Sid c, tc_Roles = jc_Roles c\<rparr>"
  by (simp add: token_claims_def claims_map_def claim_text_def texts_of_map)

lemma Validate_signed:
  assumes "verifies_signed jl sign" and "sign kid c = Inr raw" and "fst (Validate jl now resp cache raw) = Inr claims"
  shows "tc_UserID claims = jc_Sub c \<and> tc_Roles claims = jc_Roles c"
proof -
  obtain k mc where "jl_Check jl now (jw_issuer cache) k raw = Some mc" "claims = token_claims mc"
    using assms(3) by (auto simp: Validate_def split: option.splits sum.splits if_splits prod.splits)
  then show ?thesis using assms(1,2) token_claims_map by (fastforce simp: verifies_signed_def)
qed

lemma Login_user:
  assumes "Login lib sign sg env email password ip userAgent s = (Inr pair, s')"
  shows "\<exists>u roles. tk_User pair = Some (userView u roles) \<and> SignAccess sign sg (se_Now env) (us_ID u) (se_Family env) (q_GetRoles s (us_ID u)) = Inr (tk_AccessToken pair)"
  using assms by (clarsimp simp: Login_def Let_def split: sum.splits if_splits prod.splits) blast

lemma chain_closed:
  assumes "run_chain (route_chain cfg env rq route) ctx st = (res, st')" and "rt_Roles route \<noteq> []"
    and "\<And>claims. proves cfg env (gs_Jwks st) rq claims \<Longrightarrow> \<not> Allowed route (tc_Roles claims)"
  shows "\<exists>p. res = Inl p \<and> (refusal CodeUnauthenticated p \<or> refusal CodeForbidden p)"
proof -
  obtain r1 st1 where auth: "authMiddleware cfg env rq ctx st = (r1, st1)" by fastforce
  then show ?thesis
  proof (cases rule: authMiddleware_cases)
    case (proved claims)
    then show ?thesis using assms auth writeProblem_refusal by (auto simp: route_chain_def rbacMiddleware_def)
  qed (use assms(1,2) auth in \<open>auto simp: route_chain_def\<close>)
qed

lemma customer_token_claims:
  assumes "identity_reachable db" and "Login lib sign sg senv email password ip userAgent db = (Inr pair, db')"
    and "tk_User pair = Some uv" and "uv_ID uv \<noteq> seeded_admin" and "verifies_signed (gc_Jwt cfg) sign"
    and "rq_Authorization rq = bearer @ tk_AccessToken pair" and "proves cfg env c rq claims"
  shows "tc_UserID claims = uv_ID uv \<and> set (tc_Roles claims) \<subseteq> {RoleCustomer}"
proof -
  obtain u roles where u: "tk_User pair = Some (userView u roles)"
    and signed: "SignAccess sign sg (se_Now senv) (us_ID u) (se_Family senv) (q_GetRoles db (us_ID u)) = Inr (tk_AccessToken pair)"
    using Login_user [OF assms(2)] by blast
  have uid: "uv_ID uv = us_ID u" using u assms(3) by (simp add: userView_def)
  have "roles_ok db" using identity_reachable_inv [OF assms(1)] by (simp add: identity_inv_def)
  from SignAccess_for [OF signed this] obtain sid rs where tok: "sign (sg_Kid sg) \<lparr>jc_Iss = sg_Issuer sg, jc_Sub = us_ID u, jc_Sid = sid, jc_Roles = rs,
      jc_Iat = unix (se_Now senv), jc_Exp = unix (se_Now senv + sint (sg_AccessTTL sg))\<rparr> = Inr (tk_AccessToken pair)" and rs: "set rs \<subseteq> {RoleCustomer}"
    using assms(4) uid by (auto simp: token_for_def)
  show ?thesis using Validate_signed [OF assms(5) tok] assms(6,7) uid rs by (auto simp: proves_def)
qed

text \<open>
  C17. A customer cannot act as staff, from sign-in to the service: with the access token of any login to a reachable
  identity database, other than the seeded administrator's, a route that is not open to customers answers
  UNAUTHENTICATED or FORBIDDEN and calls no service; and if a request is served at all, it is served as the user who
  signed in, with no role but customer.
\<close>

theorem customer_token_confined:
  assumes "identity_reachable db" and "Login lib sign sg senv email password ip userAgent db = (Inr pair, db')"
    and "tk_User pair = Some uv" and "uv_ID uv \<noteq> seeded_admin" and "verifies_signed (gc_Jwt cfg) sign"
    and "rq_Authorization rq = bearer @ tk_AccessToken pair" and "rq_Method rq \<noteq> ''OPTIONS''" and "rt_Roles route \<noteq> []"
    and "handle_request cfg env glib be (Some (route, h)) rq st s = (resp, st', s')"
  shows "(RoleCustomer \<notin> set (rt_Roles route) \<longrightarrow> s' = s \<and> (refusal CodeUnauthenticated resp \<or> refusal CodeForbidden resp))
    \<and> (\<forall>claims. proves cfg env (gs_Jwks st) rq claims \<longrightarrow> tc_UserID claims = uv_ID uv \<and> set (tc_Roles claims) \<subseteq> {RoleCustomer})"
proof -
  note token = customer_token_claims [OF assms(1-6)]
  have "s' = s \<and> (refusal CodeUnauthenticated resp \<or> refusal CodeForbidden resp)" if closed: "RoleCustomer \<notin> set (rt_Roles route)"
  proof (rule handle_request_serve [OF assms(9,7)])
    fix resp0
    assume sv: "serve cfg env glib be (route, h) (fresh_ctx env rq) rq st s = (resp0, st', s')" and eq: "rs_Body resp = rs_Body resp0" "rs_Status resp = rs_Status resp0"
    obtain res st1 where run: "run_chain (route_chain cfg env rq route) (fresh_ctx env rq) st = (res, st1)" by fastforce
    have "\<not> Allowed route (tc_Roles claims)" if "proves cfg env (gs_Jwks st) rq claims" for claims
      using token [OF that] closed assms(8) by (auto simp: Allowed_iff)
    then obtain p where "res = Inl p" "refusal CodeUnauthenticated p \<or> refusal CodeForbidden p" using chain_closed [OF run assms(8)] by blast
    then show ?thesis using sv run eq by (auto simp: serve_def refusal_def)
  qed
  then show ?thesis using token by blast
qed

section \<open>Errors\<close>


section \<open>Page sizes\<close>

lemma parse_digits_value:
  assumes "0 \<le> n" "n \<le> 2 ^ 20"
  shows "parse_digits def s n = (if list_all is_digit s \<and> n * 10 ^ length s + int (dec_val s) \<le> 2 ^ 20 then n * 10 ^ length s + int (dec_val s) else def)"
  using assms
proof (induction s arbitrary: n)
  case (Cons c cs)
  let ?n = "n * 10 + int (digit_val c)"
  have val: "n * 10 ^ length (c # cs) + int (dec_val (c # cs)) = ?n * 10 ^ length cs + int (dec_val cs)"
    using dec_val_append [of "[c]" cs] by (simp add: dec_val_def algebra_simps)
  show ?case
  proof (cases "is_digit c \<and> ?n \<le> 2 ^ 20")
    case True
    then show ?thesis using Cons.IH [of ?n] Cons.prems(1) val by (simp add: Let_def)
  next
    case False
    moreover have "?n \<le> ?n * 10 ^ length cs + int (dec_val cs)" using Cons.prems(1) by (simp add: add_increasing2 mult_le_cancel_left1)
    ultimately show ?thesis using val by (auto simp: Let_def)
  qed
qed simp

definition requested :: "int \<Rightarrow> string \<Rightarrow> int" where
  "requested def s = (if s = '''' \<or> \<not> list_all is_digit s \<or> 2 ^ 20 < int (dec_val s) then def else int (dec_val s))"

lemma parseIntDefault_requested: "parseIntDefault s def = requested def s"
  using parse_digits_value [of 0 def s] by (auto simp: parseIntDefault_def requested_def)

lemma sint_int32: "0 \<le> x \<Longrightarrow> x \<le> 1048576 \<Longrightarrow> sint (word_of_int x :: int32) = x"
  by (simp add: signed_of_int signed_take_bit_int_eq_self)

text \<open>
  C38. A client cannot ask for a page larger than the bound, and gets what it asks for below it: the page size sent on is
  the requested number, or the default for a text that is no number of at most \<open>2 ^ 20\<close>, cut off at the bound; no
  conversion wraps, so the sizes are never negative.
\<close>

theorem page_size_exact:
  "sint (page_size rq 50 200) = min (requested 50 (rq_Query rq ''page_size'')) 200 \<and> 0 \<le> sint (page_size rq 50 200) \<and> sint (page_size rq 50 200) \<le> 200
   \<and> sint (page_size rq 20 100) = min (requested 20 (rq_Query rq ''page_size'')) 100 \<and> 0 \<le> sint (page_size rq 20 100) \<and> sint (page_size rq 20 100) \<le> 100"
proof -
  have "0 \<le> requested def s" if "0 \<le> def" for def s using that by (simp add: requested_def)
  then have "sint (page_size rq def b) = min (requested def (rq_Query rq ''page_size'')) b" if "0 \<le> def" "0 \<le> b" "b \<le> 1048576" for def b
    using that unfolding page_size_def parseIntDefault_requested by (intro sint_int32) auto
  note eq = this [of 50 200] this [of 20 100]
  show ?thesis using eq \<open>\<And>s def. 0 \<le> def \<Longrightarrow> 0 \<le> requested def s\<close> [of 50] \<open>\<And>s def. 0 \<le> def \<Longrightarrow> 0 \<le> requested def s\<close> [of 20] by simp
qed

end
