(* ===== verification/Platform.thy ===== *)
theory Platform
  imports Gateway_Safety Account_Opening
begin

text \<open>
  The gateway in front of the services it calls: the clients of
  \<open>src/services/gateway/internal/adapters/grpcclients/clients.go\<close> over the models of identity, account, transfer and
  ledger, and what a customer can read through all of them.
\<close>

section \<open>The services behind the gateway\<close>

record platform =
  pf_Identity :: identity_db
  pf_Accounts :: account_db
  pf_Bank :: bank

definition on_identity :: "(identity_db \<Rightarrow> 'a \<times> identity_db) \<Rightarrow> platform \<Rightarrow> 'a \<times> platform" where
  "on_identity f s = (case f (pf_Identity s) of (x, d) \<Rightarrow> (x, s\<lparr>pf_Identity := d\<rparr>))"

definition on_accounts :: "(account_db \<Rightarrow> 'a \<times> account_db) \<Rightarrow> platform \<Rightarrow> 'a \<times> platform" where
  "on_accounts f s = (case f (pf_Accounts s) of (x, d) \<Rightarrow> (x, s\<lparr>pf_Accounts := d\<rparr>))"

definition on_bank :: "(bank \<Rightarrow> 'a \<times> bank) \<Rightarrow> platform \<Rightarrow> 'a \<times> platform" where
  "on_bank f s = (case f (pf_Bank s) of (x, d) \<Rightarrow> (x, s\<lparr>pf_Bank := d\<rparr>))"

text \<open>What identity and transfer are configured with.\<close>

record platform_config =
  pg_Lib :: identity_lib
  pg_Sign :: sign_lib
  pg_Signer :: signer
  pg_Sha256hex :: "string \<Rightarrow> string"
  pg_HoldTTL :: duration

text \<open>
  The inputs of one attempt of a call: what the network does to it, what others commit before the service executes it,
  and the inputs of the execution.
\<close>

record platform_call =
  pc_Fate :: fate
  pc_Others :: "platform \<Rightarrow> platform"
  pc_Now :: time
  pc_Salt :: "string option"
  pc_Tx :: tx_env
  pc_Session :: session_env
  pc_Open :: open_env
  pc_Between :: "account_db \<Rightarrow> account_db"
  pc_Ledger :: ledger_call
  pc_LedgerRetries :: "ledger_call list"
  pc_Load :: "infra_err option"
  pc_Drive :: "drive_env list"

section \<open>clients.go\<close>

definition retryableReads :: "string list" where
  "retryableReads =
    [''/bank.identity.v1.IdentityService/GetMe'', ''/bank.identity.v1.IdentityService/ListSessions'',
     ''/bank.account.v1.AccountService/GetAccount'', ''/bank.account.v1.AccountService/ListAccountsByCustomer'',
     ''/bank.account.v1.AccountService/ResolveByNumber'', ''/bank.account.v1.AccountService/GetBalances'',
     ''/bank.account.v1.AccountService/ListTransactions'', ''/bank.transfer.v1.TransferService/GetTransfer'',
     ''/bank.transfer.v1.TransferService/ListTransfers'', ''/bank.transfer.v1.TransferService/GetRates'']"

text \<open>The context of the caller as the service's interceptors restore it.\<close>

definition hop :: "call_ctx \<Rightarrow> call_ctx" where
  "hop ctx = claimsInterceptor (propagationInterceptor ctx [])"

text \<open>A call through the chain of \<open>grpcx.Dial\<close>: only the methods listed are attempted again.\<close>

definition platform_rpc :: "string \<Rightarrow> (platform_call \<Rightarrow> call_ctx \<Rightarrow> platform \<Rightarrow> ('f goerr + 'a) \<times> platform)
     \<Rightarrow> platform_call \<times> platform_call list \<Rightarrow> call_ctx \<Rightarrow> platform \<Rightarrow> (gateway_err + 'a) \<times> platform" where
  "platform_rpc meth handler cs ctx s = retryInterceptor (if meth \<in> set retryableReads then maxAttempts else 1)
     (\<lambda>c. invoke (pc_Fate c) (\<lambda>s. handler c (hop ctx) (pc_Others c s))) (fst cs) (snd cs) s"

text \<open>The handlers that read two stores, or whose loop may meet the deadline.\<close>

definition exec_OpenAccount :: "string \<Rightarrow> platform_call \<Rightarrow> call_ctx \<Rightarrow> platform \<Rightarrow> (account_err + AccountMsg) \<times> platform" where
  "exec_OpenAccount currency c ctx s = (case server_OpenAccount (pc_Open c) ctx currency (pf_Accounts s, ledger (pf_Bank s)) of
     (res, a, l) \<Rightarrow> (res, s\<lparr>pf_Accounts := a, pf_Bank := (pf_Bank s)\<lparr>ledger := l\<rparr>\<rparr>))"

definition exec_ListTransactions :: "string \<Rightarrow> time \<Rightarrow> time \<Rightarrow> int32 \<Rightarrow> string \<Rightarrow> platform_call \<Rightarrow> call_ctx \<Rightarrow> platform
     \<Rightarrow> (account_err + TransactionView list \<times> string) \<times> platform" where
  "exec_ListTransactions accountID since till pageSize cursor c ctx s =
    (case server_ListTransactions (pc_Ledger c) (pc_LedgerRetries c) (pc_Now c) ctx (pf_Accounts s) accountID (Some since) (Some till) pageSize cursor (ledger (pf_Bank s)) of
       (res, l) \<Rightarrow> (res, s\<lparr>pf_Bank := (pf_Bank s)\<lparr>ledger := l\<rparr>\<rparr>))"

definition exec_CreateTransfer :: "platform_config \<Rightarrow> CreateTransferRequest \<Rightarrow> platform_call \<Rightarrow> call_ctx \<Rightarrow> platform \<Rightarrow> (transfer_err + TransferView) \<times> platform" where
  "exec_CreateTransfer cf req c ctx =
    on_bank (\<lambda>w. case server_CreateTransfer (pg_Sha256hex cf) (pg_HoldTTL cf) (pc_Tx c) (pc_Load c) (pc_Drive c) ctx req w of
       (None, w') \<Rightarrow> (Inl (transport_error DeadlineExceeded ''deadline exceeded''), w')
     | (Some res, w') \<Rightarrow> (res, w'))"

definition Dial :: "platform_config \<Rightarrow> platform_call \<times> platform_call list \<Rightarrow> platform backend" where
  "Dial cf cs = \<lparr>
     be_Register = (\<lambda>ctx email password name phone. platform_rpc ''/bank.identity.v1.IdentityService/Register''
       (\<lambda>c ctx. on_identity (server_Register (pg_Lib cf) (pc_Salt c) (pc_Tx c) email password name phone)) cs ctx),
     be_Login = (\<lambda>ctx email password. platform_rpc ''/bank.identity.v1.IdentityService/Login''
       (\<lambda>c ctx. on_identity (server_Login (pg_Lib cf) (pg_Sign cf) (pg_Signer cf) (pc_Session c) email password)) cs ctx),
     be_Refresh = (\<lambda>ctx token. platform_rpc ''/bank.identity.v1.IdentityService/Refresh''
       (\<lambda>c ctx. on_identity (server_Refresh (pg_Lib cf) (pg_Sign cf) (pg_Signer cf) (pc_Session c) token)) cs ctx),
     be_Logout = (\<lambda>ctx token. platform_rpc ''/bank.identity.v1.IdentityService/Logout''
       (\<lambda>c ctx. on_identity (server_Logout (pg_Lib cf) (pc_Session c) token)) cs ctx),
     be_GetMe = (\<lambda>ctx. platform_rpc ''/bank.identity.v1.IdentityService/GetMe''
       (\<lambda>c ctx. on_identity (\<lambda>d. (server_GetMe ctx d, d))) cs ctx),
     be_OpenAccount = (\<lambda>ctx currency. platform_rpc ''/bank.account.v1.AccountService/OpenAccount'' (exec_OpenAccount currency) cs ctx),
     be_ListAccountsByCustomer = (\<lambda>ctx userID. platform_rpc ''/bank.account.v1.AccountService/ListAccountsByCustomer''
       (\<lambda>c ctx. on_accounts (\<lambda>d. (map_sum (\<lambda>err. err) (map (map_prod (\<lambda>a. a) Some)) (server_ListAccountsByCustomer ctx d userID), d))) cs ctx),
     be_ListTransactions = (\<lambda>ctx accountID since till pageSize cursor. platform_rpc ''/bank.account.v1.AccountService/ListTransactions''
       (exec_ListTransactions accountID since till pageSize cursor) cs ctx),
     be_Freeze = (\<lambda>ctx accountID reason. platform_rpc ''/bank.account.v1.AccountService/Freeze''
       (\<lambda>c ctx. on_accounts (server_Freeze (pc_Tx c) (pc_Between c) ctx accountID)) cs ctx),
     be_Unfreeze = (\<lambda>ctx accountID. platform_rpc ''/bank.account.v1.AccountService/Unfreeze''
       (\<lambda>c ctx. on_accounts (server_Unfreeze (pc_Tx c) (pc_Between c) ctx accountID)) cs ctx),
     be_CreateTransfer = (\<lambda>ctx req. platform_rpc ''/bank.transfer.v1.TransferService/CreateTransfer'' (exec_CreateTransfer cf req) cs ctx),
     be_GetTransfer = (\<lambda>ctx ident. platform_rpc ''/bank.transfer.v1.TransferService/GetTransfer''
       (\<lambda>c ctx. on_bank (\<lambda>w. (server_GetTransfer ctx (sagas w) ident, w))) cs ctx),
     be_ListTransfers = (\<lambda>ctx pageSize cursor. platform_rpc ''/bank.transfer.v1.TransferService/ListTransfers''
       (\<lambda>c ctx. on_bank (\<lambda>w. (server_ListTransfers (pc_Now c) ctx (sagas w) pageSize cursor, w))) cs ctx),
     be_GetRates = (\<lambda>ctx. platform_rpc ''/bank.transfer.v1.TransferService/GetRates''
       (\<lambda>c ctx. on_bank (\<lambda>w. (Inr (server_GetRates (pc_Now c) (sagas w)) :: transfer_err + (string \<times> string \<times> string \<times> time) list, w))) cs ctx)\<rparr>"

section \<open>What a customer reads\<close>

lemma platform_rpc_answer:
  assumes "platform_rpc meth handler cs ctx s = (res, s')"
    and "\<And>c s s' x. handler c (hop ctx) s = (Inr x, s') \<Longrightarrow> Q x s'"
  shows "case res of Inl _ \<Rightarrow> True | Inr x \<Rightarrow> Q x s'"
proof -
  have "True \<and> (case res of Inl _ \<Rightarrow> True | Inr x \<Rightarrow> Q x s')"
  proof (rule retryInterceptor_invariant [where P = "\<lambda>_. True" and Q = "\<lambda>res s'. case res of Inl _ \<Rightarrow> True | Inr x \<Rightarrow> Q x s'"])
    show "case res of Inl _ \<Rightarrow> True | Inr x \<Rightarrow> Q x s'" if "invoke (pc_Fate c) (\<lambda>s. handler c (hop ctx) (pc_Others c s)) s0 = (res, s')" for c s0 res s'
      using that assms(2) by (auto simp: invoke_def split: fate.splits prod.splits sum.splits)
  qed (use assms(1) in \<open>simp_all add: platform_rpc_def\<close>)
  then show ?thesis ..
qed

text \<open>The context of an admitted customer, at the service.\<close>

definition customer_ctx :: "string \<Rightarrow> call_ctx \<Rightarrow> bool" where
  "customer_ctx uid ctx \<longleftrightarrow> cl_CustomerID (ctx_Claims ctx) = uid \<and> uid \<noteq> '''' \<and> set (cl_Roles (ctx_Claims ctx)) \<subseteq> {RoleCustomer}"

lemma hop_customer:
  assumes "customer_ctx uid ctx"
  shows "cl_CustomerID (ctx_Claims (hop ctx)) = uid" and "\<not> IsStaff (ctx_Claims (hop ctx))"
proof -
  have "role_ok RoleCustomer" by (simp add: role_ok_def is_space_def)
  then have "hop ctx = ctx" using assms claims_propagated [of ctx] by (auto simp: hop_def customer_ctx_def)
  then show "cl_CustomerID (ctx_Claims (hop ctx)) = uid" "\<not> IsStaff (ctx_Claims (hop ctx))"
    using assms by (auto simp: customer_ctx_def IsStaff_def HasRole_def list_ex_iff)
qed

definition own_transfer :: "platform \<Rightarrow> string \<Rightarrow> string \<Rightarrow> bool" where
  "own_transfer s uid ident \<longleftrightarrow> list_ex (\<lambda>r. tr_ID r = ident \<and> tr_CustomerID r = uid) (transfers (sagas (pf_Bank s)))"

text \<open>A body a read may show to the user: \<open>ident\<close> is the account in the path.\<close>

definition own_body :: "string \<Rightarrow> string \<Rightarrow> platform \<Rightarrow> response_body \<Rightarrow> bool" where
  "own_body uid ident s body = (case body of
      UserJSON u \<Rightarrow> ud_ID u = uid
    | AccountsJSON as \<Rightarrow> list_all (\<lambda>a. owned_by (pf_Accounts s) uid (ad_ID (awb_Account a))) as
    | TransactionsJSON _ _ \<Rightarrow> owned_by (pf_Accounts s) uid ident
    | TransferJSON t \<Rightarrow> own_transfer s uid (td_ID t)
    | TransfersJSON ts _ \<Rightarrow> list_all (\<lambda>t. own_transfer s uid (td_ID t)) ts
    | RatesJSON _ \<Rightarrow> True
    | ProblemJSON _ \<Rightarrow> True
    | _ \<Rightarrow> False)"

lemma own_body_problem [simp]: "own_body uid ident s (rs_Body (writeProblem ctx rq err))"
  by (auto simp: own_body_def writeProblem_def Let_def split: prod.splits)

lemma answer_own:
  assumes "answer ctx rq f (platform_rpc meth handler cs ctx s) = (r, s')"
    and "\<And>c s s' x. handler c (hop ctx) s = (Inr x, s') \<Longrightarrow> own_body uid ident s' (rs_Body (f x))"
  shows "own_body uid ident s' (rs_Body r)"
proof -
  obtain res s1 where res: "platform_rpc meth handler cs ctx s = (res, s1)" by fastforce
  from platform_rpc_answer [OF this, of "\<lambda>x s'. own_body uid ident s' (rs_Body (f x))"] assms(2)
  show ?thesis using assms(1) res by (auto simp: answer_def split: sum.splits)
qed

lemma GetMe_own:
  assumes "customer_ctx uid ctx" and "handleGetMe lib now (Dial cf cs) ctx rq s = (r, s')"
  shows "own_body uid ident s' (rs_Body r)"
  using assms(2) unfolding handleGetMe_def Dial_def backend.simps
  by (rule answer_own) (auto simp: on_identity_def server_GetMe_def identity_edge_def GetMe_def hop_customer [OF assms(1)] json_response_def own_body_def
      userDTO_def userView_def q_GetUserByID_def map_left_def split: sum.splits if_splits prod.splits dest!: select_one_Some)

lemma ListAccounts_own:
  assumes "customer_ctx uid ctx" and "handleListAccounts lib now (Dial cf cs) ctx rq s = (r, s')"
  shows "own_body uid ident s' (rs_Body r)"
  using assms(2) unfolding handleListAccounts_def Dial_def backend.simps
proof (rule answer_own)
  fix c s s' x
  assume "on_accounts (\<lambda>d. (map_sum (\<lambda>err. err) (map (map_prod (\<lambda>a. a) Some)) (server_ListAccountsByCustomer (hop ctx) d ''''), d)) s = (Inr x, s')"
  then obtain xs where xs: "ListAccounts (ctx_Claims (hop ctx)) (pf_Accounts s') '''' = Inr xs" "x = map (\<lambda>y. (account_toProto (fst y), Some (snd y))) xs"
    by (auto simp: on_accounts_def server_ListAccountsByCustomer_def account_edge_def case_prod_beta split: sum.splits)
  show "own_body uid ident s' (rs_Body (json_response 200 (AccountsJSON (map accountWithBalanceDTO x))))"
    using ListAccounts_owned [OF xs(1) hop_customer(2) [OF assms(1)]] hop_customer(1) [OF assms(1)]
    by (auto simp: xs(2) own_body_def json_response_def list_all_iff accountWithBalanceDTO_def accountDTO_def account_toProto_def)
qed

lemma ListTransactions_own:
  assumes "customer_ctx uid ctx" and "handleListTransactions lib now (Dial cf cs) ctx rq s = (r, s')"
  shows "own_body uid (rq_Param rq) s' (rs_Body r)"
proof (cases "sum_bind (query_time lib ctx rq ''from'' (gl_MonthBefore lib now)) (\<lambda>since.
          sum_bind (query_time lib ctx rq ''to'' (now + 60 * 1000000000)) (\<lambda>till. Inr (since, till)))")
  case (Inl p)
  then have "own_body uid ident s' (rs_Body p)" for ident s' by (auto simp: query_time_def split: sum.splits if_splits option.splits)
  then show ?thesis using assms(2) Inl by (simp add: handleListTransactions_def)
next
  case (Inr range)
  then have "answer ctx rq (\<lambda>(txs, cursor). json_response 200 (TransactionsJSON (map txDTO_of txs) cursor))
      (platform_rpc ''/bank.account.v1.AccountService/ListTransactions''
        (exec_ListTransactions (rq_Param rq) (fst range) (snd range) (page_size rq 50 200) (rq_Query rq ''cursor'')) cs ctx s) = (r, s')"
    using assms(2) by (simp add: handleListTransactions_def Dial_def case_prod_beta)
  then show ?thesis
  proof (rule answer_own)
    fix c s s' x
    assume "exec_ListTransactions (rq_Param rq) (fst range) (snd range) (page_size rq 50 200) (rq_Query rq ''cursor'') c (hop ctx) s = (Inr x, s')"
    then obtain v where "account_GetAccount (ctx_Claims (hop ctx)) (pf_Accounts s') (rq_Param rq) = Inr v"
      by (auto simp: exec_ListTransactions_def server_ListTransactions_def ListTransactions_def account_edge_def split: prod.splits sum.splits)
    then have "owned_by (pf_Accounts s') uid (rq_Param rq)"
      using GetAccount_owned hop_customer [OF assms(1)] by (fastforce simp: owned_by_def list_ex_iff)
    then show "own_body uid (rq_Param rq) s' (rs_Body (case x of (txs, cursor) \<Rightarrow> json_response 200 (TransactionsJSON (map txDTO_of txs) cursor)))"
      by (auto simp: own_body_def json_response_def split: prod.splits)
  qed
qed

lemma GetTransfer_own:
  assumes "customer_ctx uid ctx" and "handleGetTransfer lib now (Dial cf cs) ctx rq s = (r, s')"
  shows "own_body uid ident s' (rs_Body r)"
  using assms(2) unfolding handleGetTransfer_def Dial_def backend.simps
  by (rule answer_own) (auto simp: on_bank_def server_GetTransfer_def transfer_edge_def GetTransfer_def hop_customer [OF assms(1)] json_response_def own_body_def
      transferDTO_def ToProto_def own_transfer_def list_ex_iff store_GetTransfer_Inr split: sum.splits if_splits dest!: select_one_Some)

lemma ListTransfers_own:
  assumes "customer_ctx uid ctx" and "handleListTransfers lib now (Dial cf cs) ctx rq s = (r, s')"
  shows "own_body uid ident s' (rs_Body r)"
  using assms(2) unfolding handleListTransfers_def Dial_def backend.simps
proof (rule answer_own)
  fix c s s' x
  assume "on_bank (\<lambda>w. (server_ListTransfers (pc_Now c) (hop ctx) (sagas w) (page_size rq 20 100) (rq_Query rq ''cursor''), w)) s = (Inr x, s')"
  then obtain rows nxt where rows: "ListTransfers (pc_Now c) (ctx_Claims (hop ctx)) (sagas (pf_Bank s')) (page_size rq 20 100) (rq_Query rq ''cursor'') = Inr (rows, nxt)"
    "x = (map ToProto rows, nxt)" by (auto simp: on_bank_def server_ListTransfers_def transfer_edge_def split: sum.splits)
  have own: "own_transfer s' uid (t_ID t)" if "t \<in> set (store_ListTransfersByCustomer (sagas (pf_Bank s')) uid n since k)" for t n since k
    using that by (auto simp: own_transfer_def list_ex_iff store_ListTransfersByCustomer_def q_ListTransfersByCustomer_def limit_rows_def dest!: in_set_takeD)
  obtain n t k where "set rows \<subseteq> set (store_ListTransfersByCustomer (sagas (pf_Bank s')) uid n t k)"
    using rows(1) by (auto simp: ListTransfers_def Let_def sum_bind_Inr_iff hop_customer [OF assms(1)] split: if_splits dest: in_set_takeD)
  then have "own_transfer s' uid (t_ID t)" if "t \<in> set rows" for t using that own by blast
  then show "own_body uid ident s' (rs_Body (case x of (ts, cursor) \<Rightarrow> json_response 200 (TransfersJSON (map transferDTO ts) cursor)))"
    by (auto simp: rows(2) own_body_def json_response_def list_all_iff transferDTO_def ToProto_def)
qed

lemma GetRates_own: "handleGetRates lib now (Dial cf cs) ctx rq s = (r, s') \<Longrightarrow> own_body uid ident s' (rs_Body r)"
  unfolding handleGetRates_def Dial_def backend.simps
  by (rule answer_own) (auto simp: own_body_def json_response_def)

lemmas reads_own = GetMe_own ListAccounts_own ListTransactions_own GetTransfer_own ListTransfers_own

text \<open>The rows of the router that only read.\<close>

lemma those_map_of:
  assumes "map fst ps = map f xs" and "distinct (map f xs)"
  shows "those (map (\<lambda>x. map_option (Pair x) (map_of ps (f x))) xs) = Some (zip xs (map snd ps))"
  using assms
proof (induction xs arbitrary: ps)
  case (Cons x xs)
  then obtain p ps' where ps: "ps = p # ps'" "fst p = f x" "map fst ps' = map f xs" by (cases ps) auto
  have "f y \<noteq> f x" if "y \<in> set xs" for y using that Cons.prems(2) by (metis distinct.simps(2) image_eqI list.set_map list.simps(9))
  then have "those (map (\<lambda>y. map_option (Pair y) (map_of ps (f y))) xs) = those (map (\<lambda>y. map_option (Pair y) (map_of ps' (f y))) xs)"
    using ps(1,2) by (intro arg_cong [where f = those] map_cong) (simp_all add: map_of_Cons_code)
  then show ?case using Cons ps by (auto simp: map_of_Cons_code)
qed simp

lemma Router_zip: "(Router :: (Route \<times> 's gw_handler) list option) = Some (zip Table (map snd handlerTable))"
  unfolding Router_def using table_ids distinct_routes by (rule those_map_of)

lemma read_rows:
  assumes "Router = Some rows" and "(route, h) \<in> set rows" and "rt_Method route = ''GET''"
  shows "RoleCustomer \<notin> set (rt_Roles route)
     \<or> h = handleGetMe \<or> h = handleListAccounts \<or> h = handleListTransactions \<or> h = handleGetTransfer \<or> h = handleListTransfers \<or> h = handleGetRates"
  using assms unfolding Router_zip by (auto simp: Table_def handlerTable_def staffOnly_def)


end
