(* ===== verification/Platform_Examples.thy ===== *)
theory Platform_Examples
  imports Platform Saga Account_Examples Identity_Examples
begin

text \<open>A worked run of the whole platform: a customer signs in, lists their accounts, and tries to freeze one.\<close>

section \<open>Signing in\<close>

definition ann_hash :: string where
  "ann_hash = phc_text ''salt'' (lib_argon2 toy_lib ''password'' ''salt'' 2 19456 1 32)"

definition signed_up :: "string \<Rightarrow> identity_db" where
  "signed_up hash = (case registerTx (session_tx ''user-1'') ''ann@bank.kz'' hash ''Ann'' '''' (initial_identity 0) of Inr (_, s) \<Rightarrow> s | Inl _ \<Rightarrow> initial_identity 0)"

text \<open>The one token that is ever issued here, and a library that accepts exactly it.\<close>

definition ann_claims :: AccessClaims where
  "ann_claims = \<lparr>jc_Iss = ''bank-core'', jc_Sub = ''user-1'', jc_Sid = ''fam'', jc_Roles = [''customer''], jc_Iat = 0, jc_Exp = 900\<rparr>"

definition one_sign :: sign_lib where
  "one_sign kid c = (if c = ann_claims then Inr ''tok'' else Inl (Opaque ''sign''))"

definition one_jwt :: jwt_lib where
  "one_jwt = \<lparr>jl_Kid = (\<lambda>raw. Some ''k1''), jl_Check = (\<lambda>now iss k raw. if raw = ''tok'' then Some (claims_map ann_claims) else None)\<rparr>"

lemma one_verifies: "verifies_signed one_jwt one_sign"
  by (auto simp: verifies_signed_def one_jwt_def one_sign_def split: if_splits)

definition ann_login :: "(identity_err + TokenPair) \<times> identity_db" where
  "ann_login = Login toy_lib one_sign toy_signer (at_session ''s1'') ''ann@bank.kz'' ''password'' '''' '''' (signed_up ann_hash)"

lemma ann_verified: "verifyPassword toy_lib ''password'' ann_hash = Inr True"
  using verifyPassword_phc [of toy_lib "''password''" "''salt''" "''password''"] by (simp add: ann_hash_def toy_lib_def)

lemma ann_row: "case q_GetUserByEmail (signed_up hash) (ToLower toy_lib (TrimText toy_lib ''ann@bank.kz'')) of
    Inl _ \<Rightarrow> False | Inr u \<Rightarrow> us_PasswordHash u = hash \<and> us_ID u = ''user-1'' \<and> q_GetRoles (signed_up hash) ''user-1'' = [''customer'']"
  by code_simp

lemma ann_session:
  "isl (fst (statement (se_Tx (at_session ''s1'')) (q_CreateSession (se_Tx (at_session ''s1'')) \<lparr>cs_UserID = ''user-1'', cs_FamilyID = ''fam'', cs_RefreshHash = ''#'',
      cs_RotatedFrom = None, cs_ExpiresAt = 2592000000002000, cs_Ip = '''', cs_UserAgent = ''''\<rparr>) (signed_up hash)) :: identity_err + _) = False"
  by code_simp

lemma ann_signed_in:
  obtains pair s uv where "ann_login = (Inr pair, s)" "tk_AccessToken pair = ''tok''" "tk_User pair = Some uv" "uv_ID uv = ''user-1''"
proof -
  obtain u where u: "q_GetUserByEmail (signed_up ann_hash) (ToLower toy_lib (TrimText toy_lib ''ann@bank.kz'')) = Inr u"
    "us_PasswordHash u = ann_hash" "us_ID u = ''user-1''" "q_GetRoles (signed_up ann_hash) ''user-1'' = [''customer'']"
    using ann_row [of ann_hash] by (auto split: sum.splits)
  obtain x s' where ses: "statement (se_Tx (at_session ''s1'')) (q_CreateSession (se_Tx (at_session ''s1'')) \<lparr>cs_UserID = ''user-1'', cs_FamilyID = ''fam'',
      cs_RefreshHash = ''#'', cs_RotatedFrom = None, cs_ExpiresAt = 2592000000002000, cs_Ip = '''', cs_UserAgent = ''''\<rparr>) (signed_up ann_hash) = (Inr x :: identity_err + _, s')"
    using ann_session [of ann_hash] by (metis eq_fst_iff isl_def old.sum.exhaust)
  have run: "newRefreshToken toy_lib (se_Draw (at_session ''s1'')) = Inr ('''', ''#'')" "se_Family (at_session ''s1'') = ''fam''" "se_Between (at_session ''s1'') s = s"
    "se_Now (at_session ''s1'') + sint (sg_RefreshTTL toy_signer) = 2592000000002000"
    "SignAccess one_sign toy_signer (se_Now (at_session ''s1'')) ''user-1'' ''fam'' [''customer''] = Inr ''tok''" for s
    by code_simp+
  let ?pair = "\<lparr>tk_AccessToken = ''tok'', tk_RefreshToken = '''', tk_ExpiresInSeconds = expires_in toy_signer, tk_User = Some (userView u [''customer''])\<rparr>"
  have "ann_login = (Inr ?pair, s')" using u ses by (simp add: ann_login_def Login_def ann_verified run Let_def)
  then show ?thesis using that [of ?pair s' "userView u [''customer'']"] u(3) by (simp add: userView_def)
qed

lemma ann_reachable: "identity_reachable (signed_up hash)"
proof -
  have "identity_step\<^sup>*\<^sup>* (initial_identity 0) (signed_up hash)"
    by (auto simp: signed_up_def split: sum.splits intro: identity_step.register)
  then show ?thesis unfolding identity_reachable_def by blast
qed

section \<open>Requests\<close>

definition edge_config :: "(string \<rightharpoonup> nat \<times> time) gateway_config" where
  "edge_config = \<lparr>gc_Jwt = one_jwt, gc_Redis = incr_expire, gc_Reads = 20, gc_Writes = 5\<rparr>"

definition edge_state :: "(string \<rightharpoonup> nat \<times> time) gateway_state" where
  "edge_state = \<lparr>gs_Jwks = (NewJWKSCache ''bank-core'')\<lparr>jw_keys := [''k1'' \<mapsto> \<lparr>pk_N = 3233, pk_E = 17\<rparr>]\<rparr>, gs_Redis = Map.empty\<rparr>"

definition edge_env :: gateway_env where
  "edge_env = \<lparr>ge_Now = 3000, ge_Fetch = GetError ''down'', ge_Uuid = Some ''rq-1''\<rparr>"

definition edge_lib :: gw_lib where
  "edge_lib = \<lparr>gl_ParseRFC3339 = (\<lambda>_. None), gl_MonthBefore = (\<lambda>t. t - 2592000 * 1000000000)\<rparr>"

definition ann_asks :: "string \<Rightarrow> string \<Rightarrow> string \<Rightarrow> http_request" where
  "ann_asks mt path ident = \<lparr>rq_Method = mt, rq_Path = path, rq_Authorization = bearer @ ''tok'', rq_IdempotencyKey = '''', rq_RequestID = '''', rq_Param = ident,
     rq_Query = (\<lambda>_. ''''), rq_Body = None, rq_ClientIP = ''10.0.0.1''\<rparr>"

definition calm_call :: platform_call where
  "calm_call = \<lparr>pc_Fate = Delivered, pc_Others = (\<lambda>s. s), pc_Now = 3000, pc_Salt = None, pc_Tx = session_tx ''x'', pc_Session = at_session ''x'', pc_Open = demo_open,
     pc_Between = (\<lambda>s. s), pc_Ledger = demo_call, pc_LedgerRetries = [], pc_Load = None, pc_Drive = []\<rparr>"

definition whole :: "string \<Rightarrow> platform" where
  "whole hash = \<lparr>pf_Identity = signed_up hash, pf_Accounts = two_owners, pf_Bank = \<lparr>sagas = initial_transfer_db, ledger = initial_db 0\<rparr>\<rparr>"

definition whole_config :: platform_config where
  "whole_config = \<lparr>pg_Lib = toy_lib, pg_Sign = one_sign, pg_Signer = toy_signer, pg_Sha256hex = (\<lambda>x. x), pg_HoldTTL = 0\<rparr>"

definition ask :: "string \<Rightarrow> nat \<Rightarrow> platform gw_handler \<Rightarrow> string \<Rightarrow> http_response \<times> (string \<rightharpoonup> nat \<times> time) gateway_state \<times> platform" where
  "ask hash row h ident = handle_request edge_config edge_env edge_lib (Dial whole_config (calm_call, [])) (Some (Table ! row, h))
     (ann_asks (rt_Method (Table ! row)) (rt_Path (Table ! row)) ident) edge_state (whole hash)"

lemma listed: "case ask hash 6 handleListAccounts '''' of (resp, _, _) \<Rightarrow> rs_Status resp = 200 \<and> (case rs_Body resp of AccountsJSON [a] \<Rightarrow> ad_ID (awb_Account a) = ''alice'' | _ \<Rightarrow> False)"
  by code_simp



lemma rows:
  "rt_Method (Table ! 6) = ''GET''" "rt_Method (Table ! 14) = ''POST''" "rt_Roles (Table ! 6) = anyAuthed" "rt_Roles (Table ! 14) = staffOnly"
  "(Table ! 6, handleListAccounts) \<in> set (zip Table (map snd handlerTable))"
  by (simp_all add: Table_def handlerTable_def)

lemma ann_asks_simps: "rq_Method (ann_asks mt path ident) = mt" "rq_Param (ann_asks mt path ident) = ident" "rq_Authorization (ann_asks mt path ident) = bearer @ ''tok''"
  by (simp_all add: ann_asks_def)

lemma edge_verifies: "verifies_signed (gc_Jwt edge_config) one_sign"
  by (simp add: edge_config_def one_verifies)

theorem gateway_guarded_witness:
  "case ask '''' 6 handleListAccounts '''' of (resp, _, s') \<Rightarrow>
     \<exists>claims. proves edge_config edge_env (gs_Jwks edge_state) (ann_asks ''GET'' (rt_Path (Table ! 6)) '''') claims \<and> set anyAuthed \<inter> set (tc_Roles claims) \<noteq> {}
       \<and> (rs_Body resp, s') = served_as edge_env edge_lib (Dial whole_config (calm_call, [])) (Table ! 6, handleListAccounts)
           (ann_asks ''GET'' (rt_Path (Table ! 6)) '''') (whole '''') claims"
proof -
  obtain resp st' s' where a: "ask '''' 6 handleListAccounts '''' = (resp, st', s')" by (metis surj_pair)
  have "\<not> refusal code resp" for code using listed [of "''''"] a by (auto simp: refusal_def)
  then show ?thesis using gateway_guarded [OF a [unfolded ask_def]] a by (auto simp: rows ann_asks_simps anyAuthed_def)
qed

theorem customer_token_confined_witness:
  "case ask ann_hash 14 handleFreeze ''alice'' of (resp, _, s') \<Rightarrow> s' = whole ann_hash \<and> (refusal CodeUnauthenticated resp \<or> refusal CodeForbidden resp)"
proof -
  obtain resp st' s' where a: "ask ann_hash 14 handleFreeze ''alice'' = (resp, st', s')" by (metis surj_pair)
  obtain pair s1 uv where p: "ann_login = (Inr pair, s1)" "tk_AccessToken pair = ''tok''" "tk_User pair = Some uv" "uv_ID uv = ''user-1''" by (rule ann_signed_in)
  have "uv_ID uv \<noteq> seeded_admin" by (simp add: p(4) seeded_admin_def)
  from customer_token_confined [OF ann_reachable p(1) [unfolded ann_login_def] p(3) this edge_verifies _ _ _ a [unfolded ask_def]]
  show ?thesis by (simp add: a rows ann_asks_simps p(2) staffOnly_def)
qed


end
