(* ===== verification/Spec2Isabelle.thy ===== *)
theory Spec2Isabelle
  imports Money Ledger_Safety Ledger_Server Ledger_Examples Saga_Examples Account_Examples Identity_Examples Antifraud_Freeze Notification Platform_Examples
begin

text \<open>
  A verification development of bank-core, a retail bank core of seven Go services.

  \<^bold>\<open>The program.\<close> A REST gateway (\<open>src/services/gateway\<close>) authenticates requests and calls three services over gRPC:
  \<open>identity\<close> (users, passwords, refresh sessions, access tokens), \<open>account\<close> (the registry of accounts and a projection of
  their balances) and \<open>transfer\<close> (a saga that moves money). \<open>account\<close> and \<open>transfer\<close> call the \<open>ledger\<close>, a double-entry
  journal with balances and holds, which alone owns the money. Each service writes its events into an outbox table in the
  transaction that causes them; a relay publishes them to Kafka; \<open>account\<close>, \<open>antifraud\<close> and \<open>notification\<close> consume them,
  with deduplication in the transaction of the handler. \<open>antifraud\<close> scores completed transfers, and its alerts make
  \<open>account\<close> freeze accounts. The packages under \<open>src/pkg\<close> are shared.

  \<^bold>\<open>How code is modelled.\<close> A service's database is a record of tables, a table a list of rows (records with the columns of
  \<open>db/models.go\<close>), and a query of \<open>queries.sql.go\<close> a function \<open>q_<name>\<close> that returns rows, a count, or a constraint
  violation. A use case is a function from its inputs and the database to a result and the new database; an error is a value
  of \<open>'e goerr\<close> (theory \<open>Go_Errors\<close>), whose parameter is the package's sentinel errors, and wrapping, \<open>errors.Is\<close> and
  \<open>errors.As\<close> act on it as in Go. Integers are 64- and 32-bit words, compared signed; instants are nanoseconds as \<open>int\<close>;
  texts are byte strings. What the program does not decide is an argument: the clock, fresh identifiers, random draws,
  whether a transaction starts and commits (also: commits although the client sees an error), what the network does to each
  attempt of a call (\<open>fate\<close>), and what other clients commit in between. Theorems quantify over all of them.

  \<^bold>\<open>Theories.\<close>
  \<^item> \<open>Prelude\<close>: words, instants, tables; the locales \<open>keyed_table\<close> (a table with a key, interpreted on the tables of every
    service) and \<open>checked_add\<close> (overflow-checked addition, interpreted on \<open>money.AddInt64\<close>, the ledger's \<open>addChecked\<close> and
    \<open>addInt64\<close>). \<open>Go_Errors\<close>, \<open>Go_Text\<close>, \<open>Go_Json\<close>: what the code uses of Go's errors, \<open>strconv\<close>, \<open>strings\<close>,
    base64 and \<open>encoding/json\<close>.
  \<^item> \<open>Money\<close> (\<open>pkg/money\<close>), \<open>Apperr\<close> (\<open>pkg/apperr\<close>), \<open>Grpcx\<close> (\<open>pkg/grpcx\<close>: claims, propagation, retries),
    \<open>Outbox\<close> (\<open>pkg/pgtx\<close>, \<open>pkg/outbox\<close>), \<open>Consumer\<close> (\<open>pkg/kafka\<close>, with the locale \<open>consumer_handler\<close>: what a handler
    must keep, and what the consumer then guarantees; interpreted on the handlers of \<open>account\<close>, \<open>antifraud\<close> and
    \<open>notification\<close>).
  \<^item> \<open>Ledger_Domain\<close>, \<open>Ledger_Store\<close>, \<open>Ledger_Service\<close>, \<open>Ledger_Server\<close>: \<open>services/ledger\<close> from its rules to its gRPC
    handlers. \<open>Ledger_Effects\<close>, \<open>Ledger_Invariant\<close>, \<open>Ledger_Safety\<close>: what each operation does to the tables, the step
    relation of the ledger under any interleaving, and its invariant (books balance, no overdraft, event stream).
    \<open>Ledger_Replay\<close>, \<open>Ledger_Holds\<close>, \<open>Ledger_Pages\<close>, \<open>Ledger_Names\<close>: idempotency, holds, pagination, identifiers.
  \<^item> \<open>Transfer_Domain\<close>, \<open>Transfer_Store\<close>, \<open>Ledger_Client\<close>, \<open>Transfer_Client\<close>, \<open>Transfer_Service\<close>: \<open>services/transfer\<close>,
    the recovery worker included; its ledger client runs the ledger's own handlers behind the retry chain. \<open>Saga\<close> is the
    abstract protocol of any number of workers, \<open>Saga_Safety\<close> its invariant, \<open>Saga_Drive\<close> and \<open>Saga_Code\<close> the proof that
    the code implements it and what follows for the code.
  \<^item> \<open>Account_Domain\<close>, \<open>Account\<close>, \<open>Account_Invariant\<close>, \<open>Account_Opening\<close>, \<open>Account_Safety\<close>: \<open>services/account\<close>, the mirroring
    of accounts in the ledger, the authorization of reads, the convergence of the balance projection.
  \<^item> \<open>Identity_Domain\<close>, \<open>Identity\<close>, \<open>Identity_Safety\<close>: \<open>services/identity\<close>, refresh-token rotation and reuse, passwords,
    what an access token says.
  \<^item> \<open>Antifraud\<close>, \<open>Antifraud_Safety\<close>, \<open>Antifraud_Freeze\<close>: \<open>services/antifraud\<close>, when alerts are raised, and the path from
    an alert to a frozen account. \<open>Notification\<close>: \<open>services/notification\<close>.
  \<^item> \<open>Gateway_Access\<close>, \<open>Gateway\<close>, \<open>Gateway_Safety\<close>: \<open>services/gateway\<close>: route table, keys and tokens, limiter, handlers,
    middlewares, router; who gets through. \<open>Platform\<close>: the gateway's clients over the models of the services behind it,
    and what a customer can read through all of them.
  \<^item> \<open>Ledger_Examples\<close>, \<open>Saga_Examples\<close>, \<open>Account_Examples\<close>, \<open>Identity_Examples\<close>, \<open>Antifraud_Examples\<close>,
    \<open>Platform_Examples\<close>: worked runs that instantiate the theorems.

  \<^bold>\<open>What is shown.\<close> \<^emph>\<open>Money:\<close> balances of a currency sum to zero, stored balances are the sums of their postings, customers
  are never overdrawn, a reference is posted at most once, holds only go from active to captured or released.
  \<^emph>\<open>Transfers:\<close> a completed transfer has exactly its entry in the ledger, a failed one never gets an entry, the answer to
  the customer is true, the loop of \<open>Drive\<close> ends, and the code refines the protocol. \<^emph>\<open>Events:\<close> at-least-once relay,
  exactly-once effect of consumers, convergence of the projection, exact alerts, one notification per event.
  \<^emph>\<open>Access:\<close> reuse of a refresh token revokes its family, tokens say what was verified, protected routes are only served to
  a valid token with a role of the route, customers only read their own, rate limits and page sizes are bounds, errors keep
  their code and reveal nothing internal. \<^emph>\<open>Flaws:\<close> some theorems state what goes wrong, such as
  \<open>releasing_captured_stuck\<close>, \<open>captured_hold_leaks\<close>, \<open>refresh_race_not_revoked\<close>, \<open>unacked_dead_letter_lost\<close>,
  \<open>velocity_evaded\<close>, \<open>daily_sum_cleared\<close> and \<open>resent_after_failed_commit\<close>.

  \<^bold>\<open>Bounds and fuel.\<close> A loop that calls out takes the list of the inputs of its turns, and returns \<open>None\<close> when the list is too
  short. \<open>Drive_returns\<close> shows that six turns are enough for \<open>Drive\<close>, \<open>PlaceHold_returns\<close> that two attempts are enough for
  \<open>PlaceHold\<close>. Retry chains stop after three attempts, the consumer after its configured number.
  The background loops of relay, sweeper, recovery and consumer are the repetition of one modelled pass.

  \<^bold>\<open>Parameters.\<close> SHA-256, argon2id, RS256 and JWT verification, the mail parser, Unicode case mapping, the calendar and RFC
  3339 parsing, Redis and the notification sender are arguments of the definitions that use them; where a theorem relies on
  their documented behaviour it is a hypothesis (\<open>redis_counts\<close>, \<open>verifies_signed\<close>, the key length of argon2id).

  \<^bold>\<open>Not modelled.\<close> The partition maintenance of the ledger (DDL without effect on rows), process wiring (\<open>cmd/main.go\<close>,
  configuration, pools, migrations), logging, metrics and tracing, because they keep no state of the program; the counters of
  the circuit breaker and timeouts, whose outcome is the \<open>fate\<close> of a call; panic recovery; HTTP parsing and route matching of
  the web framework; serving the key document and loading the key file; generated protobuf code, whose messages are records;
  JSON encoding of responses, which are data here. What the account service answers to \<open>transfer\<close> is
  an input of the saga (any answer), not a run of the account model.
\<close>

end
